theory Spec2Isabelle
  imports Complex_Main
begin

section \<open>JavaScript strings\<close>

text \<open>
  A JavaScript string is a sequence of UTF-16 code units; \<open>.length\<close> counts them.
  Literals of the source are written \<open>str ''...''\<close>; characters outside ASCII are
  given by their code units.
\<close>

type_synonym jschar = nat
type_synonym jsstring = "jschar list"

definition str :: "string \<Rightarrow> jsstring" where
  "str s = map of_char s"

text \<open>
  Case-insensitive matching of a regular expression without the \<open>u\<close> flag compares
  canonical forms; for the ASCII patterns of this program only the ASCII letters fold
  (a character outside ASCII never canonicalises to an ASCII one).
\<close>

definition canon :: "jschar \<Rightarrow> jschar" where
  "canon c = (if 97 \<le> c \<and> c \<le> 122 then c - 32 else c)"

definition starts_with_ci :: "jsstring \<Rightarrow> jsstring \<Rightarrow> bool" where
  "starts_with_ci p s = (length p \<le> length s \<and> map canon (take (length p) s) = map canon p)"

text \<open>\<open>String.prototype.startsWith\<close>.\<close>

definition startsWith :: "jsstring \<Rightarrow> jsstring \<Rightarrow> bool" where
  "startsWith p s = (take (length p) s = p)"

text \<open>\<open>String.prototype.includes\<close>.\<close>

fun includes_str :: "jsstring \<Rightarrow> jsstring \<Rightarrow> bool" where
  "includes_str p [] = (p = [])"
| "includes_str p (c # cs) = (startsWith p (c # cs) \<or> includes_str p cs)"

text \<open>
  The leftmost occurrence of a literal pattern, ignoring case: the text before it and
  the text after it.
\<close>

fun search_ci :: "jsstring \<Rightarrow> jsstring \<Rightarrow> (jsstring \<times> jsstring) option" where
  "search_ci p [] = (if p = [] then Some ([], []) else None)"
| "search_ci p (c # cs) =
     (if starts_with_ci p (c # cs) then Some ([], drop (length p) (c # cs))
      else map_option (\<lambda>(pre, post). (c # pre, post)) (search_ci p cs))"

text \<open>
  \<open>String.prototype.trim\<close> removes WhiteSpace and LineTerminator code units from
  both ends.
\<close>

definition is_line_terminator :: "jschar \<Rightarrow> bool" where
  "is_line_terminator c = (c = 10 \<or> c = 13 \<or> c = 0x2028 \<or> c = 0x2029)"

definition is_white_space :: "jschar \<Rightarrow> bool" where
  "is_white_space c =
     (c = 9 \<or> c = 11 \<or> c = 12 \<or> c = 32 \<or> c = 0xA0 \<or> c = 0x1680
      \<or> (0x2000 \<le> c \<and> c \<le> 0x200A) \<or> c = 0x202F \<or> c = 0x205F \<or> c = 0x3000
      \<or> c = 0xFEFF \<or> is_line_terminator c)"

definition trim :: "jsstring \<Rightarrow> jsstring" where
  "trim s = rev (dropWhile is_white_space (rev (dropWhile is_white_space s)))"

section \<open>Decoding the byte stream\<close>

text \<open>
  \<open>new TextDecoder().decode(value)\<close>, called without \<open>{stream: true}\<close>: every call
  decodes its bytes on their own, from a fresh decoder state. This is the UTF-8 decoder of
  the Encoding Standard with replacement error handling: \<open>needed\<close>, \<open>seen\<close> and
  \<open>cp\<close> are its \<open>bytes needed\<close>, \<open>bytes seen\<close> and \<open>code point\<close>, \<open>lo\<close> and
  \<open>hi\<close> the bounds of the next continuation byte. A sequence that is malformed, or
  cut off by the end of the input, yields U+FFFD; the byte that broke a sequence is then
  read again as a first byte.
\<close>

type_synonym byte = nat

fun utf8_decode :: "nat \<Rightarrow> nat \<Rightarrow> nat \<Rightarrow> nat \<Rightarrow> nat \<Rightarrow> byte list \<Rightarrow> nat list" where
  "utf8_decode needed seen cp lo hi [] = (if needed \<noteq> 0 then [0xFFFD] else [])"
| "utf8_decode needed seen cp lo hi (b # bs) =
     (if needed = 0 \<or> \<not> (lo \<le> b \<and> b \<le> hi) then
        (if needed \<noteq> 0 then [0xFFFD] else [])
        @ (if b \<le> 0x7F then b # utf8_decode 0 0 0 0x80 0xBF bs
           else if 0xC2 \<le> b \<and> b \<le> 0xDF then utf8_decode 1 0 (b mod 32) 0x80 0xBF bs
           else if 0xE0 \<le> b \<and> b \<le> 0xEF then
             utf8_decode 2 0 (b mod 16)
               (if b = 0xE0 then 0xA0 else 0x80) (if b = 0xED then 0x9F else 0xBF) bs
           else if 0xF0 \<le> b \<and> b \<le> 0xF4 then
             utf8_decode 3 0 (b mod 8)
               (if b = 0xF0 then 0x90 else 0x80) (if b = 0xF4 then 0x8F else 0xBF) bs
           else 0xFFFD # utf8_decode 0 0 0 0x80 0xBF bs)
      else if seen + 1 = needed then (cp * 64 + b mod 64) # utf8_decode 0 0 0 0x80 0xBF bs
      else utf8_decode needed (seen + 1) (cp * 64 + b mod 64) 0x80 0xBF bs)"

text \<open>A leading byte order mark is dropped (\<open>ignoreBOM\<close> is false by default).\<close>

definition strip_bom :: "nat list \<Rightarrow> nat list" where
  "strip_bom cps = (case cps of c # rest \<Rightarrow> if c = 0xFEFF then rest else cps | [] \<Rightarrow> [])"

text \<open>A code point as UTF-16 code units.\<close>

definition utf16_units :: "nat \<Rightarrow> jsstring" where
  "utf16_units c =
     (if c < 0x10000 then [c]
      else [0xD800 + (c - 0x10000) div 0x400, 0xDC00 + (c - 0x10000) mod 0x400])"

definition TextDecoder_decode :: "byte list \<Rightarrow> jsstring" where
  "TextDecoder_decode bytes = concat (map utf16_units (strip_bom (utf8_decode 0 0 0 0x80 0xBF bytes)))"

section \<open>Framing the stream into lines\<close>

text \<open>
  \<open>streamBuffer.split(/\r?\n/)\<close>: the segments between line terminators, a line
  terminator being a line feed with the carriage return before it, if any. The result is
  never empty.
\<close>

definition extend_first :: "jschar \<Rightarrow> jsstring list \<Rightarrow> jsstring list" where
  "extend_first c segments = (case segments of seg # rest \<Rightarrow> (c # seg) # rest | [] \<Rightarrow> [[c]])"

fun split_lines :: "jsstring \<Rightarrow> jsstring list" where
  "split_lines [] = [[]]"
| "split_lines [c] = (if c = 10 then [[], []] else [[c]])"
| "split_lines (c # d # cs) =
     (if c = 10 then [] # split_lines (d # cs)
      else if c = 13 \<and> d = 10 then [] # split_lines cs
      else extend_first c (split_lines (d # cs)))"

text \<open>
  The read loop of one round, over the chunks the reader delivers. The buffer is extended
  by the decoded chunk and split; the last segment stays in the buffer
  (\<open>segments.pop() || ''\<close>) and the segments before it are handled in order.
\<close>

fun read_chunks ::
  "(byte list \<Rightarrow> jsstring) \<Rightarrow> ('s \<Rightarrow> jsstring \<Rightarrow> 's) \<Rightarrow> 's \<times> jsstring \<Rightarrow> byte list list \<Rightarrow> 's \<times> jsstring"
  where
  "read_chunks decode handle (st, streamBuffer) [] = (st, streamBuffer)"
| "read_chunks decode handle (st, streamBuffer) (v # rest) =
     (let segments = split_lines (streamBuffer @ decode v)
      in read_chunks decode handle (foldl handle st (butlast segments), last segments) rest)"

text \<open>
  The records a stream is framed into: the lines handled inside the read loop, in order,
  and the residual buffer, which is parsed after the stream ends when it is not blank.
\<close>

definition stream_records :: "byte list list \<Rightarrow> jsstring list \<times> jsstring" where
  "stream_records chunks =
     read_chunks TextDecoder_decode (\<lambda>acc line. acc @ [line]) ([], []) chunks"

section \<open>The response sanitizer: \<open>cleanThinkingContent\<close>\<close>

text \<open>
  \<open>text.match(/<think>([\s\S]*?)<\/think>/i)\<close>: the leftmost opening tag that is
  followed by a closing tag, with the shortest span between them. The result is the text
  before the match, the captured span and the text after the match.
\<close>

definition think_match :: "jsstring \<Rightarrow> (jsstring \<times> jsstring \<times> jsstring) option" where
  "think_match s =
     (case search_ci (str ''<think>'') s of
        None \<Rightarrow> None
      | Some (pre, rest) \<Rightarrow>
          (case search_ci (str ''</think>'') rest of
             None \<Rightarrow> None
           | Some (inner, post) \<Rightarrow> Some (pre, inner, post)))"

lemma search_ci_post_le: "search_ci p s = Some (pre, post) \<Longrightarrow> length post \<le> length s"
  by (induction s arbitrary: pre) (auto split: if_splits)

lemma search_ci_post_less:
  "p \<noteq> [] \<Longrightarrow> search_ci p s = Some (pre, post) \<Longrightarrow> length post < length s"
  by (induction s arbitrary: pre) (fastforce split: if_splits)+

lemma think_match_shorter:
  assumes "think_match s = Some (pre, inner, post)"
  shows "length post < length s"
proof -
  from assms obtain rest where
    r: "search_ci (str ''<think>'') s = Some (pre, rest)" and
    p: "search_ci (str ''</think>'') rest = Some (inner, post)"
    by (auto simp: think_match_def split: option.splits)
  have "length rest \<le> length s" using r by (rule search_ci_post_le)
  moreover have "length post < length rest"
    using p by (intro search_ci_post_less) (auto simp: str_def)
  ultimately show ?thesis by simp
qed

text \<open>\<open>text.replace(/<think>[\s\S]*?<\/think>/gi, '')\<close>: every match is removed,
  scanning on from the end of the previous one.\<close>

function remove_think :: "jsstring \<Rightarrow> jsstring" where
  "remove_think s =
     (case think_match s of
        None \<Rightarrow> s
      | Some (pre, inner, post) \<Rightarrow> pre @ remove_think post)"
  by pat_completeness auto
termination
  by (relation "measure length") (auto dest: think_match_shorter)

text \<open>
  \<open>/^(A|B|...)/im.test(s)\<close>: with the \<open>m\<close> flag \<open>^\<close> matches at the start of
  the text and after every line terminator.
\<close>

fun line_suffixes :: "bool \<Rightarrow> jsstring \<Rightarrow> jsstring list" where
  "line_suffixes at_start [] = (if at_start then [[]] else [])"
| "line_suffixes at_start (c # cs) =
     (if at_start then [c # cs] else []) @ line_suffixes (is_line_terminator c) cs"

definition test_line_start :: "jsstring list \<Rightarrow> jsstring \<Rightarrow> bool" where
  "test_line_start alts s =
     list_ex (\<lambda>suf. list_ex (\<lambda>a. starts_with_ci a suf) alts) (line_suffixes True s)"

definition thinkingPatterns :: "jsstring list list" where
  "thinkingPatterns =
     [ [str ''Okay,'', str ''Wait,'', str ''Hmm,'', str ''Let me think'', str ''Let me check'',
        str ''I need to'', str ''First,'', str ''So,'', str ''Actually,''],
       [str ''The user'', str ''They didn'' @ [39] @ str ''t'', str ''Since they'',
        str ''I should'', str ''I have to'', str ''I'' @ [39] @ str ''ll'', str ''Maybe I''],
       [str ''Looking at'', str ''Checking'', str ''Analyzing'', str ''Processing'',
        str ''Thinking about''] ]"

definition looksLikeThinking :: "jsstring \<Rightarrow> bool" where
  "looksLikeThinking s = list_ex (\<lambda>p. test_line_start p s) thinkingPatterns"

text \<open>
  The two variables \<open>thinkingContent\<close> and \<open>mainContent\<close> as they stand when the
  result is assembled.
\<close>

definition think_split :: "jsstring \<Rightarrow> jsstring \<times> jsstring" where
  "think_split text =
     (let (thinkingContent, mainContent) =
            (case think_match text of
               Some (pre, inner, post) \<Rightarrow> (trim inner, trim (remove_think text))
             | None \<Rightarrow> ([], text))
      in if looksLikeThinking mainContent \<and> thinkingContent = []
         then (mainContent, [])
         else (thinkingContent, mainContent))"

definition details_block :: "jsstring \<Rightarrow> jsstring" where
  "details_block thinkingContent =
     str ''<details class='' @ [34] @ str ''thinking-container'' @ [34] @ str ''>'' @ [10]
     @ str ''<summary>'' @ [0xD83D, 0xDCAD] @ str '' View AI Reasoning</summary>'' @ [10, 10]
     @ thinkingContent @ [10, 10] @ str ''</details>'' @ [10, 10]"

definition fallback_sentence :: jsstring where
  "fallback_sentence =
     str ''I'' @ [39] @ str ''ve processed your request. The floor plan has been generated and is displayed in the viewer.''"

definition cleanThinkingContent :: "jsstring \<Rightarrow> jsstring" where
  "cleanThinkingContent text =
     (if text = [] then []
      else
        let (thinkingContent, mainContent) = think_split text;
            result = (if thinkingContent \<noteq> [] then details_block thinkingContent else [])
                     @ (if mainContent \<noteq> [] then mainContent else []);
            result = (if trim result = [] then fallback_sentence else result)
        in trim result)"

text \<open>A string is blank when trimming leaves nothing of it.\<close>

definition blank :: "jsstring \<Rightarrow> bool" where
  "blank s = (trim s = [])"

section \<open>Values on the wire\<close>

text \<open>
  Tool results and backend responses have the TypeScript type \<open>any\<close>: they are JSON
  values. A number is the rational its double denotes (the code does no arithmetic on
  these apart from \<open>Math.round\<close>, which is exact); an object is the list of its
  fields, each key once.
\<close>

datatype json =
    JNull | JBool bool | JNum rat | JStr jsstring | JArr "json list"
  | JObj "(jsstring \<times> json) list"

fun truthy :: "json \<Rightarrow> bool" where
  "truthy JNull = False"
| "truthy (JBool b) = b"
| "truthy (JNum n) = (n \<noteq> 0)"
| "truthy (JStr s) = (s \<noteq> [])"
| "truthy (JArr xs) = True"
| "truthy (JObj kvs) = True"

text \<open>\<open>typeof v === 'object'\<close>.\<close>

fun typeof_object :: "json \<Rightarrow> bool" where
  "typeof_object JNull = True"
| "typeof_object (JArr xs) = True"
| "typeof_object (JObj kvs) = True"
| "typeof_object v = False"

text \<open>Reading a property; \<open>None\<close> is \<open>undefined\<close>.\<close>

fun jfield :: "jsstring \<Rightarrow> json \<Rightarrow> json option" where
  "jfield k (JObj kvs) = map_of kvs k"
| "jfield k v = None"

text \<open>Decimal digits of an integer, as in a template literal (below \<open>10^21\<close>).\<close>

fun show_nat :: "nat \<Rightarrow> jsstring" where
  "show_nat n = (if n < 10 then [48 + n] else show_nat (n div 10) @ [48 + n mod 10])"

definition show_int :: "int \<Rightarrow> jsstring" where
  "show_int i = (if i < 0 then 45 # show_nat (nat (- i)) else show_nat (nat i))"

text \<open>
  The arguments of a tool call (\<open>Record<string, any>\<close>), read at the types the handler
  reads them at: \<open>plot_dimensions: number[]\<close>, \<open>orientation: string\<close>,
  \<open>rooms_needed: string[]\<close>. A field is \<open>None\<close> when it is absent or fails the
  handler's \<open>Array.isArray\<close> / \<open>typeof\<close> test.
\<close>

record tool_args =
  plot_dimensions :: "rat list option"
  orientation :: "jsstring option"
  rooms_needed :: "jsstring list option"

definition empty_args :: tool_args where
  "empty_args = \<lparr>plot_dimensions = None, orientation = None, rooms_needed = None\<rparr>"

text \<open>The interface \<open>ToolCall\<close>: nested under \<open>function\<close>, or flat.\<close>

datatype raw_arguments = ArgString jsstring | ArgObject tool_args

record tool_function =
  fn_name :: jsstring
  fn_arguments :: "raw_arguments option"

record tool_call =
  tc_function :: "tool_function option"
  tc_name :: "jsstring option"
  tc_arguments :: "raw_arguments option"

text \<open>
  A parsed record of either dialect, as the fields the source reads from it, with
  optional chaining already applied: \<open>r_message_content\<close> is
  \<open>parsed.message?.content\<close>, \<open>r_delta_content\<close> is
  \<open>parsed.choices?.[0]?.delta?.content\<close>, and so on. Text fields are strings, as
  the source declares \<open>const content: string\<close>.
\<close>

record llm_record =
  r_message_content :: "jsstring option"
  r_message_thinking :: "jsstring option"
  r_response :: "jsstring option"
  r_thinking :: "jsstring option"
  r_content :: "jsstring option"
  r_text :: "jsstring option"
  r_message_tool_calls :: "tool_call list option"
  r_tool_calls :: "tool_call list option"
  r_done :: bool
  r_delta_content :: "jsstring option"
  r_choice_message_content :: "jsstring option"

text \<open>\<open>a || b || ... || ''\<close> over optional strings.\<close>

fun first_truthy :: "jsstring option list \<Rightarrow> jsstring" where
  "first_truthy [] = []"
| "first_truthy (None # rest) = first_truthy rest"
| "first_truthy (Some s # rest) = (if s \<noteq> [] then s else first_truthy rest)"

text \<open>
  What the JavaScript platform provides. \<open>JSON.parse\<close> is read at the two types above;
  it gives \<open>None\<close> where it throws a SyntaxError, and also where it yields \<open>null\<close>,
  since the first property read on the result then throws inside the same \<open>try\<close>.
\<close>

record platform =
  JSON_parse_record :: "jsstring \<Rightarrow> llm_record option"
  JSON_parse_args :: "jsstring \<Rightarrow> tool_args option"
  JSON_stringify :: "json \<Rightarrow> jsstring"
  toLowerCase :: "jsstring \<Rightarrow> jsstring"
  ToString :: "json \<Rightarrow> jsstring"
  null_read_message :: jsstring

section \<open>Messages, requests and the environment\<close>

datatype role = User | Assistant | System | Tool

record message =
  msg_role :: role
  msg_content :: jsstring
  msg_timestamp :: nat

record rolling_message =
  rm_role :: role
  rm_content :: jsstring
  rm_name :: "jsstring option"

record tool_definition =
  td_name :: jsstring
  td_description :: "jsstring option"
  td_parameters :: "json option"

record ollama_tool =
  ot_name :: jsstring
  ot_description :: jsstring
  ot_parameters :: json

definition to_ollama_tool :: "tool_definition \<Rightarrow> ollama_tool" where
  "to_ollama_tool t =
     \<lparr>ot_name = td_name t,
      ot_description = (case td_description t of Some d \<Rightarrow> d | None \<Rightarrow> []),
      ot_parameters = (case td_parameters t of Some p \<Rightarrow> p
                       | None \<Rightarrow> JObj [(str ''type'', JStr (str ''object'')), (str ''properties'', JObj [])])\<rparr>"

record server_config =
  cfg_endpoint :: jsstring
  cfg_model :: jsstring
  cfg_type :: jsstring

text \<open>
  The body of a request to the chat endpoint, without its constant fields (sampling
  options, \<open>think\<close>, \<open>temperature\<close>). A field that is \<open>undefined\<close> is left out by
  \<open>JSON.stringify\<close>: it is \<open>None\<close> here. The OpenAI-style body has neither
  \<open>tools\<close> nor \<open>tool_choice\<close>.
\<close>

record chat_request =
  req_url :: jsstring
  req_model :: jsstring
  req_messages :: "rolling_message list"
  req_stream :: bool
  req_tools :: "ollama_tool list option"
  req_tool_choice :: "jsstring option"

record room =
  room_id :: jsstring
  room_name :: jsstring
  room_type :: jsstring
  room_width :: rat
  room_height :: rat

text \<open>
  A room as the tool executor builds it, from a preset that may lack a field: a field
  that is \<open>undefined\<close>, and so left out of the request body, is \<open>None\<close>.
\<close>

record base_room_object =
  br_id :: jsstring
  br_name :: "jsstring option"
  br_type :: "jsstring option"
  br_width :: "rat option"
  br_height :: "rat option"

record gen_payload =
  p_rooms :: "base_room_object list"
  p_plotWidth :: rat
  p_plotLength :: rat
  p_solver_type :: jsstring
  p_house_facing :: "jsstring option"

text \<open>
  The network. A response is a function of the request and of the number of effects the
  turn has had so far, so that the same request may be answered differently each time.
  A stream is the chunks the reader delivers and then either its end or a rejected read
  (an aborted or broken connection). \<open>Inl m\<close> in a body is \<open>json()\<close> rejecting with
  message \<open>m\<close>.
\<close>

datatype stream_end = StreamDone | ReadRejects jsstring

datatype stream_response =
    StreamFetchRejects jsstring
  | StreamResponse bool nat "(byte list list \<times> stream_end) option"

datatype flat_response =
    FlatFetchRejects jsstring
  | FlatResponse bool nat "jsstring + llm_record"

datatype backend_response =
    BackendFetchRejects jsstring
  | BackendResponse bool nat "jsstring + json"

record env =
  llm_stream :: "nat \<Rightarrow> chat_request \<Rightarrow> stream_response"
  llm_flat :: "nat \<Rightarrow> chat_request \<Rightarrow> flat_response"
  backend :: "nat \<Rightarrow> gen_payload \<Rightarrow> backend_response"
  llm_disable_tools :: "nat \<Rightarrow> bool"

text \<open>
  Timers are not modelled as such. The stall timer of a round has one effect when it
  fires, aborting the request: the pending read then rejects, which is the stream end
  \<open>ReadRejects\<close>.
\<close>

text \<open>Which of the optional callbacks the caller passed. A callback is taken to return
  normally.\<close>

record callbacks =
  has_onToken :: bool
  has_onToolCall :: bool

text \<open>
  The effects of a turn, in order: requests, callbacks, state setters and the
  \<open>console.warn\<close> and \<open>console.error\<close> calls (\<open>console.log\<close> is left out).
\<close>

datatype console_tag =
    ConstraintSolverFailed nat | ToolError | ToolArgsParseError | StreamDoneNoContent
  | NoStreamData | FallbackNonStreamFailed nat

datatype event =
    LLMFetch chat_request
  | BackendFetch gen_payload
  | OnToken jsstring
  | OnToolCall tool_call json
  | Console console_tag
  | SetIsLoading bool
  | SetError "jsstring option"

datatype error = ServerResponded nat | NoResponseBody | Rejected jsstring

definition error_message :: "error \<Rightarrow> jsstring" where
  "error_message e =
     (case e of
        ServerResponded status \<Rightarrow> str ''Server responded with '' @ show_nat status
      | NoResponseBody \<Rightarrow> str ''No response body''
      | Rejected m \<Rightarrow> m)"

text \<open>The variables of \<open>generateResponse\<close>; the last two are reset in every round.\<close>

record turn_state =
  fullResponse :: jsstring
  rollingMessages :: "rolling_message list"
  haveToolResults :: bool
  lastToolResult :: json
  encounteredToolCall :: bool
  streamedCharsThisRound :: nat
  trace :: "event list"

definition emit :: "event \<Rightarrow> turn_state \<Rightarrow> turn_state" where
  "emit e st = st\<lparr>trace := trace st @ [e]\<rparr>"

section \<open>The tool executor\<close>

text \<open>The room presets of \<open>generate_layout_hybrid\<close>: width, height, type and name.\<close>

definition defaults :: "(jsstring \<times> (rat \<times> rat \<times> jsstring \<times> jsstring)) list" where
  "defaults =
     [(str ''living_room'', (10, 10, str ''living'', str ''Living Room'')),
      (str ''living'', (10, 10, str ''living'', str ''Living Room'')),
      (str ''kitchen'', (8, 8, str ''kitchen'', str ''Kitchen'')),
      (str ''master_bedroom'', (14, 12, str ''master_bedroom'', str ''Master Bedroom'')),
      (str ''bedroom'', (12, 10, str ''bedroom'', str ''Bedroom'')),
      (str ''bathroom'', (6, 6, str ''bathroom'', str ''Bathroom'')),
      (str ''pooja_room'', (6, 6, str ''pooja'', str ''Pooja Room''))]"

text \<open>
  \<open>defaults\<close> is a plain object, so \<open>defaults[k]\<close> also finds what the object
  inherits from \<open>Object.prototype\<close>: its methods, which are functions whose
  \<open>name\<close> is given here and which have no \<open>w\<close>, \<open>h\<close> or \<open>type\<close>, and
  \<open>__proto__\<close>, which is the prototype itself and has none of the four.
\<close>

definition Object_prototype :: "(jsstring \<times> jsstring option) list" where
  "Object_prototype =
     [(str ''constructor'', Some (str ''Object'')),
      (str ''hasOwnProperty'', Some (str ''hasOwnProperty'')),
      (str ''isPrototypeOf'', Some (str ''isPrototypeOf'')),
      (str ''propertyIsEnumerable'', Some (str ''propertyIsEnumerable'')),
      (str ''toLocaleString'', Some (str ''toLocaleString'')),
      (str ''toString'', Some (str ''toString'')),
      (str ''valueOf'', Some (str ''valueOf'')),
      (str ''__defineGetter__'', Some (str ''__defineGetter__'')),
      (str ''__defineSetter__'', Some (str ''__defineSetter__'')),
      (str ''__lookupGetter__'', Some (str ''__lookupGetter__'')),
      (str ''__lookupSetter__'', Some (str ''__lookupSetter__'')),
      (str ''__proto__'', None)]"

text \<open>\<open>defaults[k]\<close>, as the fields \<open>w\<close>, \<open>h\<close>, \<open>type\<close> and \<open>name\<close> of
  what is found; every value that can be found is truthy.\<close>

definition defaults_lookup ::
  "jsstring \<Rightarrow> (rat option \<times> rat option \<times> jsstring option \<times> jsstring option) option" where
  "defaults_lookup k =
     (case map_of defaults k of
        Some (w, h, ty, nm) \<Rightarrow> Some (Some w, Some h, Some ty, Some nm)
      | None \<Rightarrow>
          (case map_of Object_prototype k of
             Some nm \<Rightarrow> Some (None, None, None, nm)
           | None \<Rightarrow> None))"

definition base_room :: "platform \<Rightarrow> jsstring \<Rightarrow> nat \<Rightarrow> base_room_object" where
  "base_room P key idx =
     (let k = toLowerCase P key;
          def = (case defaults_lookup k of
                   Some d \<Rightarrow> d
                 | None \<Rightarrow>
                     (case defaults_lookup (map (\<lambda>c. if c = 32 then 95 else c) k) of
                        Some d \<Rightarrow> d
                      | None \<Rightarrow> (Some 8, Some 8, Some k, Some key)))
      in case def of (w, h, ty, nm) \<Rightarrow>
           \<lparr>br_id = k @ str ''_'' @ show_nat (idx + 1), br_name = nm, br_type = ty,
            br_width = w, br_height = h\<rparr>)"

text \<open>\<open>Number(dims[i]) || 30\<close>.\<close>

definition dim_or_30 :: "rat list \<Rightarrow> nat \<Rightarrow> rat" where
  "dim_or_30 dims i = (if i < length dims \<and> dims ! i \<noteq> 0 then dims ! i else 30)"

definition layout_payload :: "platform \<Rightarrow> tool_args \<Rightarrow> gen_payload" where
  "layout_payload P args =
     (let dims = (case plot_dimensions args of Some d \<Rightarrow> d | None \<Rightarrow> [30, 30]);
          roomsNeeded = (case rooms_needed args of Some r \<Rightarrow> r | None \<Rightarrow> [])
      in \<lparr>p_rooms = map (\<lambda>(key, idx). base_room P key idx) (zip roomsNeeded [0 ..< length roomsNeeded]),
          p_plotWidth = dim_or_30 dims 0,
          p_plotLength = dim_or_30 dims 1,
          p_solver_type = str ''constraint'',
          p_house_facing = (case orientation args of
                              Some ori \<Rightarrow> if ori \<noteq> [] then Some ori else None
                            | None \<Rightarrow> None)\<rparr>)"

definition error_result :: "jsstring \<Rightarrow> json" where
  "error_result m = JObj [(str ''status'', JStr (str ''error'')), (str ''message'', JStr m)]"

text \<open>The \<open>catch\<close> around the backend calls.\<close>

definition tool_error :: "jsstring \<Rightarrow> turn_state \<Rightarrow> json \<times> turn_state" where
  "tool_error m st =
     (error_result (if m \<noteq> [] then m else str ''Backend generation failed''),
      emit (Console ToolError) st)"

text \<open>
  \<open>genJson = await genRes.json()\<close> and the read of \<open>genJson.solver_type\<close> after it,
  which throws when the body is \<open>null\<close>.
\<close>

definition take_body :: "platform \<Rightarrow> jsstring + json \<Rightarrow> turn_state \<Rightarrow> json \<times> turn_state" where
  "take_body P body st =
     (case body of
        Inl m \<Rightarrow> tool_error m st
      | Inr genJson \<Rightarrow>
          if genJson = JNull then tool_error (null_read_message P) st else (genJson, st))"

text \<open>
  The handler of \<open>generate_layout_hybrid\<close>: the constraint solver first, the graph
  solver when the first response is not ok; the body of the last response is the result,
  whatever its status.
\<close>

definition run_generate :: "platform \<Rightarrow> env \<Rightarrow> tool_args \<Rightarrow> turn_state \<Rightarrow> json \<times> turn_state" where
  "run_generate P E args st =
     (let payload = layout_payload P args;
          st1 = emit (BackendFetch payload) st
      in case backend E (length (trace st)) payload of
           BackendFetchRejects m \<Rightarrow> tool_error m st1
         | BackendResponse ok status body \<Rightarrow>
             if ok then take_body P body st1
             else
               let st2 = emit (Console (ConstraintSolverFailed status)) st1;
                   payload2 = payload\<lparr>p_solver_type := str ''graph''\<rparr>;
                   st3 = emit (BackendFetch payload2) st2
               in case backend E (length (trace st2)) payload2 of
                    BackendFetchRejects m \<Rightarrow> tool_error m st3
                  | BackendResponse ok2 status2 body2 \<Rightarrow> take_body P body2 st3)"

text \<open>\<open>toolCall.function?.arguments ?? toolCall.arguments ?? '{}'\<close>.\<close>

definition raw_arguments_of :: "tool_call \<Rightarrow> raw_arguments" where
  "raw_arguments_of tc =
     (case (case tc_function tc of Some f \<Rightarrow> fn_arguments f | None \<Rightarrow> None) of
        Some a \<Rightarrow> a
      | None \<Rightarrow> (case tc_arguments tc of Some a \<Rightarrow> a | None \<Rightarrow> ArgString (str ''{}'')))"

definition resolve_arguments :: "platform \<Rightarrow> tool_call \<Rightarrow> tool_args option" where
  "resolve_arguments P tc =
     (case raw_arguments_of tc of
        ArgString s \<Rightarrow> JSON_parse_args P s
      | ArgObject a \<Rightarrow> Some a)"

definition no_handler :: json where
  "no_handler = error_result (str ''No handler'')"

text \<open>
  One tool call inside the read loop. The whole body is in a \<open>try\<close> whose \<open>catch\<close>
  logs \<open>ToolArgsParseError\<close> and goes on to the next call: it is reached when the
  argument string does not parse, and when the call has no \<open>function\<close> field
  (\<open>toolCall.function.name\<close> throws).
\<close>

definition execute_tool_call ::
  "platform \<Rightarrow> env \<Rightarrow> callbacks \<Rightarrow> turn_state \<Rightarrow> tool_call \<Rightarrow> turn_state" where
  "execute_tool_call P E cb st toolCall =
     (case resolve_arguments P toolCall of
        None \<Rightarrow> emit (Console ToolArgsParseError) st
      | Some args \<Rightarrow>
          (case tc_function toolCall of
             None \<Rightarrow> emit (Console ToolArgsParseError) st
           | Some f \<Rightarrow>
               let (result, st1) =
                     (if fn_name f = str ''generate_layout_hybrid''
                      then run_generate P E args st else (no_handler, st));
                   st2 = (if has_onToolCall cb then emit (OnToolCall toolCall result) st1 else st1)
               in st2\<lparr>rollingMessages := rollingMessages st2 @
                         [\<lparr>rm_role = Tool, rm_content = JSON_stringify P result,
                           rm_name = Some (fn_name f)\<rparr>],
                       haveToolResults := True,
                       lastToolResult := result\<rparr>))"

section \<open>One round\<close>

text \<open>Streamed text: appended to the response, passed to \<open>onToken\<close>, counted.\<close>

definition add_content :: "callbacks \<Rightarrow> jsstring \<Rightarrow> turn_state \<Rightarrow> turn_state" where
  "add_content cb content st =
     (let st1 = st\<lparr>fullResponse := fullResponse st @ content\<rparr>;
          st2 = (if has_onToken cb then emit (OnToken content) st1 else st1)
      in st2\<lparr>streamedCharsThisRound := streamedCharsThisRound st2 + length content\<rparr>)"

text \<open>\<open>parsed.message?.tool_calls || parsed.tool_calls\<close>; an array is truthy.\<close>

definition tool_calls_of :: "llm_record \<Rightarrow> tool_call list" where
  "tool_calls_of parsed =
     (case r_message_tool_calls parsed of
        Some tcs \<Rightarrow> tcs
      | None \<Rightarrow> (case r_tool_calls parsed of Some tcs \<Rightarrow> tcs | None \<Rightarrow> []))"

definition handle_ollama_line ::
  "platform \<Rightarrow> env \<Rightarrow> callbacks \<Rightarrow> turn_state \<Rightarrow> jsstring \<Rightarrow> turn_state" where
  "handle_ollama_line P E cb st line =
     (case JSON_parse_record P line of
        None \<Rightarrow> st
      | Some parsed \<Rightarrow>
          let content = first_truthy [r_message_content parsed, r_response parsed,
                                      r_content parsed, r_text parsed];
              st1 = (if content \<noteq> [] then add_content cb content st else st);
              toolCalls = tool_calls_of parsed;
              st2 = (if toolCalls \<noteq> []
                     then foldl (execute_tool_call P E cb) (st1\<lparr>encounteredToolCall := True\<rparr>) toolCalls
                     else st1)
          in if r_done parsed \<and> streamedCharsThisRound st2 = 0
             then emit (Console StreamDoneNoContent) st2 else st2)"

definition handle_openai_line :: "platform \<Rightarrow> callbacks \<Rightarrow> turn_state \<Rightarrow> jsstring \<Rightarrow> turn_state" where
  "handle_openai_line P cb st line =
     (if startsWith (str ''data: '') line then
        let data = drop 6 line
        in if data = str ''[DONE]'' then st
           else (case JSON_parse_record P data of
                   None \<Rightarrow> st
                 | Some parsed \<Rightarrow>
                     let content = first_truthy [r_delta_content parsed]
                     in if content \<noteq> [] then add_content cb content st else st)
      else st)"

definition handle_line ::
  "platform \<Rightarrow> env \<Rightarrow> bool \<Rightarrow> callbacks \<Rightarrow> turn_state \<Rightarrow> jsstring \<Rightarrow> turn_state" where
  "handle_line P E isOllama cb st line =
     (if isOllama then handle_ollama_line P E cb st line else handle_openai_line P cb st line)"

text \<open>
  The residual buffer after the stream has ended. Its text is taken from more fields than
  inside the loop. Its tool calls set \<open>encounteredToolCall\<close>; the loop over them only
  resolves the arguments and writes a \<open>console.log\<close> line, inside a \<open>try\<close> with an
  empty \<open>catch\<close>, so it leaves no effect.
\<close>

definition handle_residual ::
  "platform \<Rightarrow> bool \<Rightarrow> callbacks \<Rightarrow> turn_state \<Rightarrow> jsstring \<Rightarrow> turn_state" where
  "handle_residual P isOllama cb st streamBuffer =
     (if streamBuffer \<noteq> [] \<and> length (trim streamBuffer) > 0 then
        if isOllama then
          (case JSON_parse_record P streamBuffer of
             None \<Rightarrow> st
           | Some parsed \<Rightarrow>
               let content = first_truthy [r_message_content parsed, r_message_thinking parsed,
                                           r_response parsed, r_thinking parsed,
                                           r_content parsed, r_text parsed];
                   st1 = (if content \<noteq> [] then add_content cb content st else st);
                   toolCallsResidual = tool_calls_of parsed
               in if toolCallsResidual \<noteq> [] then st1\<lparr>encounteredToolCall := True\<rparr> else st1)
        else if startsWith (str ''data: '') streamBuffer then
          let data = drop 6 streamBuffer
          in if data \<noteq> str ''[DONE]'' then
               (case JSON_parse_record P data of
                  None \<Rightarrow> st
                | Some parsed \<Rightarrow>
                    let content = first_truthy [r_delta_content parsed,
                                                r_choice_message_content parsed]
                    in if content \<noteq> [] then add_content cb content st else st)
             else st
        else st
      else st)"

definition isOllama :: "server_config \<Rightarrow> bool" where
  "isOllama C = (cfg_type C = str ''ollama'' \<or> includes_str (str ''11434'') (cfg_endpoint C))"

definition endpoint :: "server_config \<Rightarrow> jsstring" where
  "endpoint C =
     (if isOllama C then cfg_endpoint C @ str ''/api/chat''
      else cfg_endpoint C @ str ''/v1/chat/completions'')"

definition model_or :: "server_config \<Rightarrow> jsstring" where
  "model_or C =
     (if cfg_model C \<noteq> [] then cfg_model C
      else if isOllama C then str ''gpt-oss:20b-cloud'' else str ''default'')"

definition initialToolChoice :: "bool \<Rightarrow> jsstring" where
  "initialToolChoice shouldDisableToolsThisRound =
     (if shouldDisableToolsThisRound then str ''none'' else str ''auto'')"

text \<open>The request of a round, streaming.\<close>

definition stream_request ::
  "server_config \<Rightarrow> ollama_tool list option \<Rightarrow> bool \<Rightarrow> rolling_message list \<Rightarrow> chat_request" where
  "stream_request C ollamaTools shouldDisableToolsThisRound msgs =
     \<lparr>req_url = endpoint C, req_model = model_or C, req_messages = msgs, req_stream = True,
      req_tools =
        (if isOllama C then
           (if shouldDisableToolsThisRound then None
            else (case ollamaTools of
                    Some ts \<Rightarrow> if length ts > 0 then Some ts else None
                  | None \<Rightarrow> None))
         else None),
      req_tool_choice =
        (if isOllama C then Some (initialToolChoice shouldDisableToolsThisRound) else None)\<rparr>"

text \<open>The request of the non-streaming fallback.\<close>

definition flat_request ::
  "server_config \<Rightarrow> ollama_tool list option \<Rightarrow> bool \<Rightarrow> rolling_message list \<Rightarrow> chat_request" where
  "flat_request C ollamaTools shouldDisableToolsThisRound msgs =
     \<lparr>req_url = endpoint C, req_model = model_or C, req_messages = msgs, req_stream = False,
      req_tools =
        (if isOllama C then
           (case ollamaTools of
              Some ts \<Rightarrow> if \<not> shouldDisableToolsThisRound then Some ts else None
            | None \<Rightarrow> None)
         else None),
      req_tool_choice =
        (if isOllama C then Some (initialToolChoice shouldDisableToolsThisRound) else None)\<rparr>"

datatype round_outcome = ToolCallRound | FinalRound | Thrown error

text \<open>The text of a non-streaming response joins the response; it is not counted.\<close>

definition add_flat_content :: "callbacks \<Rightarrow> jsstring \<Rightarrow> turn_state \<Rightarrow> turn_state" where
  "add_flat_content cb content st =
     (let st1 = st\<lparr>fullResponse := fullResponse st @ content\<rparr>
      in if has_onToken cb then emit (OnToken content) st1 else st1)"

definition non_stream_fallback ::
  "env \<Rightarrow> server_config \<Rightarrow> callbacks \<Rightarrow> ollama_tool list option \<Rightarrow> bool \<Rightarrow> turn_state
     \<Rightarrow> round_outcome \<times> turn_state" where
  "non_stream_fallback E C cb ollamaTools shouldDisableToolsThisRound st =
     (let st1 = emit (Console NoStreamData) st;
          request = flat_request C ollamaTools shouldDisableToolsThisRound (rollingMessages st1);
          st2 = emit (LLMFetch request) st1
      in case llm_flat E (length (trace st1)) request of
           FlatFetchRejects m \<Rightarrow> (Thrown (Rejected m), st2)
         | FlatResponse ok status body \<Rightarrow>
             if ok then
               (case body of
                  Inl m \<Rightarrow> (Thrown (Rejected m), st2)
                | Inr json \<Rightarrow>
                    let content =
                          (if isOllama C
                           then first_truthy [r_message_content json, r_message_thinking json,
                                              r_response json, r_thinking json,
                                              r_content json, r_text json]
                           else first_truthy [r_choice_message_content json])
                    in (FinalRound, if content \<noteq> [] then add_flat_content cb content st2 else st2))
             else (FinalRound, emit (Console (FallbackNonStreamFailed status)) st2))"

definition nudge :: rolling_message where
  "nudge =
     \<lparr>rm_role = Assistant,
      rm_content = str ''Tool execution complete. Now provide an INTERACTIVE response that includes:''
        @ [10] @ str ''1. A brief summary of what was created (room count, plot size, key features)''
        @ [10] @ str ''2. Vastu compliance highlights (what'' @ [39] @ str ''s good and what could be improved)''
        @ [10] @ str ''3. Ask 1-2 SPECIFIC questions like: '' @ [34] @ str ''Do you prefer open or enclosed kitchen?''
        @ [34] @ str '' or '' @ [34] @ str ''Would you like attached bathrooms?'' @ [34]
        @ [10] @ str ''4. Offer 2-3 specific suggestions: '' @ [34] @ str ''I can move the master bedroom to SW for better Vastu''
        @ [34] @ str '' or '' @ [34] @ str ''Should I add a study room?'' @ [34]
        @ [10, 10] @ str ''Be conversational and engaging. Do NOT call any tools again.'',
      rm_name = None\<rparr>"

text \<open>
  The body of the \<open>while\<close> loop. \<open>ToolCallRound\<close> is the \<open>continue\<close> after a round
  that met a tool call, \<open>FinalRound\<close> the \<open>break\<close>, \<open>Thrown\<close> an exception that
  leaves the loop.
\<close>

definition run_round ::
  "platform \<Rightarrow> env \<Rightarrow> server_config \<Rightarrow> callbacks \<Rightarrow> ollama_tool list option \<Rightarrow> nat \<Rightarrow> turn_state
     \<Rightarrow> round_outcome \<times> turn_state" where
  "run_round P E C cb ollamaTools rounds st =
     (let shouldDisableToolsThisRound = (haveToolResults st \<or> llm_disable_tools E rounds);
          request = stream_request C ollamaTools shouldDisableToolsThisRound (rollingMessages st);
          st0 = emit (LLMFetch request) st
      in case llm_stream E (length (trace st)) request of
           StreamFetchRejects m \<Rightarrow> (Thrown (Rejected m), st0)
         | StreamResponse ok status body \<Rightarrow>
             if \<not> ok then (Thrown (ServerResponded status), st0)
             else
               (case body of
                  None \<Rightarrow> (Thrown NoResponseBody, st0)
                | Some (chunks, ending) \<Rightarrow>
                    let st1 = st0\<lparr>encounteredToolCall := False, streamedCharsThisRound := 0\<rparr>;
                        (st2, streamBuffer) =
                          read_chunks TextDecoder_decode (handle_line P E (isOllama C) cb) (st1, []) chunks
                    in case ending of
                         ReadRejects m \<Rightarrow> (Thrown (Rejected m), st2)
                       | StreamDone \<Rightarrow>
                           let st3 = handle_residual P (isOllama C) cb st2 streamBuffer
                           in if encounteredToolCall st3
                              then (ToolCallRound, st3\<lparr>rollingMessages := rollingMessages st3 @ [nudge]\<rparr>)
                              else if streamedCharsThisRound st3 = 0
                              then non_stream_fallback E C cb ollamaTools shouldDisableToolsThisRound st3
                              else (FinalRound, st3)))"

section \<open>The turn: \<open>generateResponse\<close>\<close>

definition maxRounds :: nat where
  "maxRounds = 3"

text \<open>\<open>while (rounds < maxRounds)\<close>; the result carries the exception, if any, the final
  value of \<open>rounds\<close> and the state.\<close>

function round_loop ::
  "platform \<Rightarrow> env \<Rightarrow> server_config \<Rightarrow> callbacks \<Rightarrow> ollama_tool list option \<Rightarrow> nat \<Rightarrow> turn_state
     \<Rightarrow> error option \<times> nat \<times> turn_state" where
  "round_loop P E C cb ollamaTools rounds st =
     (if rounds < maxRounds then
        (case run_round P E C cb ollamaTools rounds st of
           (ToolCallRound, st') \<Rightarrow> round_loop P E C cb ollamaTools (rounds + 1) st'
         | (FinalRound, st') \<Rightarrow> (None, rounds, st')
         | (Thrown e, st') \<Rightarrow> (Some e, rounds, st'))
      else (None, rounds, st))"
  by pat_completeness auto
termination
  by (relation "measure (\<lambda>(P, E, C, cb, ollamaTools, rounds, st). maxRounds - rounds)") auto

text \<open>The summary that stands in for a response when no text was produced.\<close>

definition display :: "platform \<Rightarrow> json \<Rightarrow> jsstring" where
  "display P v = (case v of JStr s \<Rightarrow> s | _ \<Rightarrow> ToString P v)"

definition synthesize_summary :: "platform \<Rightarrow> json \<Rightarrow> jsstring" where
  "synthesize_summary P lastResult =
     (let rooms = (case jfield (str ''rooms'') lastResult of
                     Some (JArr xs) \<Rightarrow> Some (length xs) | _ \<Rightarrow> None);
          score = (case jfield (str ''score'') lastResult of
                     Some (JNum n) \<Rightarrow> Some \<lfloor>n + 1 / 2\<rfloor> | _ \<Rightarrow> None);
          solver = (case jfield (str ''solver'') lastResult of
                      Some v \<Rightarrow> if truthy v then v else JStr (str ''graph'')
                    | None \<Rightarrow> JStr (str ''graph''))
      in str ''Generated layout using '' @ display P solver @ str '' solver''
         @ (case score of
              Some sc \<Rightarrow> if sc \<noteq> 0 then str '' (score '' @ show_int sc @ str '')'' else []
            | None \<Rightarrow> [])
         @ str ''. Visualized rooms''
         @ (case rooms of
              Some n \<Rightarrow> if n \<noteq> 0 then str '' ('' @ show_nat n @ str '')'' else []
            | None \<Rightarrow> [])
         @ str '' have been updated. Summary: 1) Plot parsed and constraints applied; 2) Vastu potential mapping considered; 3) Rule-guided placement optimized; 4) Final vector output rendered.'')"

definition post_loop :: "platform \<Rightarrow> turn_state \<Rightarrow> turn_state" where
  "post_loop P st =
     (if fullResponse st = [] \<and> haveToolResults st \<and> truthy (lastToolResult st)
         \<and> typeof_object (lastToolResult st)
      then st\<lparr>fullResponse := synthesize_summary P (lastToolResult st)\<rparr>
      else st)"

definition initial_state :: "message list \<Rightarrow> turn_state" where
  "initial_state messages =
     \<lparr>fullResponse = [],
      rollingMessages = map (\<lambda>m. \<lparr>rm_role = msg_role m, rm_content = msg_content m, rm_name = None\<rparr>) messages,
      haveToolResults = False,
      lastToolResult = JNull,
      encounteredToolCall = False,
      streamedCharsThisRound = 0,
      trace = [SetIsLoading True, SetError None]\<rparr>"

text \<open>
  \<open>generateResponse\<close>: \<open>Inr\<close> the text it returns, \<open>Inl\<close> the exception it throws to
  its caller, and the final state with the trace of its effects.
\<close>

definition generateResponse ::
  "platform \<Rightarrow> env \<Rightarrow> server_config \<Rightarrow> callbacks \<Rightarrow> message list \<Rightarrow> tool_definition list option
     \<Rightarrow> (error + jsstring) \<times> turn_state" where
  "generateResponse P E C cb messages tools =
     (let ollamaTools = map_option (map to_ollama_tool) tools
      in case round_loop P E C cb ollamaTools 0 (initial_state messages) of
           (Some err, rounds, st) \<Rightarrow>
             (Inl err, emit (SetIsLoading False) (emit (SetError (Some (error_message err))) st))
         | (None, rounds, st) \<Rightarrow>
             let st' = post_loop P st
             in (Inr (cleanThinkingContent (fullResponse st')), emit (SetIsLoading False) st'))"

section \<open>JavaScript numbers\<close>

text \<open>
  A number is a double: a finite one, given as the rational it denotes, an infinity or
  NaN (negative zero is not told apart from zero). \<open>round_double\<close> is the rounding
  of IEEE 754 binary64, to the nearest double with ties to the even significand: 53
  significant bits, the least exponent that of the subnormals, and an infinity from
  \<open>2^1024\<close> on. It is the value of \<open>Number\<close> on a decimal literal and the last
  step of every arithmetic operation.
\<close>

datatype number = Finite rat | PosInf | NegInf | NaN

fun bit_length :: "nat \<Rightarrow> nat" where
  "bit_length n = (if n = 0 then 0 else bit_length (n div 2) + 1)"

definition pow2 :: "int \<Rightarrow> rat" where
  "pow2 e = (if 0 \<le> e then 2 ^ nat e else 1 / 2 ^ nat (- e))"

text \<open>The exponent \<open>e\<close> with \<open>2^e \<le> a < 2^(e + 1)\<close>, for a positive \<open>a\<close>.\<close>

definition binary_exponent :: "rat \<Rightarrow> int" where
  "binary_exponent a =
     (let (p, q) = quotient_of a;
          e = int (bit_length (nat p)) - int (bit_length (nat q))
      in if pow2 e \<le> a then e else e - 1)"

definition round_half_even :: "rat \<Rightarrow> int" where
  "round_half_even x =
     (let f = \<lfloor>x\<rfloor>; r = x - of_int f
      in if r < 1 / 2 then f else if 1 / 2 < r then f + 1 else if even f then f else f + 1)"

definition round_double :: "rat \<Rightarrow> number" where
  "round_double q =
     (if q = 0 then Finite 0
      else
        let a = \<bar>q\<bar>;
            e = max (binary_exponent a - 52) (- 1074);
            v = of_int (round_half_even (a / pow2 e)) * pow2 e
        in if pow2 1024 \<le> v then (if 0 < q then PosInf else NegInf)
           else Finite (if 0 < q then v else - v))"

text \<open>The operators \<open>*\<close> and \<open>/\<close>.\<close>

fun fmul :: "number \<Rightarrow> number \<Rightarrow> number" where
  "fmul NaN y = NaN"
| "fmul x NaN = NaN"
| "fmul (Finite a) (Finite b) = round_double (a * b)"
| "fmul (Finite a) y = (if a = 0 then NaN else if (0 < a) = (y = PosInf) then PosInf else NegInf)"
| "fmul x (Finite b) = (if b = 0 then NaN else if (0 < b) = (x = PosInf) then PosInf else NegInf)"
| "fmul x y = (if x = y then PosInf else NegInf)"

fun fdiv :: "number \<Rightarrow> number \<Rightarrow> number" where
  "fdiv NaN y = NaN"
| "fdiv x NaN = NaN"
| "fdiv (Finite a) (Finite b) =
     (if b = 0 then (if a = 0 then NaN else if 0 < a then PosInf else NegInf)
      else round_double (a / b))"
| "fdiv (Finite a) y = Finite 0"
| "fdiv x (Finite b) = (if (0 \<le> b) = (x = PosInf) then PosInf else NegInf)"
| "fdiv x y = NaN"

text \<open>\<open>Math.round\<close> (halves go up) and \<open>Math.max\<close>; both are exact.\<close>

fun Math_round :: "number \<Rightarrow> number" where
  "Math_round (Finite a) = Finite (of_int \<lfloor>a + 1 / 2\<rfloor>)"
| "Math_round x = x"

fun Math_max :: "number \<Rightarrow> number \<Rightarrow> number" where
  "Math_max NaN y = NaN"
| "Math_max x NaN = NaN"
| "Math_max PosInf y = PosInf"
| "Math_max x PosInf = PosInf"
| "Math_max NegInf y = y"
| "Math_max x NegInf = x"
| "Math_max (Finite a) (Finite b) = Finite (max a b)"

text \<open>A number in a request body: \<open>JSON.stringify\<close> writes \<open>null\<close>, here
  \<open>None\<close>, for an infinity and for NaN.\<close>

fun json_number :: "number \<Rightarrow> rat option" where
  "json_number (Finite a) = Some a"
| "json_number x = None"

section \<open>The fallback timer of \<open>handleSend\<close>\<close>

text \<open>
  The callback of the watchdog timer, which is set only when \<open>watchdog-enabled\<close> is
  \<open>'true'\<close>. The results of its regular expressions on the user's text are taken as
  given: the digit before \<open>bhk\<close>, the decimal literal before \<open>sq ft\<close>, the
  decimal literal before \<open>ft width\<close>, and the two \<open>facing\<close> tests. The plot
  width and length of the component's state are finite doubles.
\<close>

record watchdog_match =
  wm_bhk :: "nat option"
  wm_area :: "rat option"
  wm_width :: "rat option"
  wm_west_facing :: bool
  wm_east_facing :: bool

record watchdog_payload =
  wp_rooms :: "room list"
  wp_plotWidth :: "rat option"
  wp_plotLength :: "rat option"
  wp_solver_type :: jsstring
  wp_house_facing :: "jsstring option"

datatype watchdog_event =
    WatchdogFetch watchdog_payload
  | WatchdogRetryWarning
  | SetRooms "json list"
  | Toast jsstring
  | WatchdogFailed
  | WatchdogException

definition watchdog_rooms :: "nat \<Rightarrow> room list" where
  "watchdog_rooms bhk =
     [\<lparr>room_id = str ''living'', room_name = str ''Living Room'', room_type = str ''living'',
       room_width = 10, room_height = 10\<rparr>,
      \<lparr>room_id = str ''kitchen'', room_name = str ''Kitchen'', room_type = str ''kitchen'',
       room_width = 8, room_height = 8\<rparr>]
     @ map (\<lambda>i. \<lparr>room_id = str ''bed_'' @ show_nat i, room_name = str ''Bedroom '' @ show_nat i,
                  room_type = (if i = 1 then str ''master_bedroom'' else str ''bedroom''),
                  room_width = 12, room_height = 10\<rparr>) [1 ..< bhk + 1]
     @ map (\<lambda>i. \<lparr>room_id = str ''bath_'' @ show_nat i, room_name = str ''Bathroom '' @ show_nat i,
                  room_type = str ''bathroom'', room_width = 6, room_height = 6\<rparr>)
         [1 ..< max 1 (nat \<lfloor>(of_nat bhk :: rat) / 2 + 1 / 2\<rfloor>) + 1]"

definition watchdog_request :: "watchdog_match \<Rightarrow> rat \<Rightarrow> rat \<Rightarrow> watchdog_payload" where
  "watchdog_request m plotWidth plotLength =
     (let bhk = (case wm_bhk m of Some n \<Rightarrow> n | None \<Rightarrow> 2);
          area = (case wm_area m of
                    Some a \<Rightarrow> round_double a
                  | None \<Rightarrow> fmul (Finite plotWidth) (Finite plotLength));
          width = (case wm_width m of Some w \<Rightarrow> round_double w | None \<Rightarrow> Finite plotWidth);
          length = Math_max (Finite 10)
                     (fdiv (Math_round (fmul (fdiv area width) (Finite 100))) (Finite 100));
          facingMatch = (if wm_west_facing m then Some (str ''west'')
                         else if wm_east_facing m then Some (str ''east'') else None)
      in \<lparr>wp_rooms = watchdog_rooms bhk, wp_plotWidth = json_number width,
          wp_plotLength = json_number length,
          wp_solver_type = str ''graph'', wp_house_facing = facingMatch\<rparr>)"

text \<open>What follows the last response: the body is read whatever the status.\<close>

definition watchdog_finish :: "bool \<Rightarrow> jsstring + json \<Rightarrow> watchdog_event list" where
  "watchdog_finish ok body =
     (case body of
        Inl m \<Rightarrow> [WatchdogException]
      | Inr genJson \<Rightarrow>
          if genJson = JNull then [WatchdogException]
          else
            (case jfield (str ''rooms'') genJson of
               Some (JArr rs) \<Rightarrow>
                 if ok then
                   (if JNull \<in> set rs then [WatchdogException]
                    else [SetRooms rs, Toast (str ''Fallback floor plan generated'')])
                 else [WatchdogFailed, Toast (str ''Generation failed'')]
             | Some v \<Rightarrow>
                 if ok \<and> truthy v then [WatchdogException]
                 else [WatchdogFailed, Toast (str ''Generation failed'')]
             | None \<Rightarrow> [WatchdogFailed, Toast (str ''Generation failed'')]))"

definition watchdog_fire ::
  "(nat \<Rightarrow> watchdog_payload \<Rightarrow> backend_response) \<Rightarrow> bool \<Rightarrow> bool \<Rightarrow> watchdog_match \<Rightarrow> rat \<Rightarrow> rat
     \<Rightarrow> watchdog_event list" where
  "watchdog_fire fetch toolCallHandled toolCallDetected m plotWidth plotLength =
     (if toolCallHandled \<or> toolCallDetected then []
      else
        let payload = watchdog_request m plotWidth plotLength
        in WatchdogFetch payload #
           (case fetch 0 payload of
              BackendFetchRejects msg \<Rightarrow> [WatchdogException]
            | BackendResponse ok status body \<Rightarrow>
                if ok then watchdog_finish ok body
                else
                  let payload2 = payload\<lparr>wp_solver_type := str ''constraint''\<rparr>
                  in WatchdogRetryWarning # WatchdogFetch payload2 #
                     (case fetch 1 payload2 of
                        BackendFetchRejects msg \<Rightarrow> [WatchdogException]
                      | BackendResponse ok2 status2 body2 \<Rightarrow> watchdog_finish ok2 body2)))"

section \<open>Observing a turn\<close>

text \<open>The requests, callbacks and console messages recorded in a trace, in order.\<close>

fun llm_fetches :: "event list \<Rightarrow> chat_request list" where
  "llm_fetches [] = []"
| "llm_fetches (LLMFetch r # es) = r # llm_fetches es"
| "llm_fetches (e # es) = llm_fetches es"

fun backend_fetches :: "event list \<Rightarrow> gen_payload list" where
  "backend_fetches [] = []"
| "backend_fetches (BackendFetch p # es) = p # backend_fetches es"
| "backend_fetches (e # es) = backend_fetches es"

fun tool_callbacks :: "event list \<Rightarrow> (tool_call \<times> json) list" where
  "tool_callbacks [] = []"
| "tool_callbacks (OnToolCall tc r # es) = (tc, r) # tool_callbacks es"
| "tool_callbacks (e # es) = tool_callbacks es"

definition stream_fetches :: "event list \<Rightarrow> chat_request list" where
  "stream_fetches evs = filter req_stream (llm_fetches evs)"

definition flat_fetches :: "event list \<Rightarrow> chat_request list" where
  "flat_fetches evs = filter (\<lambda>r. \<not> req_stream r) (llm_fetches evs)"

fun console_events :: "event list \<Rightarrow> console_tag list" where
  "console_events [] = []"
| "console_events (Console c # es) = c # console_events es"
| "console_events (e # es) = console_events es"

text \<open>
  The rounds of a turn: the value of \<open>rounds\<close> and the state at each entry into the
  body of the loop, in order.
\<close>

function round_starts ::
  "platform \<Rightarrow> env \<Rightarrow> server_config \<Rightarrow> callbacks \<Rightarrow> ollama_tool list option \<Rightarrow> nat \<Rightarrow> turn_state
     \<Rightarrow> (nat \<times> turn_state) list" where
  "round_starts P E C cb ollamaTools rounds st =
     (if rounds < maxRounds then
        (rounds, st) #
        (case run_round P E C cb ollamaTools rounds st of
           (ToolCallRound, st') \<Rightarrow> round_starts P E C cb ollamaTools (rounds + 1) st'
         | (FinalRound, st') \<Rightarrow> []
         | (Thrown e, st') \<Rightarrow> [])
      else [])"
  by pat_completeness auto
termination
  by (relation "measure (\<lambda>(P, E, C, cb, ollamaTools, rounds, st). maxRounds - rounds)") auto

text \<open>
  The state of a round when its stream has ended: after the read loop over the chunks and
  the residual buffer.
\<close>

definition after_stream ::
  "platform \<Rightarrow> env \<Rightarrow> bool \<Rightarrow> callbacks \<Rightarrow> turn_state \<Rightarrow> byte list list \<Rightarrow> turn_state" where
  "after_stream P E isO cb st chunks =
     (case read_chunks TextDecoder_decode (handle_line P E isO cb)
             (st\<lparr>encounteredToolCall := False, streamedCharsThisRound := 0\<rparr>, []) chunks of
        (st2, streamBuffer) \<Rightarrow> handle_residual P isO cb st2 streamBuffer)"

text \<open>The backend requests of the fallback timer, in order.\<close>

fun watchdog_fetches :: "watchdog_event list \<Rightarrow> watchdog_payload list" where
  "watchdog_fetches [] = []"
| "watchdog_fetches (WatchdogFetch p # es) = p # watchdog_fetches es"
| "watchdog_fetches (e # es) = watchdog_fetches es"

text \<open>
  Two states agree on everything a tool call would change: the rolling messages, the
  tool-result variables, the backend requests and the \<open>onToolCall\<close> callbacks.
\<close>

definition tool_effects_same :: "turn_state \<Rightarrow> turn_state \<Rightarrow> bool" where
  "tool_effects_same s s' =
     (rollingMessages s' = rollingMessages s \<and> haveToolResults s' = haveToolResults s
      \<and> lastToolResult s' = lastToolResult s
      \<and> backend_fetches (trace s') = backend_fetches (trace s)
      \<and> tool_callbacks (trace s') = tool_callbacks (trace s))"

text \<open>
  A request was issued after a tool result of this turn when its messages hold a
  tool-role message beyond the \<open>n\<close> messages the caller passed in: the rolling list
  only grows, and tool results are the only tool-role messages the turn appends.
\<close>

definition after_tool_result :: "nat \<Rightarrow> chat_request \<Rightarrow> bool" where
  "after_tool_result n r = list_ex (\<lambda>m. rm_role m = Tool) (drop n (req_messages r))"

definition tools_suppressed :: "chat_request \<Rightarrow> bool" where
  "tools_suppressed r = (req_tools r = None \<and> req_tool_choice r = Some (str ''none''))"

text \<open>What holds between the steps of a turn.\<close>

definition inv_state :: "nat \<Rightarrow> bool \<Rightarrow> turn_state \<Rightarrow> bool" where
  "inv_state n isO st =
     ((list_ex (\<lambda>m. rm_role m = Tool) (drop n (rollingMessages st)) \<longrightarrow> haveToolResults st)
      \<and> (haveToolResults st \<longrightarrow> isO))"

definition inv_trace :: "nat \<Rightarrow> turn_state \<Rightarrow> bool" where
  "inv_trace n st =
     (\<forall>r \<in> set (llm_fetches (trace st)). after_tool_result n r \<longrightarrow> tools_suppressed r)"

section \<open>Sample inputs\<close>

text \<open>
  Concrete records, lines, platform functions and servers on which the results below are
  instantiated. \<open>demo_parse_record\<close> is \<open>JSON.parse\<close> on the sample lines.
\<close>

definition empty_record :: llm_record where
  "empty_record =
     \<lparr>r_message_content = None, r_message_thinking = None, r_response = None, r_thinking = None,
      r_content = None, r_text = None, r_message_tool_calls = None, r_tool_calls = None,
      r_done = False, r_delta_content = None, r_choice_message_content = None\<rparr>"

definition layout_call :: "raw_arguments \<Rightarrow> tool_call" where
  "layout_call a =
     \<lparr>tc_function = Some \<lparr>fn_name = str ''generate_layout_hybrid'', fn_arguments = Some a\<rparr>,
      tc_name = None, tc_arguments = None\<rparr>"

definition line_tool :: jsstring where
  \<open>line_tool = str ''{"message":{"tool_calls":[{"function":{"name":"generate_layout_hybrid","arguments":{"rooms_needed":["kitchen"]}}}]}}''\<close>

definition line_bad_args :: jsstring where
  \<open>line_bad_args = str ''{"message":{"tool_calls":[{"function":{"name":"generate_layout_hybrid","arguments":"{rooms"}}]}}''\<close>

definition kitchen_args :: tool_args where
  "kitchen_args = empty_args\<lparr>rooms_needed := Some [str ''kitchen'']\<rparr>"

definition demo_parse_record :: "jsstring \<Rightarrow> llm_record option" where
  "demo_parse_record s =
     (if s = line_tool then
        Some (empty_record\<lparr>r_message_tool_calls := Some [layout_call (ArgObject kitchen_args)]\<rparr>)
      else if s = line_bad_args then
        Some (empty_record\<lparr>r_message_tool_calls := Some [layout_call (ArgString (str ''{rooms''))]\<rparr>)
      else None)"

text \<open>
  \<open>JSON.stringify\<close> and string conversion for values whose numbers are integers and
  whose strings need no escape, as in the samples; \<open>toLowerCase\<close> for ASCII.
\<close>

fun join_comma :: "jsstring list \<Rightarrow> jsstring" where
  "join_comma [] = []"
| "join_comma [x] = x"
| "join_comma (x # y # ys) = x @ [44] @ join_comma (y # ys)"

fun demo_stringify :: "json \<Rightarrow> jsstring" where
  "demo_stringify JNull = str ''null''"
| "demo_stringify (JBool b) = (if b then str ''true'' else str ''false'')"
| "demo_stringify (JNum n) = show_int \<lfloor>n\<rfloor>"
| "demo_stringify (JStr s) = [34] @ s @ [34]"
| "demo_stringify (JArr xs) = [91] @ join_comma (map demo_stringify xs) @ [93]"
| "demo_stringify (JObj kvs) =
     [123] @ join_comma (map (\<lambda>kv. [34] @ fst kv @ [34, 58] @ demo_stringify (snd kv)) kvs) @ [125]"

fun demo_to_string :: "json \<Rightarrow> jsstring" where
  "demo_to_string JNull = str ''null''"
| "demo_to_string (JBool b) = (if b then str ''true'' else str ''false'')"
| "demo_to_string (JNum n) = show_int \<lfloor>n\<rfloor>"
| "demo_to_string (JStr s) = s"
| "demo_to_string (JArr xs) = join_comma (map (\<lambda>x. if x = JNull then [] else demo_to_string x) xs)"
| "demo_to_string (JObj kvs) = str ''[object Object]''"

definition demo_platform :: platform where
  "demo_platform =
     \<lparr>JSON_parse_record = demo_parse_record,
      JSON_parse_args = (\<lambda>s. if s = str ''{}'' then Some empty_args else None),
      JSON_stringify = demo_stringify,
      toLowerCase = map (\<lambda>c. if 65 \<le> c \<and> c \<le> 90 then c + 32 else c),
      ToString = demo_to_string,
      null_read_message = str ''Cannot read properties of null (reading solver_type)''\<rparr>"

definition demo_config :: server_config where
  "demo_config = \<lparr>cfg_endpoint = str ''http://localhost:11434'', cfg_model = str ''qwen3'',
                   cfg_type = str ''ollama''\<rparr>"

definition demo_callbacks :: callbacks where
  "demo_callbacks = \<lparr>has_onToken = True, has_onToolCall = True\<rparr>"

definition demo_messages :: "message list" where
  "demo_messages = [\<lparr>msg_role = User, msg_content = str ''Design a 2BHK'', msg_timestamp = 0\<rparr>]"

definition demo_tools :: "tool_definition list option" where
  "demo_tools = Some [\<lparr>td_name = str ''generate_layout_hybrid'', td_description = None,
                        td_parameters = None\<rparr>]"

text \<open>A response of the generation endpoint for a layout the constraint solver made.\<close>

definition success_body :: json where
  "success_body = JObj [(str ''status'', JStr (str ''success'')),
                        (str ''rooms'', JArr [JObj [(str ''id'', JStr (str ''kitchen_1''))]]),
                        (str ''solver_type'', JStr (str ''constraint'')),
                        (str ''score'', JNum 87)]"

definition env_500 :: env where
  "env_500 =
     \<lparr>llm_stream = (\<lambda>n req. StreamResponse False 500 None),
      llm_flat = (\<lambda>n req. FlatResponse True 200 (Inr empty_record)),
      backend = (\<lambda>n p. BackendResponse True 200 (Inr success_body)),
      llm_disable_tools = (\<lambda>n. False)\<rparr>"

text \<open>A model that calls the tool when tools are offered; the server answers every other
  streaming request with 503.\<close>

definition env_late_503 :: env where
  "env_late_503 =
     \<lparr>llm_stream = (\<lambda>n req. if req_tools req \<noteq> None
                            then StreamResponse True 200 (Some ([line_tool @ [10]], StreamDone))
                            else StreamResponse False 503 None),
      llm_flat = (\<lambda>n req. FlatResponse True 200 (Inr empty_record)),
      backend = (\<lambda>n p. BackendResponse True 200 (Inr success_body)),
      llm_disable_tools = (\<lambda>n. False)\<rparr>"


definition demo_match :: watchdog_match where
  "demo_match = \<lparr>wm_bhk = Some 2, wm_area = None, wm_width = None,
                  wm_west_facing = False, wm_east_facing = True\<rparr>"

definition bad_call :: tool_call where
  "bad_call = layout_call (ArgString (str ''{rooms''))"

text \<open>A model that calls the tool when tools are offered and is silent otherwise; a
  backend that answers every request with a layout.\<close>

definition demo_env :: env where
  "demo_env =
     \<lparr>llm_stream = (\<lambda>n req. if req_tools req \<noteq> None
                            then StreamResponse True 200 (Some ([line_tool @ [10]], StreamDone))
                            else StreamResponse True 200 (Some ([], StreamDone))),
      llm_flat = (\<lambda>n req. FlatResponse True 200 (Inr empty_record)),
      backend = (\<lambda>n p. BackendResponse True 200 (Inr success_body)),
      llm_disable_tools = (\<lambda>n. False)\<rparr>"

text \<open>A model whose stream is a single tool-call record without a line end.\<close>

definition env_residual :: env where
  "env_residual =
     \<lparr>llm_stream = (\<lambda>n req. StreamResponse True 200 (Some ([line_tool], StreamDone))),
      llm_flat = (\<lambda>n req. FlatResponse True 200 (Inr empty_record)),
      backend = (\<lambda>n p. BackendResponse True 200 (Inr success_body)),
      llm_disable_tools = (\<lambda>n. False)\<rparr>"

text \<open>A model whose stream is one line, a tool call whose argument string is \<open>{rooms\<close>;
  and one whose stream is that record without a line end.\<close>

definition env_bad_args :: env where
  "env_bad_args =
     \<lparr>llm_stream = (\<lambda>n req. StreamResponse True 200 (Some ([line_bad_args @ [10]], StreamDone))),
      llm_flat = (\<lambda>n req. FlatResponse True 200 (Inr empty_record)),
      backend = (\<lambda>n p. BackendResponse True 200 (Inr success_body)),
      llm_disable_tools = (\<lambda>n. False)\<rparr>"

definition env_residual_bad_args :: env where
  "env_residual_bad_args =
     \<lparr>llm_stream = (\<lambda>n req. StreamResponse True 200 (Some ([line_bad_args], StreamDone))),
      llm_flat = (\<lambda>n req. FlatResponse True 200 (Inr empty_record)),
      backend = (\<lambda>n p. BackendResponse True 200 (Inr success_body)),
      llm_disable_tools = (\<lambda>n. False)\<rparr>"

text \<open>The test of the caller's \<open>onToolCall\<close> callback for a successful generation:
  \<open>result.status === 'success' || result.success === true\<close>.\<close>

definition tool_call_succeeded :: "json \<Rightarrow> bool" where
  "tool_call_succeeded result =
     (jfield (str ''status'') result = Some (JStr (str ''success''))
      \<or> jfield (str ''success'') result = Some (JBool True))"

text \<open>The summary of the sample turn.\<close>

definition demo_summary_text :: jsstring where
  "demo_summary_text = str ''Generated layout using graph solver (score 87). Visualized rooms (1) have been updated. Summary: 1) Plot parsed and constraints applied; 2) Vastu potential mapping considered; 3) Rule-guided placement optimized; 4) Final vector output rendered.''"

text \<open>The tool message the sample turns append for a result.\<close>

definition demo_tool_message :: "json \<Rightarrow> rolling_message" where
  "demo_tool_message body =
     \<lparr>rm_role = Tool, rm_content = JSON_stringify demo_platform body,
      rm_name = Some (str ''generate_layout_hybrid'')\<rparr>"

section \<open>Properties of the sanitizer\<close>

lemma trim_empty_iff: "trim s = [] \<longleftrightarrow> (\<forall>c \<in> set s. is_white_space c)"
proof -
  let ?d = "dropWhile is_white_space"
  have "trim s = [] \<longleftrightarrow> (\<forall>c \<in> set (?d s). is_white_space c)"
    by (simp add: trim_def dropWhile_eq_Nil_conv)
  also have "\<dots> \<longleftrightarrow> ?d s = []"
  proof
    assume a: "\<forall>c \<in> set (?d s). is_white_space c"
    show "?d s = []"
    proof (rule ccontr)
      assume ne: "?d s \<noteq> []"
      then have "\<not> is_white_space (hd (?d s))" by (rule hd_dropWhile)
      moreover have "hd (?d s) \<in> set (?d s)" using ne by (rule hd_in_set)
      ultimately show False using a by blast
    qed
  next
    assume "?d s = []"
    then show "\<forall>c \<in> set (?d s). is_white_space c" by (simp only: set_simps) simp
  qed
  also have "\<dots> \<longleftrightarrow> (\<forall>c \<in> set s. is_white_space c)"
    by (simp add: dropWhile_eq_Nil_conv)
  finally show ?thesis .
qed

lemma trim_not_blank: "trim s \<noteq> [] \<Longrightarrow> trim (trim s) \<noteq> []"
proof -
  let ?d = "dropWhile is_white_space"
  assume ne: "trim s \<noteq> []"
  then have d: "?d (rev (?d s)) \<noteq> []" by (simp add: trim_def)
  then have "\<not> is_white_space (hd (?d (rev (?d s))))" by (rule hd_dropWhile)
  moreover have "hd (?d (rev (?d s))) \<in> set (trim s)"
    using d by (simp add: trim_def)
  ultimately show ?thesis using trim_empty_iff by blast
qed

lemma fallback_not_blank: "trim fallback_sentence \<noteq> []"
proof -
  have "73 \<in> set fallback_sentence" by (simp add: fallback_sentence_def str_def)
  moreover have "\<not> is_white_space 73" by (simp add: is_white_space_def is_line_terminator_def)
  ultimately show ?thesis using trim_empty_iff by blast
qed

lemma details_not_blank: "trim (details_block t @ m) \<noteq> []"
proof -
  have "60 \<in> set (details_block t @ m)" by (simp add: details_block_def str_def)
  moreover have "\<not> is_white_space 60" by (simp add: is_white_space_def is_line_terminator_def)
  ultimately show ?thesis using trim_empty_iff by blast
qed

lemma cleanThinkingContent_not_blank:
  assumes "text \<noteq> []"
  shows "\<not> blank (cleanThinkingContent text)"
proof -
  obtain t m where tm: "think_split text = (t, m)" by (cases "think_split text")
  define r where "r = (if t \<noteq> [] then details_block t else []) @ (if m \<noteq> [] then m else [])"
  define r' where "r' = (if trim r = [] then fallback_sentence else r)"
  have res: "cleanThinkingContent text = trim r'"
    using assms tm by (simp add: cleanThinkingContent_def r_def r'_def Let_def)
  have "trim r' \<noteq> []"
    by (simp add: r'_def fallback_not_blank)
  then show ?thesis by (simp add: blank_def res trim_not_blank)
qed

lemma cleanThinkingContent_fallback:
  assumes "text \<noteq> []" and "think_split text = ([], [])"
  shows "cleanThinkingContent text = fallback_sentence"
proof -
  have "trim fallback_sentence = fallback_sentence"
    by (simp add: trim_def fallback_sentence_def str_def is_white_space_def is_line_terminator_def)
  then show ?thesis
    using assms by (simp add: cleanThinkingContent_def trim_def)
qed

section \<open>Effects of the steps of a round\<close>

lemma llm_fetches_append: "llm_fetches (xs @ ys) = llm_fetches xs @ llm_fetches ys"
  by (induction xs rule: llm_fetches.induct) auto

lemma backend_fetches_append: "backend_fetches (xs @ ys) = backend_fetches xs @ backend_fetches ys"
  by (induction xs rule: backend_fetches.induct) auto

lemma tool_callbacks_append: "tool_callbacks (xs @ ys) = tool_callbacks xs @ tool_callbacks ys"
  by (induction xs rule: tool_callbacks.induct) auto

lemma emit_simps [simp]:
  "trace (emit e st) = trace st @ [e]"
  "fullResponse (emit e st) = fullResponse st"
  "rollingMessages (emit e st) = rollingMessages st"
  "haveToolResults (emit e st) = haveToolResults st"
  "lastToolResult (emit e st) = lastToolResult st"
  "encounteredToolCall (emit e st) = encounteredToolCall st"
  "streamedCharsThisRound (emit e st) = streamedCharsThisRound st"
  by (simp_all add: emit_def)

lemma run_generate_frame [simp]:
  "fullResponse (snd (run_generate P E args st)) = fullResponse st"
  "rollingMessages (snd (run_generate P E args st)) = rollingMessages st"
  "haveToolResults (snd (run_generate P E args st)) = haveToolResults st"
  "lastToolResult (snd (run_generate P E args st)) = lastToolResult st"
  "encounteredToolCall (snd (run_generate P E args st)) = encounteredToolCall st"
  "streamedCharsThisRound (snd (run_generate P E args st)) = streamedCharsThisRound st"
  "llm_fetches (trace (snd (run_generate P E args st))) = llm_fetches (trace st)"
  by (auto simp: run_generate_def take_body_def tool_error_def Let_def llm_fetches_append
      split: backend_response.splits if_splits sum.splits)

lemma execute_tool_call_frame [simp]:
  "fullResponse (execute_tool_call P E cb st tc) = fullResponse st"
  "encounteredToolCall (execute_tool_call P E cb st tc) = encounteredToolCall st"
  "streamedCharsThisRound (execute_tool_call P E cb st tc) = streamedCharsThisRound st"
  "llm_fetches (trace (execute_tool_call P E cb st tc)) = llm_fetches (trace st)"
  by (auto simp: execute_tool_call_def Let_def llm_fetches_append case_prod_unfold
      split: option.splits)

lemma foldl_execute_frame [simp]:
  "fullResponse (foldl (execute_tool_call P E cb) st tcs) = fullResponse st"
  "encounteredToolCall (foldl (execute_tool_call P E cb) st tcs) = encounteredToolCall st"
  "streamedCharsThisRound (foldl (execute_tool_call P E cb) st tcs) = streamedCharsThisRound st"
  "llm_fetches (trace (foldl (execute_tool_call P E cb) st tcs)) = llm_fetches (trace st)"
  by (induction tcs arbitrary: st) auto

lemma add_content_frame [simp]:
  "rollingMessages (add_content cb c st) = rollingMessages st"
  "haveToolResults (add_content cb c st) = haveToolResults st"
  "lastToolResult (add_content cb c st) = lastToolResult st"
  "encounteredToolCall (add_content cb c st) = encounteredToolCall st"
  "llm_fetches (trace (add_content cb c st)) = llm_fetches (trace st)"
  "fullResponse (add_content cb c st) = fullResponse st @ c"
  "streamedCharsThisRound (add_content cb c st) = streamedCharsThisRound st + length c"
  by (auto simp: add_content_def Let_def llm_fetches_append)

lemma handle_line_fetches [simp]:
  "llm_fetches (trace (handle_line P E isO cb st line)) = llm_fetches (trace st)"
  by (auto simp: handle_line_def handle_ollama_line_def handle_openai_line_def Let_def
      llm_fetches_append split: option.splits)

lemma foldl_handle_line_fetches [simp]:
  "llm_fetches (trace (foldl (handle_line P E isO cb) st ls)) = llm_fetches (trace st)"
  by (induction ls arbitrary: st) auto

lemma read_chunks_fetches [simp]:
  "llm_fetches (trace (fst (read_chunks dec (handle_line P E isO cb) (st, buf) chunks)))
     = llm_fetches (trace st)"
  by (induction chunks arbitrary: st buf) (auto simp: Let_def)

lemma handle_residual_fetches [simp]:
  "llm_fetches (trace (handle_residual P isO cb st buf)) = llm_fetches (trace st)"
  by (auto simp: handle_residual_def Let_def split: option.splits)


lemma non_stream_fallback_fetches [simp]:
  "llm_fetches (trace (snd (non_stream_fallback E C cb ots sd st)))
     = llm_fetches (trace st) @ [flat_request C ots sd (rollingMessages st)]"
  by (auto simp: non_stream_fallback_def Let_def llm_fetches_append add_flat_content_def
      split: flat_response.splits sum.splits)

lemma after_stream_fetches [simp]:
  "llm_fetches (trace (after_stream P E isO cb st chunks)) = llm_fetches (trace st)"
proof -
  obtain st2 buf where r: "read_chunks TextDecoder_decode (handle_line P E isO cb)
      (st\<lparr>encounteredToolCall := False, streamedCharsThisRound := 0\<rparr>, []) chunks = (st2, buf)"
    by (cases "read_chunks TextDecoder_decode (handle_line P E isO cb)
      (st\<lparr>encounteredToolCall := False, streamedCharsThisRound := 0\<rparr>, []) chunks")
  have "llm_fetches (trace st2) = llm_fetches (trace st)"
    using read_chunks_fetches[of TextDecoder_decode P E isO cb
        "st\<lparr>encounteredToolCall := False, streamedCharsThisRound := 0\<rparr>" "[]" chunks] r
    by simp
  then show ?thesis by (simp add: after_stream_def r)
qed

lemma run_round_cases:
  "run_round P E C cb ots rounds st =
     (let sd = (haveToolResults st \<or> llm_disable_tools E rounds);
          request = stream_request C ots sd (rollingMessages st);
          st0 = emit (LLMFetch request) st
      in case llm_stream E (length (trace st)) request of
           StreamFetchRejects m \<Rightarrow> (Thrown (Rejected m), st0)
         | StreamResponse ok status body \<Rightarrow>
             if \<not> ok then (Thrown (ServerResponded status), st0)
             else
               (case body of
                  None \<Rightarrow> (Thrown NoResponseBody, st0)
                | Some (chunks, ReadRejects m) \<Rightarrow>
                    (Thrown (Rejected m),
                     fst (read_chunks TextDecoder_decode (handle_line P E (isOllama C) cb)
                       (st0\<lparr>encounteredToolCall := False, streamedCharsThisRound := 0\<rparr>, []) chunks))
                | Some (chunks, StreamDone) \<Rightarrow>
                    let st3 = after_stream P E (isOllama C) cb st0 chunks
                    in if encounteredToolCall st3
                       then (ToolCallRound, st3\<lparr>rollingMessages := rollingMessages st3 @ [nudge]\<rparr>)
                       else if streamedCharsThisRound st3 = 0
                       then non_stream_fallback E C cb ots sd st3
                       else (FinalRound, st3)))"
  by (auto simp: run_round_def Let_def after_stream_def
      split: stream_response.splits option.splits prod.splits stream_end.splits)

lemma req_stream_requests [simp]:
  "req_stream (stream_request C ots sd msgs)" "\<not> req_stream (flat_request C ots sd msgs)"
  by (simp_all add: stream_request_def flat_request_def)

lemma run_round_stream_fetches:
  "stream_fetches (trace (snd (run_round P E C cb ots rounds st)))
     = stream_fetches (trace st)
       @ [stream_request C ots (haveToolResults st \<or> llm_disable_tools E rounds) (rollingMessages st)]"
  by (auto simp: run_round_cases Let_def stream_fetches_def llm_fetches_append
      split: stream_response.splits option.splits prod.splits stream_end.splits)

declare round_loop.simps [simp del]

lemma round_loop_stream_bound:
  "length (stream_fetches (trace (snd (snd (round_loop P E C cb ots rounds st)))))
     \<le> length (stream_fetches (trace st)) + (maxRounds - rounds)"
proof (induction P E C cb ots rounds st rule: round_loop.induct)
  case (1 P E C cb ots rounds st)
  show ?case
  proof (cases "rounds < maxRounds")
    case False
    then show ?thesis by (simp add: round_loop.simps[of P E C cb ots rounds st])
  next
    case True
    obtain out st' where rr: "run_round P E C cb ots rounds st = (out, st')"
      by (cases "run_round P E C cb ots rounds st")
    have len: "length (stream_fetches (trace st')) = length (stream_fetches (trace st)) + 1"
      using run_round_stream_fetches[of P E C cb ots rounds st] rr by simp
    show ?thesis
    proof (cases out)
      case ToolCallRound
      have "length (stream_fetches (trace (snd (snd (round_loop P E C cb ots (rounds + 1) st')))))
         \<le> length (stream_fetches (trace st')) + (maxRounds - (rounds + 1))"
        using "1.IH"[OF True rr[symmetric] ToolCallRound] .
      then show ?thesis
        using True len by (simp add: round_loop.simps[of P E C cb ots rounds st] rr ToolCallRound)
    next
      case FinalRound
      then show ?thesis
        using True len by (simp add: round_loop.simps[of P E C cb ots rounds st] rr)
    next
      case (Thrown e)
      then show ?thesis
        using True len by (simp add: round_loop.simps[of P E C cb ots rounds st] rr)
    qed
  qed
qed

lemma generateResponse_trace_fetches:
  "llm_fetches (trace (snd (generateResponse P E C cb messages tools)))
     = llm_fetches (trace (snd (snd (round_loop P E C cb (map_option (map to_ollama_tool) tools) 0
          (initial_state messages)))))"
  by (auto simp: generateResponse_def Let_def post_loop_def llm_fetches_append
      split: prod.splits option.splits)

lemma at_most_three:
  "length (stream_fetches (trace (snd (generateResponse P E C cb messages tools)))) \<le> 3"
proof -
  have "stream_fetches (trace (initial_state messages)) = []"
    by (simp add: initial_state_def stream_fetches_def)
  then show ?thesis
    using round_loop_stream_bound[of P E C cb "map_option (map to_ollama_tool) tools" 0 "initial_state messages"]
    by (simp add: stream_fetches_def generateResponse_trace_fetches maxRounds_def)
qed


lemma tool_effects_same_refl [simp]: "tool_effects_same s s"
  by (simp add: tool_effects_same_def)

lemma tool_effects_same_trans:
  "tool_effects_same s s' \<Longrightarrow> tool_effects_same s' s'' \<Longrightarrow> tool_effects_same s s''"
  by (simp add: tool_effects_same_def)

lemma add_content_obs [simp]:
  "backend_fetches (trace (add_content cb c s)) = backend_fetches (trace s)"
  "tool_callbacks (trace (add_content cb c s)) = tool_callbacks (trace s)"
  by (auto simp: add_content_def Let_def backend_fetches_append tool_callbacks_append)

lemma add_content_same [simp]: "tool_effects_same s (add_content cb c s)"
  by (simp add: tool_effects_same_def add_content_def Let_def backend_fetches_append tool_callbacks_append)

lemma handle_openai_line_same [simp]: "tool_effects_same s (handle_openai_line P cb s line)"
  by (simp add: handle_openai_line_def Let_def split: option.splits)

lemma handle_openai_line_encountered [simp]:
  "encounteredToolCall (handle_openai_line P cb s line) = encounteredToolCall s"
  by (simp add: handle_openai_line_def Let_def split: option.splits)

lemma handle_ollama_line_encountered:
  "encounteredToolCall (handle_ollama_line P E cb s line)
     = (encounteredToolCall s \<or> (\<exists>parsed. JSON_parse_record P line = Some parsed \<and> tool_calls_of parsed \<noteq> []))"
  by (auto simp: handle_ollama_line_def Let_def split: option.splits)

lemma handle_ollama_line_same:
  "\<not> encounteredToolCall (handle_ollama_line P E cb s line)
     \<Longrightarrow> tool_effects_same s (handle_ollama_line P E cb s line)"
  by (auto simp: handle_ollama_line_def Let_def tool_effects_same_def
        backend_fetches_append tool_callbacks_append split: option.splits if_splits)

lemma handle_line_mono:
  "encounteredToolCall s \<Longrightarrow> encounteredToolCall (handle_line P E isO cb s line)"
  by (simp add: handle_line_def handle_ollama_line_encountered)

lemma handle_line_same:
  "\<not> encounteredToolCall (handle_line P E isO cb s line)
     \<Longrightarrow> tool_effects_same s (handle_line P E isO cb s line)"
  by (auto simp: handle_line_def handle_ollama_line_same)

lemma foldl_handle_line_same:
  "\<not> encounteredToolCall (foldl (handle_line P E isO cb) s ls)
     \<Longrightarrow> tool_effects_same s (foldl (handle_line P E isO cb) s ls)
         \<and> \<not> encounteredToolCall s"
proof (induction ls arbitrary: s)
  case Nil
  then show ?case by simp
next
  case (Cons l ls)
  from Cons.IH[of "handle_line P E isO cb s l"] Cons.prems
  have 1: "tool_effects_same (handle_line P E isO cb s l)
             (foldl (handle_line P E isO cb) s (l # ls))"
    and 2: "\<not> encounteredToolCall (handle_line P E isO cb s l)" by simp_all
  from 2 have "\<not> encounteredToolCall s" using handle_line_mono by blast
  moreover have "tool_effects_same s (handle_line P E isO cb s l)"
    using 2 by (rule handle_line_same)
  ultimately show ?case using 1 tool_effects_same_trans by blast
qed

lemma read_chunks_same:
  "\<not> encounteredToolCall (fst (read_chunks dec (handle_line P E isO cb) (s, buf) chunks))
     \<Longrightarrow> tool_effects_same s (fst (read_chunks dec (handle_line P E isO cb) (s, buf) chunks))
         \<and> \<not> encounteredToolCall s"
proof (induction chunks arbitrary: s buf)
  case Nil
  then show ?case by simp
next
  case (Cons v rest)
  let ?segs = "split_lines (buf @ dec v)"
  let ?s1 = "foldl (handle_line P E isO cb) s (butlast ?segs)"
  from Cons.prems have p: "\<not> encounteredToolCall
      (fst (read_chunks dec (handle_line P E isO cb) (?s1, last ?segs) rest))"
    by (simp add: Let_def)
  from Cons.IH[OF p] have 1: "tool_effects_same ?s1
       (fst (read_chunks dec (handle_line P E isO cb) (?s1, last ?segs) rest))"
    and 2: "\<not> encounteredToolCall ?s1" by simp_all
  from foldl_handle_line_same[OF 2] have "tool_effects_same s ?s1" "\<not> encounteredToolCall s"
    by simp_all
  then show ?case using 1 tool_effects_same_trans by (auto simp: Let_def)
qed

lemma handle_residual_same [simp]: "tool_effects_same s (handle_residual P isO cb s buf)"
proof -
  have "\<And>s'. tool_effects_same s' (s'\<lparr>encounteredToolCall := True\<rparr>)"
    by (simp add: tool_effects_same_def)
  then show ?thesis
    by (auto simp: handle_residual_def Let_def split: option.splits
        intro: tool_effects_same_trans[OF add_content_same])
qed

lemma console_events_append: "console_events (xs @ ys) = console_events xs @ console_events ys"
  by (induction xs rule: console_events.induct) auto

lemma add_content_console [simp]:
  "console_events (trace (add_content cb c s)) = console_events (trace s)"
  by (simp add: add_content_def Let_def console_events_append)

lemma handle_residual_console [simp]:
  "console_events (trace (handle_residual P isO cb st buf)) = console_events (trace st)"
  by (auto simp: handle_residual_def Let_def split: option.splits)

lemma handle_residual_mono:
  "encounteredToolCall s \<Longrightarrow> encounteredToolCall (handle_residual P isO cb s buf)"
  by (auto simp: handle_residual_def Let_def split: option.splits)

lemma after_stream_same:
  assumes "\<not> encounteredToolCall (after_stream P E isO cb s chunks)"
  shows "tool_effects_same s (after_stream P E isO cb s chunks)"
proof -
  let ?s0 = "s\<lparr>encounteredToolCall := False, streamedCharsThisRound := 0\<rparr>"
  obtain s2 buf where r: "read_chunks TextDecoder_decode (handle_line P E isO cb) (?s0, []) chunks = (s2, buf)"
    by (cases "read_chunks TextDecoder_decode (handle_line P E isO cb) (?s0, []) chunks")
  have as: "after_stream P E isO cb s chunks = handle_residual P isO cb s2 buf"
    by (simp add: after_stream_def r)
  have "\<not> encounteredToolCall s2" using assms as handle_residual_mono by auto
  then have "tool_effects_same ?s0 s2"
    using read_chunks_same[of TextDecoder_decode P E isO cb ?s0 "[]" chunks] r by simp
  moreover have "tool_effects_same s ?s0" by (simp add: tool_effects_same_def)
  moreover have "tool_effects_same s2 (handle_residual P isO cb s2 buf)" by simp
  ultimately show ?thesis using as tool_effects_same_trans by metis
qed

lemma inv_state_same:
  "tool_effects_same s s' \<Longrightarrow> inv_state n isO s \<Longrightarrow> inv_state n isO s'"
  by (simp add: tool_effects_same_def inv_state_def)

lemma execute_tool_call_inv:
  "inv_state n True s \<Longrightarrow> inv_state n True (execute_tool_call P E cb s tc)"
  by (auto simp: execute_tool_call_def inv_state_def Let_def case_prod_unfold
      split: option.splits)

lemma foldl_execute_inv:
  "inv_state n True s \<Longrightarrow> inv_state n True (foldl (execute_tool_call P E cb) s tcs)"
  by (induction tcs arbitrary: s) (auto intro: execute_tool_call_inv)

lemma inv_state_fields [simp]:
  "inv_state n isO (s\<lparr>encounteredToolCall := b\<rparr>) = inv_state n isO s"
  "inv_state n isO (s\<lparr>streamedCharsThisRound := k\<rparr>) = inv_state n isO s"
  "inv_state n isO (emit e s) = inv_state n isO s"
  by (simp_all add: inv_state_def)

lemma handle_ollama_line_inv:
  "inv_state n True s \<Longrightarrow> inv_state n True (handle_ollama_line P E cb s line)"
  by (auto simp: handle_ollama_line_def Let_def split: option.splits
      intro!: foldl_execute_inv intro: inv_state_same[OF add_content_same])

lemma handle_line_inv:
  "inv_state n isO s \<Longrightarrow> inv_state n isO (handle_line P E isO cb s line)"
  by (cases isO) (auto simp: handle_line_def intro: handle_ollama_line_inv
      inv_state_same[OF handle_openai_line_same])

lemma foldl_handle_line_inv:
  "inv_state n isO s \<Longrightarrow> inv_state n isO (foldl (handle_line P E isO cb) s ls)"
  by (induction ls arbitrary: s) (auto intro: handle_line_inv)

lemma read_chunks_inv:
  "inv_state n isO s \<Longrightarrow> inv_state n isO (fst (read_chunks dec (handle_line P E isO cb) (s, buf) chunks))"
  by (induction chunks arbitrary: s buf) (auto simp: Let_def intro: foldl_handle_line_inv)

lemma after_stream_inv:
  assumes "inv_state n isO s"
  shows "inv_state n isO (after_stream P E isO cb s chunks)"
proof -
  let ?s0 = "s\<lparr>encounteredToolCall := False, streamedCharsThisRound := 0\<rparr>"
  obtain s2 buf where r: "read_chunks TextDecoder_decode (handle_line P E isO cb) (?s0, []) chunks = (s2, buf)"
    by (cases "read_chunks TextDecoder_decode (handle_line P E isO cb) (?s0, []) chunks")
  have "inv_state n isO ?s0" using assms by simp
  then have "inv_state n isO s2"
    using read_chunks_inv[of n isO ?s0 TextDecoder_decode P E cb "[]" chunks] r by simp
  then have "inv_state n isO (handle_residual P isO cb s2 buf)"
    by (rule inv_state_same[OF handle_residual_same])
  then show ?thesis by (simp add: after_stream_def r)
qed

lemma non_stream_fallback_same [simp]:
  "tool_effects_same s (snd (non_stream_fallback E C cb ots sd s))"
  by (auto simp: non_stream_fallback_def Let_def tool_effects_same_def add_flat_content_def
      backend_fetches_append tool_callbacks_append split: flat_response.splits sum.splits)

lemma nudge_inv:
  "inv_state n isO s \<Longrightarrow> inv_state n isO (s\<lparr>rollingMessages := rollingMessages s @ [nudge]\<rparr>)"
  by (auto simp: inv_state_def nudge_def list_ex_iff dest: in_set_dropD)

lemma run_round_fetches:
  "llm_fetches (trace (snd (run_round P E C cb ots rounds st)))
     = llm_fetches (trace st)
       @ (let sd = (haveToolResults st \<or> llm_disable_tools E rounds);
              request = stream_request C ots sd (rollingMessages st)
          in request #
             (case llm_stream E (length (trace st)) request of
                StreamResponse True status (Some (chunks, StreamDone)) \<Rightarrow>
                  let st3 = after_stream P E (isOllama C) cb (emit (LLMFetch request) st) chunks
                  in if streamedCharsThisRound st3 = 0 \<and> \<not> encounteredToolCall st3
                     then [flat_request C ots sd (rollingMessages st3)] else []
              | _ \<Rightarrow> []))"
  by (auto simp: run_round_cases Let_def llm_fetches_append
      split: stream_response.splits option.splits prod.splits stream_end.splits bool.splits)

lemma run_round_inv_state:
  assumes "inv_state n (isOllama C) st"
  shows "inv_state n (isOllama C) (snd (run_round P E C cb ots rounds st))"
  using assms
  by (auto simp: run_round_cases Let_def
      split: stream_response.splits option.splits prod.splits stream_end.splits
      intro!: nudge_inv after_stream_inv read_chunks_inv
        inv_state_same[OF non_stream_fallback_same])

lemma stream_request_suppressed:
  "haveToolResults st \<Longrightarrow> isOllama C \<Longrightarrow>
     tools_suppressed (stream_request C ots (haveToolResults st \<or> d) msgs)"
  by (simp add: tools_suppressed_def stream_request_def initialToolChoice_def)

lemma flat_request_suppressed:
  "haveToolResults st \<Longrightarrow> isOllama C \<Longrightarrow>
     tools_suppressed (flat_request C ots (haveToolResults st \<or> d) msgs)"
  by (auto simp: tools_suppressed_def flat_request_def initialToolChoice_def split: option.splits)

lemma after_tool_result_requests [simp]:
  "after_tool_result n (stream_request C ots sd msgs) = list_ex (\<lambda>m. rm_role m = Tool) (drop n msgs)"
  "after_tool_result n (flat_request C ots sd msgs) = list_ex (\<lambda>m. rm_role m = Tool) (drop n msgs)"
  by (simp_all add: after_tool_result_def stream_request_def flat_request_def)

lemma run_round_inv_trace:
  assumes ist: "inv_state n (isOllama C) st" and itr: "inv_trace n st"
  shows "inv_trace n (snd (run_round P E C cb ots rounds st))"
proof -
  let ?sd = "haveToolResults st \<or> llm_disable_tools E rounds"
  let ?req = "stream_request C ots ?sd (rollingMessages st)"
  have g1: "after_tool_result n ?req \<longrightarrow> tools_suppressed ?req"
    using ist stream_request_suppressed[of st C ots "llm_disable_tools E rounds" "rollingMessages st"]
    by (auto simp: inv_state_def)
  have g2: "after_tool_result n (flat_request C ots ?sd (rollingMessages st3))
              \<longrightarrow> tools_suppressed (flat_request C ots ?sd (rollingMessages st3))"
    if "st3 = after_stream P E (isOllama C) cb (emit (LLMFetch ?req) st) chunks"
      and "\<not> encounteredToolCall st3" for st3 chunks
  proof -
    have "tool_effects_same (emit (LLMFetch ?req) st) st3"
      using that after_stream_same by blast
    then have "rollingMessages st3 = rollingMessages st"
      by (simp add: tool_effects_same_def)
    then show ?thesis
      using ist flat_request_suppressed[of st C ots "llm_disable_tools E rounds" "rollingMessages st"]
      by (auto simp: inv_state_def)
  qed
  show ?thesis
    unfolding inv_trace_def run_round_fetches
    using itr g1 g2
    by (auto simp: inv_trace_def Let_def
        split: stream_response.splits option.splits prod.splits stream_end.splits bool.splits)
qed

lemma round_loop_inv:
  "inv_state n (isOllama C) st \<Longrightarrow> inv_trace n st \<Longrightarrow>
     inv_trace n (snd (snd (round_loop P E C cb ots rounds st)))"
proof (induction P E C cb ots rounds st rule: round_loop.induct)
  case (1 P E C cb ots rounds st)
  show ?case
  proof (cases "rounds < maxRounds")
    case False
    then show ?thesis using "1.prems" by (simp add: round_loop.simps[of P E C cb ots rounds st])
  next
    case True
    obtain out st' where rr: "run_round P E C cb ots rounds st = (out, st')"
      by (cases "run_round P E C cb ots rounds st")
    have s': "inv_state n (isOllama C) st'" "inv_trace n st'"
      using run_round_inv_state[OF "1.prems"(1), of P E cb ots rounds]
        run_round_inv_trace[OF "1.prems", of P E cb ots rounds] rr by simp_all
    show ?thesis
    proof (cases out)
      case ToolCallRound
      from "1.IH"[OF True rr[symmetric] ToolCallRound s']
      show ?thesis
        using True by (simp add: round_loop.simps[of P E C cb ots rounds st] rr ToolCallRound)
    next
      case FinalRound
      then show ?thesis
        using True s' by (simp add: round_loop.simps[of P E C cb ots rounds st] rr)
    next
      case (Thrown e)
      then show ?thesis
        using True s' by (simp add: round_loop.simps[of P E C cb ots rounds st] rr)
    qed
  qed
qed

lemma generateResponse_suppression:
  "\<forall>r \<in> set (llm_fetches (trace (snd (generateResponse P E C cb messages tools)))).
     after_tool_result (length messages) r \<longrightarrow> tools_suppressed r"
proof -
  have 1: "inv_state (length messages) (isOllama C) (initial_state messages)"
    by (simp add: inv_state_def initial_state_def)
  have 2: "inv_trace (length messages) (initial_state messages)"
    by (simp add: inv_trace_def initial_state_def)
  show ?thesis
    using round_loop_inv[OF 1 2, of P E cb "map_option (map to_ollama_tool) tools" 0]
    by (simp add: inv_trace_def generateResponse_trace_fetches)
qed

section \<open>The loop, unfolded\<close>

lemma round_loop_step:
  "rounds < maxRounds \<Longrightarrow>
     round_loop P E C cb ots rounds st =
       (case run_round P E C cb ots rounds st of
          (ToolCallRound, st') \<Rightarrow> round_loop P E C cb ots (rounds + 1) st'
        | (FinalRound, st') \<Rightarrow> (None, rounds, st')
        | (Thrown e, st') \<Rightarrow> (Some e, rounds, st'))"
  by (simp add: round_loop.simps[of P E C cb ots rounds st])

lemma round_loop_done: "\<not> rounds < maxRounds \<Longrightarrow> round_loop P E C cb ots rounds st = (None, rounds, st)"
  by (simp add: round_loop.simps[of P E C cb ots rounds st])

declare round_starts.simps [simp del]

lemma round_starts_less:
  "(r, s) \<in> set (round_starts P E C cb ots rounds st) \<Longrightarrow> r < maxRounds"
proof (induction P E C cb ots rounds st rule: round_starts.induct)
  case (1 P E C cb ots rounds st)
  show ?case
  proof (cases "rounds < maxRounds")
    case False
    then show ?thesis using "1.prems" by (simp add: round_starts.simps[of P E C cb ots rounds st])
  next
    case True
    obtain out st' where rr: "run_round P E C cb ots rounds st = (out, st')"
      by (cases "run_round P E C cb ots rounds st")
    show ?thesis
    proof (cases out)
      case ToolCallRound
      then show ?thesis
        using "1.prems" "1.IH"[OF True rr[symmetric] ToolCallRound] True
        by (auto simp: round_starts.simps[of P E C cb ots rounds st] rr)
    next
      case FinalRound
      then show ?thesis
        using "1.prems" True by (auto simp: round_starts.simps[of P E C cb ots rounds st] rr)
    next
      case (Thrown e)
      then show ?thesis
        using "1.prems" True by (auto simp: round_starts.simps[of P E C cb ots rounds st] rr)
    qed
  qed
qed

lemma round_starts_loop:
  "(r, s) \<in> set (round_starts P E C cb ots rounds st)
     \<Longrightarrow> round_loop P E C cb ots rounds st = round_loop P E C cb ots r s"
proof (induction P E C cb ots rounds st rule: round_starts.induct)
  case (1 P E C cb ots rounds st)
  show ?case
  proof (cases "rounds < maxRounds")
    case False
    then show ?thesis using "1.prems" by (simp add: round_starts.simps[of P E C cb ots rounds st])
  next
    case True
    obtain out st' where rr: "run_round P E C cb ots rounds st = (out, st')"
      by (cases "run_round P E C cb ots rounds st")
    show ?thesis
    proof (cases out)
      case ToolCallRound
      then show ?thesis
        using "1.prems" "1.IH"[OF True rr[symmetric] ToolCallRound] True
        by (auto simp: round_starts.simps[of P E C cb ots rounds st] rr round_loop_step)
    next
      case FinalRound
      then show ?thesis
        using "1.prems" True by (auto simp: round_starts.simps[of P E C cb ots rounds st] rr)
    next
      case (Thrown e)
      then show ?thesis
        using "1.prems" True by (auto simp: round_starts.simps[of P E C cb ots rounds st] rr)
    qed
  qed
qed

lemma round_starts_first: "rounds < maxRounds \<Longrightarrow> (rounds, st) \<in> set (round_starts P E C cb ots rounds st)"
  by (simp add: round_starts.simps[of P E C cb ots rounds st])

lemma round_starts_next:
  assumes "rounds + 1 < maxRounds" and "fst (run_round P E C cb ots rounds st) = ToolCallRound"
  shows "(rounds + 1, snd (run_round P E C cb ots rounds st)) \<in> set (round_starts P E C cb ots rounds st)"
proof -
  have "rounds < maxRounds" using assms(1) by simp
  then show ?thesis
    using assms round_starts_first[where rounds = "rounds + 1" and P = P and E = E and C = C and cb = cb
        and ots = ots and st = "snd (run_round P E C cb ots rounds st)"]
    by (cases "run_round P E C cb ots rounds st")
       (simp add: round_starts.simps[of P E C cb ots rounds st])
qed

lemma round_loop_stream_prefix:
  "\<exists>rest. stream_fetches (trace (snd (snd (round_loop P E C cb ots rounds st))))
            = stream_fetches (trace st) @ rest"
proof (induction P E C cb ots rounds st rule: round_loop.induct)
  case (1 P E C cb ots rounds st)
  show ?case
  proof (cases "rounds < maxRounds")
    case False
    then show ?thesis by (simp add: round_loop.simps[of P E C cb ots rounds st])
  next
    case True
    obtain out st' where rr: "run_round P E C cb ots rounds st = (out, st')"
      by (cases "run_round P E C cb ots rounds st")
    have sf: "stream_fetches (trace st') = stream_fetches (trace st)
                @ [stream_request C ots (haveToolResults st \<or> llm_disable_tools E rounds) (rollingMessages st)]"
      using run_round_stream_fetches[of P E C cb ots rounds st] rr by simp
    show ?thesis
    proof (cases out)
      case ToolCallRound
      from "1.IH"[OF True rr[symmetric] ToolCallRound]
      show ?thesis
        using True sf by (auto simp: round_loop.simps[of P E C cb ots rounds st] rr ToolCallRound)
    next
      case FinalRound
      then show ?thesis
        using True sf by (simp add: round_loop.simps[of P E C cb ots rounds st] rr)
    next
      case (Thrown e)
      then show ?thesis
        using True sf by (simp add: round_loop.simps[of P E C cb ots rounds st] rr)
    qed
  qed
qed

lemma round_loop_first_request:
  assumes "rounds < maxRounds"
  shows "stream_request C ots (haveToolResults st \<or> llm_disable_tools E rounds) (rollingMessages st)
           \<in> set (stream_fetches (trace (snd (snd (round_loop P E C cb ots rounds st)))))"
proof -
  let ?req = "stream_request C ots (haveToolResults st \<or> llm_disable_tools E rounds) (rollingMessages st)"
  obtain out st' where rr: "run_round P E C cb ots rounds st = (out, st')"
    by (cases "run_round P E C cb ots rounds st")
  have sf: "stream_fetches (trace st') = stream_fetches (trace st) @ [?req]"
    using run_round_stream_fetches[of P E C cb ots rounds st] rr by simp
  show ?thesis
  proof (cases out)
    case ToolCallRound
    obtain rest where "stream_fetches (trace (snd (snd (round_loop P E C cb ots (rounds + 1) st'))))
            = stream_fetches (trace st') @ rest"
      using round_loop_stream_prefix by blast
    then show ?thesis
      using assms sf by (simp add: round_loop_step rr ToolCallRound)
  next
    case FinalRound
    then show ?thesis using assms sf by (simp add: round_loop_step rr)
  next
    case (Thrown e)
    then show ?thesis using assms sf by (simp add: round_loop_step rr)
  qed
qed

lemma round_loop_tool_round:
  "rounds < maxRounds \<Longrightarrow> fst (run_round P E C cb ots rounds st) = ToolCallRound \<Longrightarrow>
     round_loop P E C cb ots rounds st
       = round_loop P E C cb ots (rounds + 1) (snd (run_round P E C cb ots rounds st))"
  by (simp add: round_loop_step case_prod_unfold)


lemma run_round_not_ok:
  assumes "llm_stream E (length (trace st))
             (stream_request C ots (haveToolResults st \<or> llm_disable_tools E rounds) (rollingMessages st))
           = StreamResponse False status body"
  shows "run_round P E C cb ots rounds st =
           (Thrown (ServerResponded status),
            emit (LLMFetch (stream_request C ots (haveToolResults st \<or> llm_disable_tools E rounds)
                    (rollingMessages st))) st)"
  using assms by (simp add: run_round_cases Let_def)

section \<open>The sanitizer never returns a blank string for a text\<close>

lemma think_match_demo: "think_match (str ''<think></think>'') = Some ([], [], [])"
  by (simp add: think_match_def str_def starts_with_ci_def canon_def)

lemma looks_empty: "\<not> looksLikeThinking []"
  by (simp add: looksLikeThinking_def thinkingPatterns_def test_line_start_def starts_with_ci_def str_def)

lemma think_split_demo: "think_split (str ''<think></think>'') = ([], [])"
proof -
  have "think_match [] = None" by (simp add: think_match_def str_def)
  then have "remove_think (str ''<think></think>'') = []"
    by (simp add: remove_think.simps[of "str ''<think></think>''"] remove_think.simps[of "[]"] think_match_demo)
  then show ?thesis
    by (simp add: think_split_def think_match_demo trim_def looks_empty)
qed

text \<open>
  Claim C9, as amended. For every text that is not empty, the value
  \<open>cleanThinkingContent\<close> returns is never blank, and it is the fixed fallback sentence
  whenever the reasoning content and the main content are both empty after processing.
  The empty text is excluded: the guard \<open>if (!text) return ''\<close> returns it unchanged.
\<close>

theorem cleanThinkingContent_never_blank:
  "text \<noteq> [] \<Longrightarrow>
     \<not> blank (cleanThinkingContent text)
     \<and> (think_split text = ([], []) \<longrightarrow> cleanThinkingContent text = fallback_sentence)"
  using cleanThinkingContent_not_blank cleanThinkingContent_fallback by blast

text \<open>The amended claim C9 at the text \<open><think></think>\<close>, which leaves both parts
  empty.\<close>

theorem cleanThinkingContent_never_blank_witness:
  "\<not> blank (cleanThinkingContent (str ''<think></think>''))
   \<and> cleanThinkingContent (str ''<think></think>'') = fallback_sentence"
proof -
  have "str ''<think></think>'' \<noteq> []" by (simp add: str_def)
  from cleanThinkingContent_never_blank[OF this] think_split_demo show ?thesis by blast
qed

text \<open>
  Claim C9 as stated fails at the empty text: both parts are empty after processing, and
  the value returned is the empty string, not the fallback sentence.
\<close>

theorem cleanThinkingContent_empty_input_counterexample:
  "think_split [] = ([], []) \<and> cleanThinkingContent [] = [] \<and> blank (cleanThinkingContent [])
   \<and> cleanThinkingContent [] \<noteq> fallback_sentence"
proof -
  have "think_match [] = None" by (simp add: think_match_def str_def)
  then have "think_split [] = ([], [])" by (simp add: think_split_def looks_empty)
  moreover have "cleanThinkingContent [] = []" by (simp add: cleanThinkingContent_def)
  moreover have "fallback_sentence \<noteq> []" by (simp add: fallback_sentence_def str_def)
  ultimately show ?thesis by (simp add: blank_def trim_def)
qed

section \<open>The fallback timer tries the graph solver first\<close>

lemma watchdog_fetches_finish [simp]: "watchdog_fetches (watchdog_finish ok body) = []"
proof (cases body)
  case (Inl m)
  then show ?thesis by (simp add: watchdog_finish_def)
next
  case (Inr genJson)
  show ?thesis
  proof (cases "jfield (str ''rooms'') genJson")
    case None
    then show ?thesis using Inr by (simp add: watchdog_finish_def)
  next
    case (Some v)
    then show ?thesis using Inr by (cases v) (simp_all add: watchdog_finish_def)
  qed
qed

lemma watchdog_request_solver [simp]:
  "wp_solver_type (watchdog_request m plotWidth plotLength) = str ''graph''"
  by (simp add: watchdog_request_def Let_def)

text \<open>
  Claim C7, as amended. When the fallback timer fires and neither flag is set, its first
  request to the generation endpoint selects the graph solver; it sends a second request,
  selecting the constraint solver, exactly when the first one is answered with a status
  that is not ok, and it sends no other request.
\<close>

theorem watchdog_graph_solver_first:
  assumes "\<not> toolCallHandled" and "\<not> toolCallDetected"
  shows "map wp_solver_type
           (watchdog_fetches (watchdog_fire fetch toolCallHandled toolCallDetected m plotWidth plotLength))
         = (case fetch 0 (watchdog_request m plotWidth plotLength) of
              BackendFetchRejects msg \<Rightarrow> [str ''graph'']
            | BackendResponse ok status body \<Rightarrow>
                if ok then [str ''graph''] else [str ''graph'', str ''constraint''])"
  using assms
  by (simp add: watchdog_fire_def Let_def split: backend_response.splits)

text \<open>The amended claim C7 on a backend that answers 500: two requests, graph then
  constraint.\<close>

theorem watchdog_graph_solver_first_witness:
  "map wp_solver_type
     (watchdog_fetches (watchdog_fire (\<lambda>n p. BackendResponse False 500 (Inr (JObj []))) False False
        demo_match 30 30))
   = [str ''graph'', str ''constraint'']"
  using watchdog_graph_solver_first[of False False "\<lambda>n p. BackendResponse False 500 (Inr (JObj []))"
      demo_match 30 30]
  by simp

text \<open>
  Claim C7 as stated fails: on a backend that answers 200 the only request the timer
  sends selects the graph solver, not the constraint solver.
\<close>

theorem watchdog_constraint_first_counterexample:
  "map wp_solver_type
     (watchdog_fetches (watchdog_fire (\<lambda>n p. BackendResponse True 200 (Inr success_body)) False False
        demo_match 30 30))
   = [str ''graph'']
   \<and> str ''graph'' \<noteq> str ''constraint''"
  by (simp add: watchdog_fire_def Let_def) (simp add: str_def)

section \<open>Sample lines, decoded and framed\<close>

lemma utf8_decode_ascii:
  "\<forall>b \<in> set bs. b < 128 \<Longrightarrow> utf8_decode 0 0 0 0x80 0xBF bs = bs"
  by (induction bs) auto

lemma TextDecoder_decode_ascii:
  assumes "\<forall>b \<in> set bs. b < 128"
  shows "TextDecoder_decode bs = bs"
proof -
  have "strip_bom bs = bs" using assms by (cases bs) (auto simp: strip_bom_def)
  moreover have "concat (map utf16_units bs) = bs"
    using assms by (induction bs) (auto simp: utf16_units_def)
  ultimately show ?thesis by (simp add: TextDecoder_decode_def utf8_decode_ascii[OF assms])
qed

lemma split_lines_no_lf: "10 \<notin> set l \<Longrightarrow> split_lines l = [l]"
  by (induction l rule: split_lines.induct) (auto simp: extend_first_def)

lemma split_lines_one_line:
  "10 \<notin> set l \<Longrightarrow> 13 \<notin> set l \<Longrightarrow> split_lines (l @ [10]) = [l, []]"
  by (induction l rule: split_lines.induct) (auto simp: extend_first_def)

lemma line_tool_chars:
  "\<forall>b \<in> set line_tool. b < 128" "10 \<notin> set line_tool" "13 \<notin> set line_tool"
  "123 \<in> set line_tool"
  by (simp_all add: line_tool_def str_def)

lemma parse_line_tool:
  "demo_parse_record line_tool
     = Some (empty_record\<lparr>r_message_tool_calls := Some [layout_call (ArgObject kitchen_args)]\<rparr>)"
  by (simp add: demo_parse_record_def)

lemma isOllama_demo: "isOllama demo_config"
  by (simp add: isOllama_def demo_config_def)

lemma not_blank_intro: "c \<in> set s \<Longrightarrow> \<not> is_white_space c \<Longrightarrow> trim s \<noteq> []"
  using trim_empty_iff by blast

lemma line_tool_not_blank: "trim line_tool \<noteq> []"
  by (rule not_blank_intro[OF line_tool_chars(4)])
     (simp add: is_white_space_def is_line_terminator_def)

section \<open>Tool calls in the residual buffer\<close>

lemma run_round_stream_done:
  assumes "llm_stream E (length (trace st))
             (stream_request C ots (haveToolResults st \<or> llm_disable_tools E rounds) (rollingMessages st))
           = StreamResponse True status (Some (chunks, StreamDone))"
  shows "run_round P E C cb ots rounds st =
           (let sd = (haveToolResults st \<or> llm_disable_tools E rounds);
                st3 = after_stream P E (isOllama C) cb
                        (emit (LLMFetch (stream_request C ots sd (rollingMessages st))) st) chunks
            in if encounteredToolCall st3
               then (ToolCallRound, st3\<lparr>rollingMessages := rollingMessages st3 @ [nudge]\<rparr>)
               else if streamedCharsThisRound st3 = 0
               then non_stream_fallback E C cb ots sd st3
               else (FinalRound, st3))"
  using assms by (simp add: run_round_cases Let_def)

lemma handle_residual_tool_call:
  assumes "trim streamBuffer \<noteq> []" and "JSON_parse_record P streamBuffer = Some parsed"
    and "tool_calls_of parsed \<noteq> []"
  shows "encounteredToolCall (handle_residual P True cb st streamBuffer)"
proof -
  have "streamBuffer \<noteq> []" using assms(1) by (auto simp: trim_def)
  then show ?thesis using assms by (simp add: handle_residual_def Let_def)
qed

text \<open>
  Claim C10, as amended. In the Ollama dialect, when the buffer left at the end of the
  stream parses to a record with tool calls, the round has met a tool call and is a
  tool-call round, but nothing is executed for these calls: against the state \<open>st2\<close>
  in which the read loop ended there is no new backend request and no new
  \<open>onToolCall\<close> callback, the only message appended is the steering message, and the
  tool-result variables are unchanged. A further round follows when the round was the
  first or the second of the turn: it begins in the state this round ends in, and its
  streaming request is among those of the turn. After the third round no round follows:
  the loop returns the state this round ends in.
\<close>

theorem residual_tool_call_detected_not_executed:
  assumes "llm_stream E (length (trace st))
             (stream_request C ots (haveToolResults st \<or> llm_disable_tools E rounds) (rollingMessages st))
           = StreamResponse True status (Some (chunks, StreamDone))"
    and "read_chunks TextDecoder_decode (handle_line P E (isOllama C) cb)
           ((emit (LLMFetch (stream_request C ots (haveToolResults st \<or> llm_disable_tools E rounds)
                     (rollingMessages st))) st)
              \<lparr>encounteredToolCall := False, streamedCharsThisRound := 0\<rparr>, []) chunks
         = (st2, streamBuffer)"
    and "isOllama C"
    and "trim streamBuffer \<noteq> []"
    and "JSON_parse_record P streamBuffer = Some parsed"
    and "tool_calls_of parsed \<noteq> []"
    and "st' = snd (run_round P E C cb ots rounds st)"
  shows "fst (run_round P E C cb ots rounds st) = ToolCallRound
         \<and> encounteredToolCall st'
         \<and> backend_fetches (trace st') = backend_fetches (trace st2)
         \<and> tool_callbacks (trace st') = tool_callbacks (trace st2)
         \<and> rollingMessages st' = rollingMessages st2 @ [nudge]
         \<and> haveToolResults st' = haveToolResults st2
         \<and> lastToolResult st' = lastToolResult st2
         \<and> (rounds + 1 < maxRounds \<longrightarrow>
               (rounds + 1, st') \<in> set (round_starts P E C cb ots rounds st)
               \<and> round_loop P E C cb ots rounds st = round_loop P E C cb ots (rounds + 1) st'
               \<and> stream_request C ots (haveToolResults st' \<or> llm_disable_tools E (rounds + 1))
                     (rollingMessages st')
                   \<in> set (stream_fetches (trace (snd (snd (round_loop P E C cb ots rounds st))))))
         \<and> (rounds + 1 = maxRounds \<longrightarrow>
               round_starts P E C cb ots rounds st = [(rounds, st)]
               \<and> round_loop P E C cb ots rounds st = (None, maxRounds, st'))"
proof -
  let ?req = "stream_request C ots (haveToolResults st \<or> llm_disable_tools E rounds) (rollingMessages st)"
  let ?st3 = "after_stream P E (isOllama C) cb (emit (LLMFetch ?req) st) chunks"
  have st3: "?st3 = handle_residual P True cb st2 streamBuffer"
    using assms(2,3) by (simp add: after_stream_def)
  have enc: "encounteredToolCall ?st3"
    unfolding st3 using assms(4-6) by (rule handle_residual_tool_call)
  have same: "tool_effects_same st2 ?st3"
    unfolding st3 by simp
  have rr: "run_round P E C cb ots rounds st
              = (ToolCallRound, ?st3\<lparr>rollingMessages := rollingMessages ?st3 @ [nudge]\<rparr>)"
    using run_round_stream_done[OF assms(1), of P cb] enc by (simp add: Let_def)
  have out: "fst (run_round P E C cb ots rounds st) = ToolCallRound" by (simp add: rr)
  have a: "encounteredToolCall st' \<and> backend_fetches (trace st') = backend_fetches (trace st2)
         \<and> tool_callbacks (trace st') = tool_callbacks (trace st2)
         \<and> rollingMessages st' = rollingMessages st2 @ [nudge]
         \<and> haveToolResults st' = haveToolResults st2
         \<and> lastToolResult st' = lastToolResult st2"
    using same enc by (simp add: assms(7) rr tool_effects_same_def)
  have b: "(rounds + 1, st') \<in> set (round_starts P E C cb ots rounds st)
           \<and> round_loop P E C cb ots rounds st = round_loop P E C cb ots (rounds + 1) st'
           \<and> stream_request C ots (haveToolResults st' \<or> llm_disable_tools E (rounds + 1))
                 (rollingMessages st')
               \<in> set (stream_fetches (trace (snd (snd (round_loop P E C cb ots rounds st)))))"
    if lt: "rounds + 1 < maxRounds"
  proof -
    have 1: "(rounds + 1, st') \<in> set (round_starts P E C cb ots rounds st)"
      unfolding assms(7) using lt out by (rule round_starts_next)
    have 2: "round_loop P E C cb ots rounds st = round_loop P E C cb ots (rounds + 1) st'"
      using lt by (simp add: round_loop_step rr assms(7))
    have 3: "stream_request C ots (haveToolResults st' \<or> llm_disable_tools E (rounds + 1))
                 (rollingMessages st')
               \<in> set (stream_fetches (trace (snd (snd (round_loop P E C cb ots (rounds + 1) st')))))"
      using lt by (rule round_loop_first_request)
    show ?thesis using 1 2 3 by simp
  qed
  have c: "round_starts P E C cb ots rounds st = [(rounds, st)]
           \<and> round_loop P E C cb ots rounds st = (None, maxRounds, st')"
    if eq: "rounds + 1 = maxRounds"
  proof -
    have lt: "rounds < maxRounds" "\<not> rounds + 1 < maxRounds" using eq by simp_all
    have 1: "round_starts P E C cb ots rounds st = [(rounds, st)]"
      using lt by (simp add: round_starts.simps[of P E C cb ots rounds st] rr
          round_starts.simps[of P E C cb ots "Suc rounds"])
    have 2: "round_loop P E C cb ots rounds st = (None, maxRounds, st')"
      using lt eq by (simp add: round_loop_step rr assms(7) round_loop_done)
    show ?thesis using 1 2 by simp
  qed
  show ?thesis using out a b c by blast
qed

lemma demo_residual_read:
  "read_chunks TextDecoder_decode (handle_line P E isO cb) (s, []) [line_tool] = (s, line_tool)"
  by (simp add: TextDecoder_decode_ascii[OF line_tool_chars(1)] split_lines_no_lf[OF line_tool_chars(2)])

lemma tool_calls_demo:
  "tool_calls_of (empty_record\<lparr>r_message_tool_calls := Some [layout_call (ArgObject kitchen_args)]\<rparr>) \<noteq> []"
  by (simp add: tool_calls_of_def empty_record_def)

lemma handle_residual_line_tool:
  "handle_residual demo_platform True cb s line_tool = s\<lparr>encounteredToolCall := True\<rparr>"
proof -
  have p: "JSON_parse_record demo_platform line_tool
             = Some (empty_record\<lparr>r_message_tool_calls := Some [layout_call (ArgObject kitchen_args)]\<rparr>)"
    by (simp add: demo_platform_def parse_line_tool)
  have ne: "line_tool \<noteq> []" using line_tool_chars(4) by auto
  show ?thesis
    using line_tool_not_blank ne
    by (simp add: handle_residual_def p Let_def empty_record_def tool_calls_of_def)
qed

lemma residual_round:
  "run_round demo_platform env_residual demo_config demo_callbacks ots rounds st
     = (ToolCallRound,
        (emit (LLMFetch (stream_request demo_config ots (haveToolResults st) (rollingMessages st))) st)
          \<lparr>encounteredToolCall := True, streamedCharsThisRound := 0,
           rollingMessages := rollingMessages st @ [nudge]\<rparr>)"
proof -
  have 1: "llm_stream env_residual (length (trace st))
             (stream_request demo_config ots (haveToolResults st \<or> llm_disable_tools env_residual rounds)
                (rollingMessages st))
           = StreamResponse True 200 (Some ([line_tool], StreamDone))"
    by (simp add: env_residual_def)
  have d: "llm_disable_tools env_residual rounds = False" by (simp add: env_residual_def)
  have st3: "after_stream demo_platform env_residual (isOllama demo_config) demo_callbacks s [line_tool]
      = s\<lparr>encounteredToolCall := True, streamedCharsThisRound := 0\<rparr>" for s
    by (simp add: after_stream_def demo_residual_read isOllama_demo handle_residual_line_tool
        del: read_chunks.simps)
  show ?thesis
    using run_round_stream_done[OF 1, of demo_platform demo_callbacks]
    by (simp add: Let_def st3 d)
qed

text \<open>The amended claim C10 on a stream that is one tool-call record without a line end,
  in the first round of a turn.\<close>

theorem residual_tool_call_detected_not_executed_witness:
  "fst (run_round demo_platform env_residual demo_config demo_callbacks None 0 (initial_state demo_messages))
     = ToolCallRound
   \<and> backend_fetches (trace (snd (run_round demo_platform env_residual demo_config demo_callbacks None 0
         (initial_state demo_messages)))) = []
   \<and> tool_callbacks (trace (snd (run_round demo_platform env_residual demo_config demo_callbacks None 0
         (initial_state demo_messages)))) = []
   \<and> rollingMessages (snd (run_round demo_platform env_residual demo_config demo_callbacks None 0
         (initial_state demo_messages))) = rollingMessages (initial_state demo_messages) @ [nudge]
   \<and> \<not> haveToolResults (snd (run_round demo_platform env_residual demo_config demo_callbacks None 0
         (initial_state demo_messages)))
   \<and> (1, snd (run_round demo_platform env_residual demo_config demo_callbacks None 0
              (initial_state demo_messages)))
       \<in> set (round_starts demo_platform env_residual demo_config demo_callbacks None 0
                (initial_state demo_messages))
   \<and> stream_request demo_config None False (rollingMessages (initial_state demo_messages) @ [nudge])
       \<in> set (stream_fetches (trace (snd (snd (round_loop demo_platform env_residual demo_config
                demo_callbacks None 0 (initial_state demo_messages))))))"
proof -
  let ?st = "initial_state demo_messages"
  define st0 where "st0 = (emit (LLMFetch (stream_request demo_config None
                (haveToolResults ?st \<or> llm_disable_tools env_residual 0) (rollingMessages ?st))) ?st)
              \<lparr>encounteredToolCall := False, streamedCharsThisRound := 0\<rparr>"
  have 1: "llm_stream env_residual (length (trace ?st))
             (stream_request demo_config None
                (haveToolResults ?st \<or> llm_disable_tools env_residual 0) (rollingMessages ?st))
           = StreamResponse True 200 (Some ([line_tool], StreamDone))"
    by (simp add: env_residual_def)
  have 2: "read_chunks TextDecoder_decode (handle_line demo_platform env_residual (isOllama demo_config)
              demo_callbacks)
             ((emit (LLMFetch (stream_request demo_config None
                (haveToolResults ?st \<or> llm_disable_tools env_residual 0) (rollingMessages ?st))) ?st)
              \<lparr>encounteredToolCall := False, streamedCharsThisRound := 0\<rparr>, []) [line_tool]
           = (st0, line_tool)"
    unfolding st0_def by (rule demo_residual_read)
  have 5: "JSON_parse_record demo_platform line_tool
             = Some (empty_record\<lparr>r_message_tool_calls := Some [layout_call (ArgObject kitchen_args)]\<rparr>)"
    by (simp add: demo_platform_def parse_line_tool)
  have lt: "(0::nat) + 1 < maxRounds" by (simp add: maxRounds_def)
  have s0: "backend_fetches (trace st0) = []" "tool_callbacks (trace st0) = []"
    "rollingMessages st0 = rollingMessages ?st" "\<not> haveToolResults st0"
    by (simp_all add: st0_def backend_fetches_append tool_callbacks_append initial_state_def)
  note t = residual_tool_call_detected_not_executed[OF 1 2 isOllama_demo line_tool_not_blank 5
      tool_calls_demo refl]
  have next_req: "stream_request demo_config None
           (haveToolResults (snd (run_round demo_platform env_residual demo_config demo_callbacks None 0 ?st))
              \<or> llm_disable_tools env_residual (0 + 1))
           (rollingMessages (snd (run_round demo_platform env_residual demo_config demo_callbacks None 0 ?st)))
         = stream_request demo_config None False (rollingMessages ?st @ [nudge])"
  proof -
    have "llm_disable_tools env_residual (0 + 1) = False" by (simp add: env_residual_def)
    moreover have "haveToolResults ?st = False" by (simp add: initial_state_def)
    ultimately show ?thesis by (simp add: residual_round)
  qed
  let ?rr = "run_round demo_platform env_residual demo_config demo_callbacks None 0 ?st"
  from t lt have t': "fst ?rr = ToolCallRound"
    "backend_fetches (trace (snd ?rr)) = backend_fetches (trace st0)"
    "tool_callbacks (trace (snd ?rr)) = tool_callbacks (trace st0)"
    "rollingMessages (snd ?rr) = rollingMessages st0 @ [nudge]"
    "haveToolResults (snd ?rr) = haveToolResults st0"
    "(0 + 1, snd ?rr) \<in> set (round_starts demo_platform env_residual demo_config demo_callbacks None 0 ?st)"
    "stream_request demo_config None False (rollingMessages ?st @ [nudge])
       \<in> set (stream_fetches (trace (snd (snd (round_loop demo_platform env_residual demo_config
                demo_callbacks None 0 ?st)))))"
    unfolding next_req by blast+
  show ?thesis
    using t' s0 by simp
qed

text \<open>
  Claim C10 as stated fails in the third round. Every stream of this turn is one
  tool-call record without a line end, so each of its three rounds ends on a tool call in
  the residual buffer, and a steering message is appended three times; the turn has three
  streaming requests, no more: no round follows the third. Nothing is sent to the
  backend, and the response is empty.
\<close>

theorem residual_tool_call_third_round_counterexample:
  "rollingMessages (snd (generateResponse demo_platform env_residual demo_config demo_callbacks
       demo_messages demo_tools))
     = rollingMessages (initial_state demo_messages) @ [nudge, nudge, nudge]
   \<and> length (stream_fetches (trace (snd (generateResponse demo_platform env_residual demo_config
         demo_callbacks demo_messages demo_tools)))) = 3
   \<and> backend_fetches (trace (snd (generateResponse demo_platform env_residual demo_config
         demo_callbacks demo_messages demo_tools))) = []
   \<and> fst (generateResponse demo_platform env_residual demo_config demo_callbacks demo_messages demo_tools)
       = Inr []"
proof -
  let ?ots = "map_option (map to_ollama_tool) demo_tools"
  let ?st = "initial_state demo_messages"
  define s1 where "s1 = snd (run_round demo_platform env_residual demo_config demo_callbacks ?ots 0 ?st)"
  define s2 where "s2 = snd (run_round demo_platform env_residual demo_config demo_callbacks ?ots (0 + 1) s1)"
  define s3 where "s3 = snd (run_round demo_platform env_residual demo_config demo_callbacks ?ots
                               (0 + 1 + 1) s2)"
  have step: "fst (run_round demo_platform env_residual demo_config demo_callbacks ?ots r s) = ToolCallRound"
    "rollingMessages (snd (run_round demo_platform env_residual demo_config demo_callbacks ?ots r s))
       = rollingMessages s @ [nudge]"
    "fullResponse (snd (run_round demo_platform env_residual demo_config demo_callbacks ?ots r s))
       = fullResponse s"
    "haveToolResults (snd (run_round demo_platform env_residual demo_config demo_callbacks ?ots r s))
       = haveToolResults s"
    "backend_fetches (trace (snd (run_round demo_platform env_residual demo_config demo_callbacks ?ots r s)))
       = backend_fetches (trace s)"
    "length (stream_fetches (trace (snd (run_round demo_platform env_residual demo_config demo_callbacks
        ?ots r s)))) = length (stream_fetches (trace s)) + 1" for r s
    by (simp_all add: residual_round backend_fetches_append stream_fetches_def llm_fetches_append)
  have l0: "round_loop demo_platform env_residual demo_config demo_callbacks ?ots 0 ?st
          = round_loop demo_platform env_residual demo_config demo_callbacks ?ots (0 + 1) s1"
    unfolding s1_def by (rule round_loop_tool_round) (simp_all add: maxRounds_def step(1))
  have l1: "round_loop demo_platform env_residual demo_config demo_callbacks ?ots (0 + 1) s1
          = round_loop demo_platform env_residual demo_config demo_callbacks ?ots (0 + 1 + 1) s2"
    unfolding s2_def by (rule round_loop_tool_round) (simp_all add: maxRounds_def step(1))
  have l2: "round_loop demo_platform env_residual demo_config demo_callbacks ?ots (0 + 1 + 1) s2
          = round_loop demo_platform env_residual demo_config demo_callbacks ?ots (0 + 1 + 1 + 1) s3"
    unfolding s3_def by (rule round_loop_tool_round) (simp_all add: maxRounds_def step(1))
  have l3: "round_loop demo_platform env_residual demo_config demo_callbacks ?ots (0 + 1 + 1 + 1) s3
          = (None, 0 + 1 + 1 + 1, s3)"
    by (rule round_loop_done) (simp add: maxRounds_def)
  have loop: "round_loop demo_platform env_residual demo_config demo_callbacks ?ots 0 ?st
          = (None, 0 + 1 + 1 + 1, s3)"
    by (simp only: l0 l1 l2 l3)
  have f: "rollingMessages s3 = rollingMessages ?st @ [nudge, nudge, nudge]"
    "fullResponse s3 = []" "\<not> haveToolResults s3" "backend_fetches (trace s3) = []"
    "length (stream_fetches (trace s3)) = 3"
  proof -
    have i: "stream_fetches (trace ?st) = []" "fullResponse ?st = []" "\<not> haveToolResults ?st"
      "backend_fetches (trace ?st) = []"
      by (simp_all add: stream_fetches_def initial_state_def)
    show "rollingMessages s3 = rollingMessages ?st @ [nudge, nudge, nudge]"
      "fullResponse s3 = []" "\<not> haveToolResults s3" "backend_fetches (trace s3) = []"
      "length (stream_fetches (trace s3)) = 3"
      by (simp_all add: s3_def s2_def s1_def step i)
  qed
  have post: "post_loop demo_platform s3 = s3"
    by (simp add: post_loop_def f)
  have sf: "stream_fetches (trace s3 @ [SetIsLoading False]) = stream_fetches (trace s3)"
    by (simp add: stream_fetches_def llm_fetches_append)
  show ?thesis
    by (simp add: generateResponse_def loop post f cleanThinkingContent_def sf backend_fetches_append)
qed

section \<open>The non-streaming fallback\<close>

lemma non_stream_fallback_outcome: "fst (non_stream_fallback E C cb ots sd st) \<noteq> ToolCallRound"
  by (auto simp: non_stream_fallback_def Let_def split: flat_response.splits sum.splits)

lemma flat_fetches_append: "flat_fetches (xs @ ys) = flat_fetches xs @ flat_fetches ys"
  by (simp add: flat_fetches_def llm_fetches_append)


lemma after_stream_no_chunks:
  "after_stream P E isO cb s [] = s\<lparr>encounteredToolCall := False, streamedCharsThisRound := 0\<rparr>"
  by (simp add: after_stream_def handle_residual_def)

section \<open>The round budget\<close>

lemma run_round_tool_call_round:
  "fst (run_round P E C cb ots rounds st) = ToolCallRound
     \<Longrightarrow> encounteredToolCall (snd (run_round P E C cb ots rounds st))"
  using non_stream_fallback_outcome[of E C cb ots]
  by (auto simp: run_round_cases Let_def
      split: stream_response.splits option.splits prod.splits stream_end.splits if_splits)

text \<open>
  Claim C2. Whatever the servers answer, a turn sends at most three streaming requests;
  the loop entered with the counter at \<open>maxRounds\<close> returns at once; a round is a
  tool-call round, the only outcome after which the loop goes on with the counter
  incremented, only if it met a tool call; and after any other round the loop ends with the
  counter unchanged.
\<close>

theorem at_most_three_rounds:
  "length (stream_fetches (trace (snd (generateResponse P E C cb messages tools)))) \<le> 3
   \<and> round_loop P E C cb ots maxRounds st = (None, maxRounds, st)
   \<and> (fst (run_round P E C cb ots rounds st) = ToolCallRound
        \<longrightarrow> encounteredToolCall (snd (run_round P E C cb ots rounds st)))
   \<and> (rounds < maxRounds \<and> fst (run_round P E C cb ots rounds st) \<noteq> ToolCallRound
        \<longrightarrow> fst (snd (round_loop P E C cb ots rounds st)) = rounds)"
proof -
  have "rounds < maxRounds \<and> fst (run_round P E C cb ots rounds st) \<noteq> ToolCallRound
        \<longrightarrow> fst (snd (round_loop P E C cb ots rounds st)) = rounds"
    by (cases "run_round P E C cb ots rounds st"; cases "fst (run_round P E C cb ots rounds st)")
       (auto simp: round_loop_step)
  then show ?thesis
    using at_most_three run_round_tool_call_round by (simp add: round_loop_done)
qed

text \<open>Claim C2 on a round that meets a tool call and on a round that does not.\<close>

theorem at_most_three_rounds_witness:
  "fst (run_round demo_platform env_residual demo_config demo_callbacks None 0 (initial_state demo_messages))
     = ToolCallRound
   \<and> encounteredToolCall (snd (run_round demo_platform env_residual demo_config demo_callbacks None 0
         (initial_state demo_messages)))
   \<and> fst (snd (round_loop demo_platform demo_env demo_config demo_callbacks None 0
         (initial_state demo_messages))) = 0
   \<and> length (stream_fetches (trace (snd (generateResponse demo_platform demo_env demo_config
         demo_callbacks demo_messages None)))) \<le> 3"
proof -
  let ?st = "initial_state demo_messages"
  have 1: "llm_stream env_residual (length (trace ?st))
             (stream_request demo_config None (haveToolResults ?st \<or> llm_disable_tools env_residual 0)
                (rollingMessages ?st))
           = StreamResponse True 200 (Some ([line_tool], StreamDone))"
    by (simp add: env_residual_def)
  have st3: "after_stream demo_platform env_residual (isOllama demo_config) demo_callbacks s [line_tool]
      = handle_residual demo_platform True demo_callbacks
          (s\<lparr>encounteredToolCall := False, streamedCharsThisRound := 0\<rparr>) line_tool" for s
    by (simp add: after_stream_def demo_residual_read isOllama_demo del: read_chunks.simps)
  have "JSON_parse_record demo_platform line_tool
             = Some (empty_record\<lparr>r_message_tool_calls := Some [layout_call (ArgObject kitchen_args)]\<rparr>)"
    by (simp add: demo_platform_def parse_line_tool)
  then have enc: "encounteredToolCall (handle_residual demo_platform True demo_callbacks s line_tool)" for s
    using handle_residual_tool_call[OF line_tool_not_blank _ tool_calls_demo] by blast
  have a: "fst (run_round demo_platform env_residual demo_config demo_callbacks None 0 ?st) = ToolCallRound"
    using run_round_stream_done[OF 1, of demo_platform demo_callbacks] enc
    by (simp add: Let_def st3)
  have 2: "llm_stream demo_env (length (trace ?st))
             (stream_request demo_config None (haveToolResults ?st \<or> llm_disable_tools demo_env 0)
                (rollingMessages ?st))
           = StreamResponse True 200 (Some ([], StreamDone))"
    by (simp add: demo_env_def stream_request_def)
  have b: "fst (run_round demo_platform demo_env demo_config demo_callbacks None 0 ?st) \<noteq> ToolCallRound"
    using run_round_stream_done[OF 2, of demo_platform demo_callbacks]
    by (simp add: Let_def after_stream_no_chunks non_stream_fallback_outcome)
  have c: "(0::nat) < maxRounds" by (simp add: maxRounds_def)
  show ?thesis
    using at_most_three_rounds[of demo_platform demo_env demo_config demo_callbacks demo_messages None
        None ?st 0]
      at_most_three_rounds[of demo_platform env_residual demo_config demo_callbacks demo_messages None
        None ?st 0] a b c
    by simp
qed

section \<open>A tool result, once held, stays\<close>

lemma execute_tool_call_have:
  "haveToolResults s \<Longrightarrow> haveToolResults (execute_tool_call P E cb s tc)"
  by (auto simp: execute_tool_call_def Let_def case_prod_unfold split: option.splits)

lemma foldl_execute_have:
  "haveToolResults s \<Longrightarrow> haveToolResults (foldl (execute_tool_call P E cb) s tcs)"
  by (induction tcs arbitrary: s) (auto intro: execute_tool_call_have)

lemma handle_line_have:
  "haveToolResults s \<Longrightarrow> haveToolResults (handle_line P E isO cb s line)"
  by (auto simp: handle_line_def handle_ollama_line_def handle_openai_line_def Let_def
      split: option.splits intro!: foldl_execute_have)

lemma foldl_handle_line_have:
  "haveToolResults s \<Longrightarrow> haveToolResults (foldl (handle_line P E isO cb) s ls)"
  by (induction ls arbitrary: s) (auto intro: handle_line_have)

lemma read_chunks_have:
  "haveToolResults s \<Longrightarrow>
     haveToolResults (fst (read_chunks dec (handle_line P E isO cb) (s, buf) chunks))"
  by (induction chunks arbitrary: s buf) (auto simp: Let_def intro: foldl_handle_line_have)

lemma handle_residual_have [simp]:
  "haveToolResults (handle_residual P isO cb s buf) = haveToolResults s"
  using handle_residual_same[of s P isO cb buf] by (simp add: tool_effects_same_def)

lemma after_stream_have:
  assumes "haveToolResults s"
  shows "haveToolResults (after_stream P E isO cb s chunks)"
proof -
  let ?s0 = "s\<lparr>encounteredToolCall := False, streamedCharsThisRound := 0\<rparr>"
  have "haveToolResults (fst (read_chunks TextDecoder_decode (handle_line P E isO cb) (?s0, []) chunks))"
    using assms by (intro read_chunks_have) simp
  then show ?thesis by (simp add: after_stream_def case_prod_unfold)
qed

lemma non_stream_fallback_have [simp]:
  "haveToolResults (snd (non_stream_fallback E C cb ots sd s)) = haveToolResults s"
  using non_stream_fallback_same[of s E C cb ots sd] by (simp add: tool_effects_same_def)

lemma run_round_have:
  "haveToolResults st \<Longrightarrow> haveToolResults (snd (run_round P E C cb ots rounds st))"
  by (auto simp: run_round_cases Let_def
      split: stream_response.splits option.splits prod.splits stream_end.splits
      intro!: after_stream_have read_chunks_have)

lemma run_round_suppressed:
  assumes "haveToolResults st" and "isOllama C"
  shows "\<forall>r \<in> set (drop (length (llm_fetches (trace st)))
                     (llm_fetches (trace (snd (run_round P E C cb ots rounds st))))).
           tools_suppressed r"
  unfolding run_round_fetches
  using stream_request_suppressed[OF assms] flat_request_suppressed[OF assms]
  by (auto simp: Let_def
      split: stream_response.splits option.splits prod.splits stream_end.splits bool.splits)

section \<open>Tools are offered only until a tool result exists\<close>

text \<open>
  Claim C3. Every request of a turn that was issued after a tool result of that turn had
  been produced leaves the tool list out and sets the tool choice to \<open>none\<close>. Round
  by round: once a tool result is held, it is still held after any further round, and
  in the Ollama dialect (the only one in which tool calls are executed) every request of
  such a round, streaming or not, has the tools suppressed.
\<close>

theorem tools_suppressed_after_tool_result:
  "(\<forall>r \<in> set (llm_fetches (trace (snd (generateResponse P E C cb messages tools)))).
      after_tool_result (length messages) r \<longrightarrow> tools_suppressed r)
   \<and> (haveToolResults st \<longrightarrow> haveToolResults (snd (run_round P E C cb ots rounds st)))
   \<and> (haveToolResults st \<and> isOllama C \<longrightarrow>
        (\<forall>r \<in> set (drop (length (llm_fetches (trace st)))
                      (llm_fetches (trace (snd (run_round P E C cb ots rounds st))))).
           tools_suppressed r))"
proof (intro conjI impI)
  show "\<forall>r \<in> set (llm_fetches (trace (snd (generateResponse P E C cb messages tools)))).
      after_tool_result (length messages) r \<longrightarrow> tools_suppressed r"
    by (rule generateResponse_suppression)
next
  assume "haveToolResults st"
  then show "haveToolResults (snd (run_round P E C cb ots rounds st))"
    by (rule run_round_have)
next
  assume "haveToolResults st \<and> isOllama C"
  then show "\<forall>r \<in> set (drop (length (llm_fetches (trace st)))
                      (llm_fetches (trace (snd (run_round P E C cb ots rounds st))))).
           tools_suppressed r"
    using run_round_suppressed by blast
qed

section \<open>The sample turns, round by round\<close>

lemma line_tool_lf_ascii: "\<forall>b \<in> set (line_tool @ [10]). b < 128"
  using line_tool_chars(1) by simp

text \<open>A stream that is one line: the line is handled, the residual buffer is empty.\<close>

lemma after_stream_one_line:
  assumes "\<forall>b \<in> set (l @ [10]). b < 128" and "10 \<notin> set l" and "13 \<notin> set l"
  shows "after_stream P E isO cb s [l @ [10]]
           = handle_line P E isO cb (s\<lparr>encounteredToolCall := False, streamedCharsThisRound := 0\<rparr>) l"
  by (simp add: after_stream_def TextDecoder_decode_ascii[OF assms(1)]
      split_lines_one_line[OF assms(2,3)] handle_residual_def)

text \<open>A record that carries tool calls and nothing else.\<close>

lemma handle_tool_call_record:
  assumes "JSON_parse_record P l = Some (empty_record\<lparr>r_message_tool_calls := Some tcs\<rparr>)"
    and "tcs \<noteq> []"
  shows "handle_line P E True cb s l
           = foldl (execute_tool_call P E cb) (s\<lparr>encounteredToolCall := True\<rparr>) tcs"
  using assms
  by (simp add: handle_line_def handle_ollama_line_def Let_def empty_record_def tool_calls_of_def)

text \<open>A layout call that the backend answers at once with a body.\<close>

lemma execute_layout_call_ok:
  assumes "backend E (length (trace s)) (layout_payload P args) = BackendResponse True status (Inr body)"
    and "body \<noteq> JNull"
  shows "execute_tool_call P E cb s (layout_call (ArgObject args))
           = (let s1 = emit (BackendFetch (layout_payload P args)) s;
                  s2 = (if has_onToolCall cb
                        then emit (OnToolCall (layout_call (ArgObject args)) body) s1 else s1)
              in s2\<lparr>rollingMessages := rollingMessages s2 @
                        [\<lparr>rm_role = Tool, rm_content = JSON_stringify P body,
                          rm_name = Some (str ''generate_layout_hybrid'')\<rparr>],
                      haveToolResults := True, lastToolResult := body\<rparr>)"
  using assms
  by (simp add: execute_tool_call_def resolve_arguments_def raw_arguments_of_def layout_call_def
      run_generate_def take_body_def Let_def)

text \<open>A silent round: no chunk, then a non-streaming response without text.\<close>

lemma run_round_silent:
  assumes "llm_stream E (length (trace st))
             (stream_request C ots (haveToolResults st \<or> llm_disable_tools E rounds) (rollingMessages st))
           = StreamResponse True status (Some ([], StreamDone))"
    and "\<And>n r. llm_flat E n r = FlatResponse True 200 (Inr empty_record)"
  shows "fst (run_round P E C cb ots rounds st) = FinalRound"
    and "fullResponse (snd (run_round P E C cb ots rounds st)) = fullResponse st"
    and "tool_effects_same st (snd (run_round P E C cb ots rounds st))"
  using run_round_stream_done[OF assms(1), of P cb] assms(2)
  by (simp_all add: Let_def after_stream_no_chunks non_stream_fallback_def empty_record_def
      tool_effects_same_def backend_fetches_append tool_callbacks_append)

lemma demo_ots: "map_option (map to_ollama_tool) demo_tools \<noteq> None"
  "map_option (map to_ollama_tool) demo_tools \<noteq> Some []"
  by (simp_all add: demo_tools_def)

lemma demo_stream_request_tools:
  "req_tools (stream_request demo_config (map_option (map to_ollama_tool) demo_tools) sd msgs) = None
     \<longleftrightarrow> sd"
  by (simp add: stream_request_def isOllama_demo demo_tools_def)

lemma initial_facts [simp]:
  "haveToolResults (initial_state ms) = False" "fullResponse (initial_state ms) = []"
  "length (trace (initial_state ms)) = 2" "llm_fetches (trace (initial_state ms)) = []"
  "backend_fetches (trace (initial_state ms)) = []" "tool_callbacks (trace (initial_state ms)) = []"
  by (simp_all add: initial_state_def)

lemma tool_round1:
  assumes "\<And>n req. req_tools req \<noteq> None \<Longrightarrow>
             llm_stream E n req = StreamResponse True 200 (Some ([line_tool @ [10]], StreamDone))"
    and "\<And>n pl. backend E n pl = BackendResponse True 200 (Inr success_body)"
    and "llm_disable_tools E 0 = False"
  defines "rr \<equiv> run_round demo_platform E demo_config demo_callbacks
                   (map_option (map to_ollama_tool) demo_tools) 0 (initial_state demo_messages)"
  shows "fst rr = ToolCallRound"
    and "haveToolResults (snd rr)"
    and "lastToolResult (snd rr) = success_body"
    and "fullResponse (snd rr) = []"
    and "rollingMessages (snd rr)
           = rollingMessages (initial_state demo_messages) @ [demo_tool_message success_body, nudge]"
    and "tool_callbacks (trace (snd rr)) = [(layout_call (ArgObject kitchen_args), success_body)]"
    and "backend_fetches (trace (snd rr)) = [layout_payload demo_platform kitchen_args]"
    and "llm_fetches (trace (snd rr))
           = [stream_request demo_config (map_option (map to_ollama_tool) demo_tools) False
                (rollingMessages (initial_state demo_messages))]"
proof -
  let ?ots = "map_option (map to_ollama_tool) demo_tools"
  let ?st = "initial_state demo_messages"
  let ?req = "stream_request demo_config ?ots False (rollingMessages ?st)"
  let ?s0 = "(emit (LLMFetch ?req) ?st)\<lparr>encounteredToolCall := False, streamedCharsThisRound := 0\<rparr>"
  have 1: "llm_stream E (length (trace ?st))
             (stream_request demo_config ?ots (haveToolResults ?st \<or> llm_disable_tools E 0)
                (rollingMessages ?st))
           = StreamResponse True 200 (Some ([line_tool @ [10]], StreamDone))"
    by (rule assms(1)) (simp add: assms(3) demo_stream_request_tools)
  have p: "JSON_parse_record demo_platform line_tool
             = Some (empty_record\<lparr>r_message_tool_calls := Some [layout_call (ArgObject kitchen_args)]\<rparr>)"
    by (simp add: demo_platform_def parse_line_tool)
  note b = assms(2)
  have nn: "success_body \<noteq> JNull" by (simp add: success_body_def)
  have st3: "after_stream demo_platform E (isOllama demo_config) demo_callbacks
               (emit (LLMFetch ?req) ?st) [line_tool @ [10]]
             = execute_tool_call demo_platform E demo_callbacks (?s0\<lparr>encounteredToolCall := True\<rparr>)
                 (layout_call (ArgObject kitchen_args))"
    by (simp add: after_stream_one_line[OF line_tool_lf_ascii line_tool_chars(2,3)] isOllama_demo
        handle_tool_call_record[OF p])
  have rr: "rr = (let st3 = execute_tool_call demo_platform E demo_callbacks
                      (?s0\<lparr>encounteredToolCall := True\<rparr>) (layout_call (ArgObject kitchen_args))
                  in (ToolCallRound, st3\<lparr>rollingMessages := rollingMessages st3 @ [nudge]\<rparr>))"
    unfolding rr_def using run_round_stream_done[OF 1, of demo_platform demo_callbacks]
    by (simp add: Let_def st3 assms(3))
  show "fst rr = ToolCallRound" by (simp add: rr Let_def)
  show "haveToolResults (snd rr)"
    by (simp add: rr Let_def execute_layout_call_ok[OF b nn])
  show "lastToolResult (snd rr) = success_body"
    by (simp add: rr Let_def execute_layout_call_ok[OF b nn])
  show "fullResponse (snd rr) = []"
    by (simp add: rr Let_def)
  show "rollingMessages (snd rr)
           = rollingMessages (initial_state demo_messages) @ [demo_tool_message success_body, nudge]"
    by (simp add: rr Let_def execute_layout_call_ok[OF b nn] demo_tool_message_def demo_callbacks_def)
  show "tool_callbacks (trace (snd rr)) = [(layout_call (ArgObject kitchen_args), success_body)]"
    by (simp add: rr Let_def execute_layout_call_ok[OF b nn] demo_callbacks_def
        tool_callbacks_append)
  show "backend_fetches (trace (snd rr)) = [layout_payload demo_platform kitchen_args]"
    by (simp add: rr Let_def execute_layout_call_ok[OF b nn] demo_callbacks_def
        backend_fetches_append)
  show "llm_fetches (trace (snd rr)) = [?req]"
    by (simp add: rr Let_def llm_fetches_append)
qed

lemma demo_round1:
  defines "rr \<equiv> run_round demo_platform demo_env demo_config demo_callbacks
                   (map_option (map to_ollama_tool) demo_tools) 0 (initial_state demo_messages)"
  shows "fst rr = ToolCallRound"
    and "haveToolResults (snd rr)"
    and "lastToolResult (snd rr) = success_body"
    and "fullResponse (snd rr) = []"
    and "rollingMessages (snd rr)
           = rollingMessages (initial_state demo_messages) @ [demo_tool_message success_body, nudge]"
    and "tool_callbacks (trace (snd rr)) = [(layout_call (ArgObject kitchen_args), success_body)]"
    and "backend_fetches (trace (snd rr)) = [layout_payload demo_platform kitchen_args]"
proof -
  have e: "\<And>n req. req_tools req \<noteq> None \<Longrightarrow>
             llm_stream demo_env n req = StreamResponse True 200 (Some ([line_tool @ [10]], StreamDone))"
    "\<And>n pl. backend demo_env n pl = BackendResponse True 200 (Inr success_body)"
    "llm_disable_tools demo_env 0 = False"
    by (simp_all add: demo_env_def)
  note r = tool_round1[OF e, folded rr_def]
  show "fst rr = ToolCallRound" by (rule r)
  show "haveToolResults (snd rr)" by (rule r)
  show "lastToolResult (snd rr) = success_body" by (rule r)
  show "fullResponse (snd rr) = []" by (rule r)
  show "rollingMessages (snd rr)
           = rollingMessages (initial_state demo_messages) @ [demo_tool_message success_body, nudge]"
    by (rule r)
  show "tool_callbacks (trace (snd rr)) = [(layout_call (ArgObject kitchen_args), success_body)]"
    by (rule r)
  show "backend_fetches (trace (snd rr)) = [layout_payload demo_platform kitchen_args]" by (rule r)
qed

lemma demo_round2:
  assumes "haveToolResults st"
  shows "fst (run_round demo_platform demo_env demo_config demo_callbacks
                (map_option (map to_ollama_tool) demo_tools) rounds st) = FinalRound"
    and "fullResponse (snd (run_round demo_platform demo_env demo_config demo_callbacks
                (map_option (map to_ollama_tool) demo_tools) rounds st)) = fullResponse st"
    and "tool_effects_same st (snd (run_round demo_platform demo_env demo_config demo_callbacks
                (map_option (map to_ollama_tool) demo_tools) rounds st))"
proof -
  have 1: "llm_stream demo_env (length (trace st))
             (stream_request demo_config (map_option (map to_ollama_tool) demo_tools)
                (haveToolResults st \<or> llm_disable_tools demo_env rounds) (rollingMessages st))
           = StreamResponse True 200 (Some ([], StreamDone))"
    using assms by (simp add: demo_env_def demo_stream_request_tools)
  have 2: "\<And>n r. llm_flat demo_env n r = FlatResponse True 200 (Inr empty_record)"
    by (simp add: demo_env_def)
  show "fst (run_round demo_platform demo_env demo_config demo_callbacks
                (map_option (map to_ollama_tool) demo_tools) rounds st) = FinalRound"
    and "fullResponse (snd (run_round demo_platform demo_env demo_config demo_callbacks
                (map_option (map to_ollama_tool) demo_tools) rounds st)) = fullResponse st"
    and "tool_effects_same st (snd (run_round demo_platform demo_env demo_config demo_callbacks
                (map_option (map to_ollama_tool) demo_tools) rounds st))"
    using run_round_silent[OF 1 2, of demo_platform demo_callbacks] by simp_all
qed

lemma demo_loop:
  defines "st1 \<equiv> snd (run_round demo_platform demo_env demo_config demo_callbacks
                   (map_option (map to_ollama_tool) demo_tools) 0 (initial_state demo_messages))"
  shows "round_loop demo_platform demo_env demo_config demo_callbacks
           (map_option (map to_ollama_tool) demo_tools) 0 (initial_state demo_messages)
         = (None, 1, snd (run_round demo_platform demo_env demo_config demo_callbacks
                   (map_option (map to_ollama_tool) demo_tools) 1 st1))"
proof -
  let ?ots = "map_option (map to_ollama_tool) demo_tools"
  have a: "round_loop demo_platform demo_env demo_config demo_callbacks ?ots 0 (initial_state demo_messages)
        = round_loop demo_platform demo_env demo_config demo_callbacks ?ots 1 st1"
    using demo_round1(1)
    by (simp add: round_loop_step maxRounds_def st1_def case_prod_unfold)
  have "fst (run_round demo_platform demo_env demo_config demo_callbacks ?ots 1 st1) = FinalRound"
    using demo_round2(1)[OF demo_round1(2)] by (simp add: st1_def)
  then have "round_loop demo_platform demo_env demo_config demo_callbacks ?ots 1 st1
        = (None, 1, snd (run_round demo_platform demo_env demo_config demo_callbacks ?ots 1 st1))"
    by (simp add: round_loop_step maxRounds_def case_prod_unfold)
  then show ?thesis using a by simp
qed

text \<open>
  Claim C3 on the sample turn: the first round calls the tool, and the request of the
  second round, which carries the tool message, has the tools suppressed.
\<close>

theorem tools_suppressed_after_tool_result_witness:
  "haveToolResults (snd (run_round demo_platform demo_env demo_config demo_callbacks
       (map_option (map to_ollama_tool) demo_tools) 0 (initial_state demo_messages)))
   \<and> isOllama demo_config
   \<and> haveToolResults (snd (run_round demo_platform demo_env demo_config demo_callbacks
       (map_option (map to_ollama_tool) demo_tools) 1
       (snd (run_round demo_platform demo_env demo_config demo_callbacks
          (map_option (map to_ollama_tool) demo_tools) 0 (initial_state demo_messages)))))
   \<and> stream_request demo_config (map_option (map to_ollama_tool) demo_tools) True
         (rollingMessages (initial_state demo_messages) @ [demo_tool_message success_body, nudge])
       \<in> set (llm_fetches (trace (snd (generateResponse demo_platform demo_env demo_config
                demo_callbacks demo_messages demo_tools))))
   \<and> after_tool_result (length demo_messages)
        (stream_request demo_config (map_option (map to_ollama_tool) demo_tools) True
           (rollingMessages (initial_state demo_messages) @ [demo_tool_message success_body, nudge]))
   \<and> tools_suppressed
        (stream_request demo_config (map_option (map to_ollama_tool) demo_tools) True
           (rollingMessages (initial_state demo_messages) @ [demo_tool_message success_body, nudge]))"
proof -
  let ?ots = "map_option (map to_ollama_tool) demo_tools"
  let ?st1 = "snd (run_round demo_platform demo_env demo_config demo_callbacks ?ots 0
                (initial_state demo_messages))"
  let ?r2 = "stream_request demo_config ?ots True
               (rollingMessages (initial_state demo_messages) @ [demo_tool_message success_body, nudge])"
  note t = tools_suppressed_after_tool_result[of demo_platform demo_env demo_config demo_callbacks
      demo_messages demo_tools ?st1 ?ots 1]
  have mem: "?r2 \<in> set (llm_fetches (trace (snd (generateResponse demo_platform demo_env demo_config
                demo_callbacks demo_messages demo_tools))))"
  proof -
    have "llm_fetches (trace (snd (run_round demo_platform demo_env demo_config demo_callbacks ?ots 1 ?st1)))
            = llm_fetches (trace ?st1) @
                (?r2 # (case llm_stream demo_env (length (trace ?st1)) ?r2 of
                   StreamResponse True status (Some (chunks, StreamDone)) \<Rightarrow>
                     let st3 = after_stream demo_platform demo_env (isOllama demo_config) demo_callbacks
                                 (emit (LLMFetch ?r2) ?st1) chunks
                     in if streamedCharsThisRound st3 = 0 \<and> \<not> encounteredToolCall st3
                        then [flat_request demo_config ?ots True (rollingMessages st3)] else []
                 | _ \<Rightarrow> []))"
      using run_round_fetches[of demo_platform demo_env demo_config demo_callbacks ?ots 1 ?st1]
      by (simp add: Let_def demo_round1)
    then show ?thesis
      by (simp only: generateResponse_trace_fetches demo_loop snd_conv) simp
  qed
  have after: "after_tool_result (length demo_messages) ?r2"
    by (simp add: after_tool_result_def stream_request_def initial_state_def demo_messages_def
        demo_tool_message_def)
  show ?thesis
    using t mem after demo_round1(2) isOllama_demo by blast
qed

section \<open>A silent round is retried once\<close>




section \<open>Malformed tool arguments are skipped\<close>

text \<open>
  Claim C6, as amended. A tool call met in a record inside the read loop whose arguments
  are a string that \<open>JSON.parse\<close> rejects is skipped: the failure is logged as
  \<open>ToolArgsParseError\<close> and nothing else happens for it (no backend request, no
  callback, no tool message, no tool result). The loop over the tool calls of the record
  goes on, with the calls before it and after it handled as they would be without it. No
  exception leaves the round: the record counts as one with a tool call, and a round
  whose stream ends after a tool call was met is a tool-call round.
\<close>

theorem malformed_tool_arguments_skipped:
  assumes "raw_arguments_of toolCall = ArgString s" and "JSON_parse_args P s = None"
  shows "execute_tool_call P E cb st toolCall = emit (Console ToolArgsParseError) st
         \<and> foldl (execute_tool_call P E cb) st (before @ toolCall # rest)
             = foldl (execute_tool_call P E cb)
                 (emit (Console ToolArgsParseError) (foldl (execute_tool_call P E cb) st before)) rest
         \<and> (JSON_parse_record P line = Some parsed \<and> toolCall \<in> set (tool_calls_of parsed)
              \<longrightarrow> encounteredToolCall (handle_line P E True cb st line))
         \<and> (llm_stream E (length (trace st))
               (stream_request C ots (haveToolResults st \<or> llm_disable_tools E rounds) (rollingMessages st))
             = StreamResponse True status (Some (chunks, StreamDone))
             \<and> encounteredToolCall (after_stream P E (isOllama C) cb
                   (emit (LLMFetch (stream_request C ots (haveToolResults st \<or> llm_disable_tools E rounds)
                      (rollingMessages st))) st) chunks)
              \<longrightarrow> fst (run_round P E C cb ots rounds st) = ToolCallRound)"
proof -
  have ex: "execute_tool_call P E cb st' toolCall = emit (Console ToolArgsParseError) st'" for st'
    using assms by (simp add: execute_tool_call_def resolve_arguments_def)
  have 3: "encounteredToolCall (handle_line P E True cb st line)"
    if "JSON_parse_record P line = Some parsed \<and> toolCall \<in> set (tool_calls_of parsed)"
  proof -
    have "tool_calls_of parsed \<noteq> []" using that by auto
    then show ?thesis using that by (auto simp: handle_line_def handle_ollama_line_encountered)
  qed
  have 4: "fst (run_round P E C cb ots rounds st) = ToolCallRound"
    if "llm_stream E (length (trace st))
               (stream_request C ots (haveToolResults st \<or> llm_disable_tools E rounds) (rollingMessages st))
             = StreamResponse True status (Some (chunks, StreamDone))
             \<and> encounteredToolCall (after_stream P E (isOllama C) cb
                   (emit (LLMFetch (stream_request C ots (haveToolResults st \<or> llm_disable_tools E rounds)
                      (rollingMessages st))) st) chunks)"
    using that run_round_stream_done[of E st C ots rounds status chunks P cb] by (simp add: Let_def)
  show ?thesis
    using 3 4 by (simp add: ex)
qed

lemma bad_call_raw: "raw_arguments_of bad_call = ArgString (str ''{rooms'')"
  by (simp add: bad_call_def layout_call_def raw_arguments_of_def)

lemma bad_call_parse: "JSON_parse_args demo_platform (str ''{rooms'') = None"
  by (simp add: demo_platform_def str_def)

lemma line_bad_args_chars:
  "\<forall>b \<in> set (line_bad_args @ [10]). b < 128" "10 \<notin> set line_bad_args" "13 \<notin> set line_bad_args"
  "\<forall>b \<in> set line_bad_args. b < 128" "123 \<in> set line_bad_args"
  by (simp_all add: line_bad_args_def str_def)

lemma parse_line_bad_args:
  "JSON_parse_record demo_platform line_bad_args
     = Some (empty_record\<lparr>r_message_tool_calls := Some [bad_call]\<rparr>)"
  by (simp add: demo_platform_def demo_parse_record_def bad_call_def)
     (simp add: line_tool_def line_bad_args_def str_def)

lemma residual_read:
  assumes "\<forall>b \<in> set l. b < 128" and "10 \<notin> set l"
  shows "read_chunks TextDecoder_decode h (s, []) [l] = (s, l)"
  by (simp add: TextDecoder_decode_ascii[OF assms(1)] split_lines_no_lf[OF assms(2)])

lemma console_events_initial [simp]: "console_events (trace (initial_state ms)) = []"
  by (simp add: initial_state_def)

text \<open>The amended claim C6 on the call whose argument string is \<open>{rooms\<close>: alone, twice
  in a row, and as the only record of a stream.\<close>

theorem malformed_tool_arguments_skipped_witness:
  "execute_tool_call demo_platform env_bad_args demo_callbacks (initial_state demo_messages) bad_call
     = emit (Console ToolArgsParseError) (initial_state demo_messages)
   \<and> foldl (execute_tool_call demo_platform env_bad_args demo_callbacks) (initial_state demo_messages)
       [bad_call, bad_call]
     = emit (Console ToolArgsParseError) (emit (Console ToolArgsParseError) (initial_state demo_messages))
   \<and> fst (run_round demo_platform env_bad_args demo_config demo_callbacks
            (map_option (map to_ollama_tool) demo_tools) 0 (initial_state demo_messages)) = ToolCallRound
   \<and> console_events (trace (snd (run_round demo_platform env_bad_args demo_config demo_callbacks
            (map_option (map to_ollama_tool) demo_tools) 0 (initial_state demo_messages))))
        = [ToolArgsParseError]
   \<and> backend_fetches (trace (snd (run_round demo_platform env_bad_args demo_config demo_callbacks
            (map_option (map to_ollama_tool) demo_tools) 0 (initial_state demo_messages)))) = []"
proof -
  let ?ots = "map_option (map to_ollama_tool) demo_tools"
  let ?st = "initial_state demo_messages"
  let ?req = "stream_request demo_config ?ots False (rollingMessages ?st)"
  define s0 where "s0 = (emit (LLMFetch ?req) ?st)\<lparr>encounteredToolCall := False, streamedCharsThisRound := 0\<rparr>"
  note t = malformed_tool_arguments_skipped[OF bad_call_raw bad_call_parse]
  have ex: "execute_tool_call demo_platform env_bad_args demo_callbacks s bad_call
              = emit (Console ToolArgsParseError) s" for s
    using t[of env_bad_args demo_callbacks s] by simp
  have fo: "foldl (execute_tool_call demo_platform env_bad_args demo_callbacks) ?st [bad_call, bad_call]
     = emit (Console ToolArgsParseError) (emit (Console ToolArgsParseError) ?st)"
    using t[of env_bad_args demo_callbacks ?st "[bad_call]" "[]"] by (simp add: ex)
  have 1: "llm_stream env_bad_args (length (trace ?st))
             (stream_request demo_config ?ots (haveToolResults ?st \<or> llm_disable_tools env_bad_args 0)
                (rollingMessages ?st))
           = StreamResponse True 200 (Some ([line_bad_args @ [10]], StreamDone))"
    by (simp add: env_bad_args_def)
  have d: "llm_disable_tools env_bad_args 0 = False" by (simp add: env_bad_args_def)
  have st3: "after_stream demo_platform env_bad_args (isOllama demo_config) demo_callbacks
               (emit (LLMFetch ?req) ?st) [line_bad_args @ [10]]
             = emit (Console ToolArgsParseError) (s0\<lparr>encounteredToolCall := True\<rparr>)"
    unfolding s0_def
    by (simp add: after_stream_one_line[OF line_bad_args_chars(1-3)] isOllama_demo
        handle_tool_call_record[OF parse_line_bad_args] ex)
  have enc: "encounteredToolCall (after_stream demo_platform env_bad_args (isOllama demo_config)
               demo_callbacks (emit (LLMFetch ?req) ?st) [line_bad_args @ [10]])"
    by (simp add: st3)
  have out: "fst (run_round demo_platform env_bad_args demo_config demo_callbacks ?ots 0 ?st) = ToolCallRound"
    using t[of env_bad_args demo_callbacks ?st "[]" "[]" line_bad_args "empty_record" demo_config ?ots 0
        200 "[line_bad_args @ [10]]"] 1 enc
    by (simp add: d)
  have rr: "snd (run_round demo_platform env_bad_args demo_config demo_callbacks ?ots 0 ?st)
              = (emit (Console ToolArgsParseError) (s0\<lparr>encounteredToolCall := True\<rparr>))
                  \<lparr>rollingMessages := rollingMessages s0 @ [nudge]\<rparr>"
    using run_round_stream_done[OF 1, of demo_platform demo_callbacks]
    by (simp add: Let_def st3 d)
  have c: "console_events (trace (snd (run_round demo_platform env_bad_args demo_config demo_callbacks
            ?ots 0 ?st))) = [ToolArgsParseError]"
    by (simp add: rr s0_def console_events_append)
  have b: "backend_fetches (trace (snd (run_round demo_platform env_bad_args demo_config demo_callbacks
            ?ots 0 ?st))) = []"
    by (simp add: rr s0_def backend_fetches_append)
  show ?thesis
    using ex[of ?st] fo out c b by simp
qed

lemma execute_empty_args_demo:
  "backend_fetches (trace (execute_tool_call demo_platform demo_env demo_callbacks
      (initial_state demo_messages) (layout_call (ArgObject empty_args))))
   = [layout_payload demo_platform empty_args]"
  by (simp add: execute_tool_call_def resolve_arguments_def raw_arguments_of_def layout_call_def
      run_generate_def Let_def demo_env_def take_body_def success_body_def demo_callbacks_def
      backend_fetches_append)

text \<open>
  Claim C6 as stated fails. Inside the read loop the call with the argument string
  \<open>{rooms\<close> reaches no backend request, whereas the same call with an empty argument
  structure sends one. When the record with that call is what is left in the buffer at
  the end of the stream, the call is detected, no request is sent for it either, and
  nothing is logged.
\<close>

theorem malformed_arguments_dispatched_counterexample:
  "backend_fetches (trace (execute_tool_call demo_platform demo_env demo_callbacks
      (initial_state demo_messages) bad_call)) = []
   \<and> backend_fetches (trace (execute_tool_call demo_platform demo_env demo_callbacks
      (initial_state demo_messages) (layout_call (ArgObject empty_args))))
     = [layout_payload demo_platform empty_args]
   \<and> fst (run_round demo_platform env_residual_bad_args demo_config demo_callbacks
            (map_option (map to_ollama_tool) demo_tools) 0 (initial_state demo_messages)) = ToolCallRound
   \<and> console_events (trace (snd (run_round demo_platform env_residual_bad_args demo_config demo_callbacks
            (map_option (map to_ollama_tool) demo_tools) 0 (initial_state demo_messages)))) = []
   \<and> backend_fetches (trace (snd (run_round demo_platform env_residual_bad_args demo_config
            demo_callbacks (map_option (map to_ollama_tool) demo_tools) 0 (initial_state demo_messages))))
        = []"
proof -
  let ?ots = "map_option (map to_ollama_tool) demo_tools"
  let ?st = "initial_state demo_messages"
  let ?req = "stream_request demo_config ?ots False (rollingMessages ?st)"
  define s0 where "s0 = (emit (LLMFetch ?req) ?st)\<lparr>encounteredToolCall := False, streamedCharsThisRound := 0\<rparr>"
  define s3 where "s3 = handle_residual demo_platform True demo_callbacks s0 line_bad_args"
  have "execute_tool_call demo_platform demo_env demo_callbacks ?st bad_call
     = emit (Console ToolArgsParseError) ?st"
    by (simp add: execute_tool_call_def resolve_arguments_def bad_call_raw bad_call_parse)
  then have a: "backend_fetches (trace (execute_tool_call demo_platform demo_env demo_callbacks ?st bad_call)) = []"
    by (simp add: backend_fetches_append)
  have 1: "llm_stream env_residual_bad_args (length (trace ?st))
             (stream_request demo_config ?ots
                (haveToolResults ?st \<or> llm_disable_tools env_residual_bad_args 0) (rollingMessages ?st))
           = StreamResponse True 200 (Some ([line_bad_args], StreamDone))"
    by (simp add: env_residual_bad_args_def)
  have d: "llm_disable_tools env_residual_bad_args 0 = False" by (simp add: env_residual_bad_args_def)
  have st3: "after_stream demo_platform env_residual_bad_args (isOllama demo_config) demo_callbacks
               (emit (LLMFetch ?req) ?st) [line_bad_args] = s3"
    unfolding s3_def s0_def
    by (simp add: after_stream_def residual_read[OF line_bad_args_chars(4,2)] isOllama_demo
        del: read_chunks.simps)
  have nb: "trim line_bad_args \<noteq> []"
    by (rule not_blank_intro[OF line_bad_args_chars(5)])
       (simp add: is_white_space_def is_line_terminator_def)
  have tc: "tool_calls_of (empty_record\<lparr>r_message_tool_calls := Some [bad_call]\<rparr>) \<noteq> []"
    by (simp add: tool_calls_of_def empty_record_def)
  have enc: "encounteredToolCall s3"
    unfolding s3_def by (rule handle_residual_tool_call[OF nb parse_line_bad_args tc])
  have same: "tool_effects_same s0 s3" "console_events (trace s3) = console_events (trace s0)"
    unfolding s3_def by simp_all
  have rr: "run_round demo_platform env_residual_bad_args demo_config demo_callbacks ?ots 0 ?st
              = (ToolCallRound, s3\<lparr>rollingMessages := rollingMessages s3 @ [nudge]\<rparr>)"
    using run_round_stream_done[OF 1, of demo_platform demo_callbacks] enc
    by (simp add: Let_def st3 d)
  have c: "console_events (trace s3) = []" "backend_fetches (trace s3) = []"
    using same by (simp_all add: tool_effects_same_def s0_def console_events_append backend_fetches_append)
  show ?thesis
    using a by (simp add: rr c execute_empty_args_demo)
qed

section \<open>A failed streaming request fails the turn\<close>

text \<open>
  Claim C5, as amended. Take any round of a turn, first or later, and let \<open>st\<close> be the
  state in which it begins. If the streaming request of that round is answered with a
  status that is not ok, the turn fails there: \<open>generateResponse\<close> throws the error
  \<open>Server responded with <status>\<close> to its caller, and after the request it does
  nothing but set that error message and clear the loading flag. No request follows, so
  nothing is retried.
\<close>

theorem non_2xx_stream_status_fails_turn:
  assumes "(rounds, st) \<in> set (round_starts P E C cb (map_option (map to_ollama_tool) tools) 0
                                 (initial_state messages))"
    and "request = stream_request C (map_option (map to_ollama_tool) tools)
                     (haveToolResults st \<or> llm_disable_tools E rounds) (rollingMessages st)"
    and "llm_stream E (length (trace st)) request = StreamResponse False status body"
  shows "generateResponse P E C cb messages tools =
           (Inl (ServerResponded status),
            st\<lparr>trace := trace st @
                  [LLMFetch request,
                   SetError (Some (str ''Server responded with '' @ show_nat status)),
                   SetIsLoading False]\<rparr>)"
proof -
  let ?ots = "map_option (map to_ollama_tool) tools"
  have lt: "rounds < maxRounds" using assms(1) by (rule round_starts_less)
  have "run_round P E C cb ?ots rounds st = (Thrown (ServerResponded status), emit (LLMFetch request) st)"
    using run_round_not_ok[of E st C ?ots rounds status body P cb] assms(2,3) by simp
  then have "round_loop P E C cb ?ots rounds st
               = (Some (ServerResponded status), rounds, emit (LLMFetch request) st)"
    using lt by (simp add: round_loop_step)
  then have "round_loop P E C cb ?ots 0 (initial_state messages)
               = (Some (ServerResponded status), rounds, emit (LLMFetch request) st)"
    using round_starts_loop[OF assms(1)] by simp
  then show ?thesis
    by (simp add: generateResponse_def error_message_def emit_def)
qed

text \<open>The amended claim C5 on a turn whose second round is answered with 503, after a first
  round in which the tool was called.\<close>

theorem non_2xx_stream_status_fails_turn_witness:
  "generateResponse demo_platform env_late_503 demo_config demo_callbacks demo_messages demo_tools =
     (Inl (ServerResponded 503),
      (snd (run_round demo_platform env_late_503 demo_config demo_callbacks
              (map_option (map to_ollama_tool) demo_tools) 0 (initial_state demo_messages)))
        \<lparr>trace := trace (snd (run_round demo_platform env_late_503 demo_config demo_callbacks
                      (map_option (map to_ollama_tool) demo_tools) 0 (initial_state demo_messages))) @
            [LLMFetch (stream_request demo_config (map_option (map to_ollama_tool) demo_tools) True
                         (rollingMessages (initial_state demo_messages)
                            @ [demo_tool_message success_body, nudge])),
             SetError (Some (str ''Server responded with 503'')),
             SetIsLoading False]\<rparr>)
   \<and> llm_fetches (trace (snd (generateResponse demo_platform env_late_503 demo_config demo_callbacks
        demo_messages demo_tools)))
     = [stream_request demo_config (map_option (map to_ollama_tool) demo_tools) False
          (rollingMessages (initial_state demo_messages)),
        stream_request demo_config (map_option (map to_ollama_tool) demo_tools) True
          (rollingMessages (initial_state demo_messages) @ [demo_tool_message success_body, nudge])]"
proof -
  let ?ots = "map_option (map to_ollama_tool) demo_tools"
  define st1 where "st1 = snd (run_round demo_platform env_late_503 demo_config demo_callbacks ?ots 0
                (initial_state demo_messages))"
  have e: "\<And>n req. req_tools req \<noteq> None \<Longrightarrow>
             llm_stream env_late_503 n req = StreamResponse True 200 (Some ([line_tool @ [10]], StreamDone))"
    "\<And>n pl. backend env_late_503 n pl = BackendResponse True 200 (Inr success_body)"
    "llm_disable_tools env_late_503 0 = False"
    by (simp_all add: env_late_503_def)
  note r1 = tool_round1[OF e, folded st1_def]
  have mem: "(1, st1) \<in> set (round_starts demo_platform env_late_503 demo_config demo_callbacks ?ots 0
                               (initial_state demo_messages))"
    using round_starts_next[of 0 demo_platform env_late_503 demo_config demo_callbacks ?ots
        "initial_state demo_messages"] tool_round1(1)[OF e]
    by (simp add: maxRounds_def st1_def)
  have req: "stream_request demo_config ?ots True (rollingMessages (initial_state demo_messages)
                            @ [demo_tool_message success_body, nudge])
             = stream_request demo_config ?ots (haveToolResults st1 \<or> llm_disable_tools env_late_503 1)
                 (rollingMessages st1)"
    by (simp add: r1)
  have resp: "llm_stream env_late_503 (length (trace st1))
                (stream_request demo_config ?ots True (rollingMessages (initial_state demo_messages)
                            @ [demo_tool_message success_body, nudge]))
              = StreamResponse False 503 None"
    by (simp add: env_late_503_def demo_stream_request_tools)
  have sn: "str ''Server responded with '' @ show_nat 503 = str ''Server responded with 503''"
    by (simp add: str_def)
  note t = non_2xx_stream_status_fails_turn[OF mem req resp, unfolded sn]
  show ?thesis
    by (simp only: t snd_conv st1_def[symmetric]) (simp add: llm_fetches_append r1)
qed

text \<open>
  Claim C5 as stated fails: on a server that answers 500, \<open>generateResponse\<close> throws
  to its caller after a single request; nothing is retried.
\<close>

theorem non_2xx_retry_counterexample:
  "fst (generateResponse demo_platform env_500 demo_config demo_callbacks demo_messages demo_tools)
     = Inl (ServerResponded 500)
   \<and> length (llm_fetches (trace (snd (generateResponse demo_platform env_500 demo_config demo_callbacks
         demo_messages demo_tools)))) = 1"
proof -
  let ?ots = "map_option (map to_ollama_tool) demo_tools"
  let ?st = "initial_state demo_messages"
  let ?req = "stream_request demo_config ?ots False (rollingMessages ?st)"
  have rr: "run_round demo_platform env_500 demo_config demo_callbacks ?ots 0 ?st
              = (Thrown (ServerResponded 500), emit (LLMFetch ?req) ?st)"
    by (simp add: run_round_cases Let_def env_500_def initial_state_def)
  have rl: "round_loop demo_platform env_500 demo_config demo_callbacks ?ots 0 ?st
              = (Some (ServerResponded 500), 0, emit (LLMFetch ?req) ?st)"
    by (simp add: round_loop_step maxRounds_def rr)
  show ?thesis
    by (simp add: generateResponse_def rl llm_fetches_append)
qed

section \<open>The synthesized summary\<close>

lemma synthesize_summary_not_empty: "synthesize_summary P r \<noteq> []"
  by (simp add: synthesize_summary_def Let_def str_def)

text \<open>
  When the loop ends without an exception, with an empty response text, a tool result
  held, and the last tool result a JSON object or array, \<open>generateResponse\<close> returns
  the sanitized summary synthesized from that result, and that text is not blank.
\<close>

lemma summary_synthesized:
  assumes "round_loop P E C cb (map_option (map to_ollama_tool) tools) 0 (initial_state messages)
           = (None, rounds, st)"
    and "fullResponse st = []"
    and "haveToolResults st"
    and "lastToolResult st = JObj kvs \<or> lastToolResult st = JArr xs"
  shows "fst (generateResponse P E C cb messages tools)
           = Inr (cleanThinkingContent (synthesize_summary P (lastToolResult st)))"
    and "\<not> blank (cleanThinkingContent (synthesize_summary P (lastToolResult st)))"
proof -
  have "post_loop P st = st\<lparr>fullResponse := synthesize_summary P (lastToolResult st)\<rparr>"
    using assms(2-4) by (auto simp: post_loop_def)
  then show "fst (generateResponse P E C cb messages tools)
           = Inr (cleanThinkingContent (synthesize_summary P (lastToolResult st)))"
    by (simp add: generateResponse_def assms(1))
  show "\<not> blank (cleanThinkingContent (synthesize_summary P (lastToolResult st)))"
    using cleanThinkingContent_not_blank[OF synthesize_summary_not_empty] by simp
qed

text \<open>The summary does not depend on the field \<open>solver_type\<close> of the result.\<close>

lemma synthesize_summary_solver_type:
  assumes "str ''solver_type'' \<notin> fst ` set kvs"
  shows "synthesize_summary P (JObj (kvs @ [(str ''solver_type'', v)])) = synthesize_summary P (JObj kvs)"
proof -
  have ne: "str ''rooms'' \<noteq> str ''solver_type''" "str ''score'' \<noteq> str ''solver_type''"
    "str ''solver'' \<noteq> str ''solver_type''"
    by (simp_all add: str_def)
  have "map_of (kvs @ [(str ''solver_type'', v)]) k = map_of kvs k" if "k \<noteq> str ''solver_type''" for k
    using that by (simp add: map_add_def split: option.splits)
  then show ?thesis
    using ne by (simp add: synthesize_summary_def)
qed

text \<open>A text that the sanitizer returns as it is.\<close>

lemma search_ci_think_absent:
  assumes "60 \<notin> set s"
  shows "search_ci (str ''<think>'') s = None"
  using assms
proof (induction s)
  case Nil
  then show ?case by (simp add: str_def)
next
  case (Cons c cs)
  have "\<not> starts_with_ci (str ''<think>'') (c # cs)"
    using Cons.prems by (auto simp: starts_with_ci_def str_def canon_def split: if_splits)
  then show ?case using Cons by simp
qed

lemma line_suffixes_no_start:
  "\<forall>c \<in> set s. \<not> is_line_terminator c \<Longrightarrow> line_suffixes False s = []"
  by (induction s) auto

lemma line_suffixes_one_line:
  assumes "\<forall>c \<in> set s. \<not> is_line_terminator c" and "s \<noteq> []"
  shows "line_suffixes True s = [s]"
proof (cases s)
  case Nil
  then show ?thesis using assms(2) by simp
next
  case (Cons c cs)
  then have "line_suffixes False cs = []" using assms(1) by (intro line_suffixes_no_start) simp
  then show ?thesis using assms(1) Cons by simp
qed

lemma trim_unchanged:
  assumes "s \<noteq> []" and "\<not> is_white_space (hd s)" and "\<not> is_white_space (last s)"
  shows "trim s = s"
proof -
  have 1: "dropWhile is_white_space s = s" using assms(1,2) by (cases s) auto
  obtain xs x where s: "s = xs @ [x]" using assms(1) by (cases s rule: rev_cases) auto
  then have "\<not> is_white_space x" using assms(3) by simp
  then have 2: "dropWhile is_white_space (rev s) = rev s" by (simp add: s)
  show ?thesis by (simp add: trim_def 1 2)
qed

lemma cleanThinkingContent_plain:
  assumes "60 \<notin> set s" and "\<forall>c \<in> set s. \<not> is_line_terminator c"
    and "\<forall>p \<in> set (concat thinkingPatterns). \<not> starts_with_ci p s"
    and "s \<noteq> []" and "\<not> is_white_space (hd s)" and "\<not> is_white_space (last s)"
  shows "cleanThinkingContent s = s"
proof -
  have tm: "think_match s = None"
    by (simp add: think_match_def search_ci_think_absent[OF assms(1)])
  have "\<not> looksLikeThinking s"
    using assms(3)
    by (auto simp: looksLikeThinking_def test_line_start_def line_suffixes_one_line[OF assms(2,4)]
        list_ex_iff)
  then have "think_split s = ([], s)"
    by (simp add: think_split_def tm)
  then show ?thesis
    using assms(4) by (simp add: cleanThinkingContent_def trim_unchanged[OF assms(4-6)])
qed

lemma demo_summary:
  "synthesize_summary demo_platform success_body = demo_summary_text"
proof -
  have a: "jfield (str ''rooms'') success_body = Some (JArr [JObj [(str ''id'', JStr (str ''kitchen_1''))]])"
    "jfield (str ''score'') success_body = Some (JNum 87)"
    "jfield (str ''solver'') success_body = None"
    by (simp_all add: success_body_def str_def)
  have b: "show_int 87 = str ''87''" "show_nat 1 = str ''1''"
    by (simp_all add: show_int_def str_def)
  have c: "\<lfloor>(175::rat) / 2\<rfloor> = 87" by (rule floor_unique) simp_all
  show ?thesis
    by (simp add: synthesize_summary_def a b c display_def demo_summary_text_def) (simp add: str_def)
qed

lemma demo_summary_clean: "cleanThinkingContent demo_summary_text = demo_summary_text"
proof (rule cleanThinkingContent_plain)
  show "60 \<notin> set demo_summary_text" by (simp add: demo_summary_text_def str_def)
  show "\<forall>c \<in> set demo_summary_text. \<not> is_line_terminator c"
    by (simp add: demo_summary_text_def str_def is_line_terminator_def)
  show "\<forall>p \<in> set (concat thinkingPatterns). \<not> starts_with_ci p demo_summary_text"
    by (simp add: demo_summary_text_def thinkingPatterns_def starts_with_ci_def str_def canon_def)
  show "demo_summary_text \<noteq> []" by (simp add: demo_summary_text_def str_def)
  show "\<not> is_white_space (hd demo_summary_text)"
    by (simp add: demo_summary_text_def str_def is_white_space_def is_line_terminator_def)
  show "\<not> is_white_space (last demo_summary_text)"
    by (simp add: demo_summary_text_def str_def is_white_space_def is_line_terminator_def)
qed

lemma layout_payload_solver [simp]: "p_solver_type (layout_payload P args) = str ''constraint''"
  by (simp add: layout_payload_def Let_def)

text \<open>
  Claim C1, at a turn in which generation succeeds. The model calls the tool; the only
  request the backend receives selects the constraint solver, and it is answered with a
  layout whose \<open>solver_type\<close> is \<open>constraint\<close>, which the callback receives as a
  success; the model then says nothing. The response is the synthesized summary, with
  the score and the room count, and it names the graph solver: the summary reads the
  field \<open>solver\<close> of the result, whereas the request and the response of the backend
  name the solver in \<open>solver_type\<close>.
\<close>

theorem summary_names_graph_after_constraint_solver:
  "fst (generateResponse demo_platform demo_env demo_config demo_callbacks demo_messages demo_tools)
     = Inr (str ''Generated layout using graph solver (score 87). Visualized rooms (1) have been updated. Summary: 1) Plot parsed and constraints applied; 2) Vastu potential mapping considered; 3) Rule-guided placement optimized; 4) Final vector output rendered.'')
   \<and> map p_solver_type (backend_fetches (trace (snd (generateResponse demo_platform demo_env demo_config
         demo_callbacks demo_messages demo_tools)))) = [str ''constraint'']
   \<and> map snd (tool_callbacks (trace (snd (generateResponse demo_platform demo_env demo_config
         demo_callbacks demo_messages demo_tools)))) = [success_body]
   \<and> tool_call_succeeded success_body
   \<and> jfield (str ''solver_type'') success_body = Some (JStr (str ''constraint''))
   \<and> str ''constraint'' \<noteq> str ''graph''"
proof -
  let ?ots = "map_option (map to_ollama_tool) demo_tools"
  define st1 where "st1 = snd (run_round demo_platform demo_env demo_config demo_callbacks ?ots 0
                (initial_state demo_messages))"
  define st2 where "st2 = snd (run_round demo_platform demo_env demo_config demo_callbacks ?ots 1 st1)"
  have r1: "haveToolResults st1" "lastToolResult st1 = success_body" "fullResponse st1 = []"
    "tool_callbacks (trace st1) = [(layout_call (ArgObject kitchen_args), success_body)]"
    "backend_fetches (trace st1) = [layout_payload demo_platform kitchen_args]"
    unfolding st1_def by (rule demo_round1)+
  have loop: "round_loop demo_platform demo_env demo_config demo_callbacks ?ots 0
                (initial_state demo_messages) = (None, 1, st2)"
    unfolding st2_def st1_def by (rule demo_loop)
  have same: "tool_effects_same st1 st2"
    unfolding st2_def by (rule demo_round2(3)[OF r1(1)])
  have 2: "fullResponse st2 = []"
    using demo_round2(2)[OF r1(1), of 1] r1(3) by (simp add: st2_def)
  have 3: "haveToolResults st2" "lastToolResult st2 = success_body"
    "tool_callbacks (trace st2) = [(layout_call (ArgObject kitchen_args), success_body)]"
    "backend_fetches (trace st2) = [layout_payload demo_platform kitchen_args]"
    using same r1 by (simp_all add: tool_effects_same_def)
  have post: "post_loop demo_platform st2 = st2\<lparr>fullResponse := demo_summary_text\<rparr>"
    by (simp add: post_loop_def 2 3 demo_summary) (simp add: success_body_def)
  have a: "fst (generateResponse demo_platform demo_env demo_config demo_callbacks demo_messages demo_tools)
             = Inr demo_summary_text"
    by (simp add: generateResponse_def loop post demo_summary_clean)
  have b: "backend_fetches (trace (snd (generateResponse demo_platform demo_env demo_config
         demo_callbacks demo_messages demo_tools))) = [layout_payload demo_platform kitchen_args]"
    by (simp add: generateResponse_def loop post backend_fetches_append 3)
  have c: "tool_callbacks (trace (snd (generateResponse demo_platform demo_env demo_config
         demo_callbacks demo_messages demo_tools))) = [(layout_call (ArgObject kitchen_args), success_body)]"
    by (simp add: generateResponse_def loop post tool_callbacks_append 3)
  have d: "tool_call_succeeded success_body"
    "jfield (str ''solver_type'') success_body = Some (JStr (str ''constraint''))"
    "str ''constraint'' \<noteq> str ''graph''"
    by (simp_all add: tool_call_succeeded_def success_body_def str_def)
  show ?thesis
    using a d by (simp add: b c) (simp add: demo_summary_text_def)
qed

section \<open>Chunk boundaries\<close>

lemma split_lines_not_Nil [simp]: "split_lines xs \<noteq> []"
  by (induction xs rule: split_lines.induct) (auto simp: extend_first_def split: list.splits)

lemma split_lines_Cons:
  "c \<noteq> 10 \<Longrightarrow> \<not> (c = 13 \<and> xs \<noteq> [] \<and> hd xs = 10) \<Longrightarrow>
     split_lines (c # xs) = extend_first c (split_lines xs)"
  by (cases xs) (auto simp: extend_first_def)

lemma split_lines_lf: "split_lines (10 # xs) = [] # split_lines xs"
  by (cases xs) auto

lemma extend_first_append:
  "S \<noteq> [] \<Longrightarrow> extend_first c (S @ T) = extend_first c S @ T"
  by (cases S) (auto simp: extend_first_def)

lemma hd_split_lines_last:
  "split_lines xs = [seg] \<Longrightarrow> seg = xs"
proof (induction xs arbitrary: seg rule: split_lines.induct)
  case 1
  then show ?case by simp
next
  case (2 c)
  then show ?case by (auto split: if_splits)
next
  case (3 c d cs)
  show ?case
  proof (cases "c = 10 \<or> (c = 13 \<and> d = 10)")
    case True
    then show ?thesis using "3.prems" by auto
  next
    case False
    then have e: "extend_first c (split_lines (d # cs)) = [seg]" using "3.prems" by auto
    then obtain seg' where s: "split_lines (d # cs) = [seg']" "seg = c # seg'"
      by (cases "split_lines (d # cs)") (auto simp: extend_first_def)
    from "3.IH"(3)[of seg'] False s show ?thesis by auto
  qed
qed

lemma split_lines_append:
  "split_lines (a @ b) = butlast (split_lines a) @ split_lines (last (split_lines a) @ b)"
proof (induction a rule: split_lines.induct)
  case 1
  then show ?case by simp
next
  case (2 c)
  then show ?case by (simp add: split_lines_lf)
next
  case (3 c d cs)
  let ?S = "split_lines (d # cs)"
  show ?case
  proof (cases "c = 10")
    case True
    then show ?thesis using "3.IH"(1) by (simp add: split_lines_lf)
  next
    case False
    note c10 = False
    show ?thesis
    proof (cases "c = 13 \<and> d = 10")
      case True
      then show ?thesis using "3.IH"(2) c10 by simp
    next
      case False
      then have nc: "(c = 13 \<and> d = 10) = False" by simp
      have ih: "split_lines ((d # cs) @ b) = butlast ?S @ split_lines (last ?S @ b)"
        using "3.IH"(3) c10 False by simp
      have lhs: "split_lines ((c # d # cs) @ b) = extend_first c (split_lines ((d # cs) @ b))"
        using split_lines_Cons[of c "(d # cs) @ b"] c10 False by auto
      have Sc: "split_lines (c # d # cs) = extend_first c ?S"
        using c10 by (simp add: nc)
      show ?thesis
      proof (cases "butlast ?S = []")
        case True
        then obtain seg where S: "?S = [seg]"
          by (cases ?S rule: rev_cases) auto
        then have seg: "seg = d # cs" by (rule hd_split_lines_last)
        have "split_lines (c # seg @ b) = extend_first c (split_lines (seg @ b))"
          by (rule split_lines_Cons) (use c10 False seg in auto)
        then have "split_lines ((c # d # cs) @ b) = split_lines ((c # seg) @ b)"
          by (simp add: seg)
        moreover have "butlast (split_lines (c # d # cs)) = []" "last (split_lines (c # d # cs)) = c # seg"
          unfolding Sc S by (simp_all add: extend_first_def)
        ultimately show ?thesis by (simp only: append_Nil)
      next
        case ne: False
        then obtain seg1 rest where S: "?S = seg1 # rest" "rest \<noteq> []"
          by (cases ?S) (auto split: if_splits)
        have "split_lines ((c # d # cs) @ b)
                = extend_first c (butlast ?S) @ split_lines (last ?S @ b)"
          using lhs ih ne by (simp add: extend_first_append)
        moreover have "butlast (split_lines (c # d # cs)) = extend_first c (butlast ?S)"
          "last (split_lines (c # d # cs)) = last ?S"
          unfolding Sc S(1) using S(2) by (simp_all add: extend_first_def)
        ultimately show ?thesis by simp
      qed
    qed
  qed
qed

lemma last_split_lines_no_lf: "10 \<notin> set (last (split_lines xs))"
proof (induction xs rule: split_lines.induct)
  case 1
  then show ?case by simp
next
  case (2 c)
  then show ?case by simp
next
  case (3 c d cs)
  then show ?case
    by (cases "split_lines (d # cs)") (auto simp: extend_first_def)
qed

text \<open>Framing depends on the decoded text only, not on how it was cut into chunks.\<close>

lemma read_chunks_concat:
  "read_chunks dec handle (st, buf) chunks
     = (foldl handle st (butlast (split_lines (buf @ concat (map dec chunks)))),
        last (split_lines (buf @ concat (map dec chunks))))"
  if "split_lines buf = [buf]"
  using that
proof (induction chunks arbitrary: st buf)
  case Nil
  then show ?case by simp
next
  case (Cons v rest)
  let ?segs = "split_lines (buf @ dec v)"
  have l: "split_lines (last ?segs) = [last ?segs]"
    by (rule split_lines_no_lf) (rule last_split_lines_no_lf)
  have "split_lines ((buf @ dec v) @ concat (map dec rest))
          = butlast ?segs @ split_lines (last ?segs @ concat (map dec rest))"
    by (rule split_lines_append)
  then show ?case
    using Cons.IH[OF l, of "foldl handle st (butlast ?segs)"]
    by (simp add: Let_def butlast_append last_append)
qed

lemma stream_records_text:
  "stream_records chunks
     = (butlast (split_lines (concat (map TextDecoder_decode chunks))),
        last (split_lines (concat (map TextDecoder_decode chunks))))"
proof -
  have "foldl (\<lambda>acc line. acc @ [line]) acc ls = acc @ ls" for acc ls :: "jsstring list"
    by (induction ls arbitrary: acc) auto
  then show ?thesis
    using read_chunks_concat[of "[]" TextDecoder_decode "\<lambda>acc line. acc @ [line]" "[]" chunks]
    by (simp add: stream_records_def)
qed

lemma TextDecoder_decode_ascii_append:
  "\<forall>b \<in> set (concat chunks). b < 128 \<Longrightarrow>
     concat (map TextDecoder_decode chunks) = TextDecoder_decode (concat chunks)"
proof -
  assume a: "\<forall>b \<in> set (concat chunks). b < 128"
  then have "\<forall>c \<in> set chunks. TextDecoder_decode c = c"
    by (auto intro: TextDecoder_decode_ascii)
  then have "map TextDecoder_decode chunks = chunks" by (induction chunks) auto
  then show ?thesis using a by (simp add: TextDecoder_decode_ascii)
qed

text \<open>For an ASCII stream, the records do not depend on the chunking.\<close>

lemma stream_records_ascii:
  "\<forall>b \<in> set (concat chunks). b < 128 \<Longrightarrow> stream_records chunks = stream_records [concat chunks]"
  using TextDecoder_decode_ascii_append[of chunks]
  by (simp add: stream_records_text)

text \<open>
  Claim C8 fails on the code where a chunk boundary falls inside a multi-byte character.
  The bytes \<open>C3 A9 0A\<close> (the letter e with acute accent, then a line feed) give the
  record \<open>[0xE9]\<close> when they arrive as one chunk, and the record
  \<open>[0xFFFD, 0xFFFD]\<close> when they arrive as \<open>C3\<close> and \<open>A9 0A\<close>: each chunk is
  decoded on its own, and each half of the character becomes a replacement character.
\<close>

theorem chunk_boundary_inside_character:
  "stream_records [[0xC3, 0xA9, 10]] = ([[0xE9]], [])
   \<and> stream_records [[0xC3], [0xA9, 10]] = ([[0xFFFD, 0xFFFD]], [])"
  by (simp add: stream_records_def TextDecoder_decode_def strip_bom_def utf16_units_def
      extend_first_def)

end
